(* ===== verification/Prelude.thy ===== *)
theory Prelude
  imports Main "HOL-Library.Word" "HOL-Library.AList" "HOL-Library.Monad_Syntax"
begin

text \<open>
  Shared ground of the development: machine integers and byte buffers, big-endian
  fields, checked reads of raw buffers, byte strings and their decimal rendering
  (\<open>std::to_string\<close>, \<open>std::stoll\<close>, \<open>std::stoi\<close>), \<open>std::unordered_map\<close> as an
  association list, the expiring stores built on it, and the generic invariant argument
  for operation sequences.
\<close>

unbundle bit_operations_syntax

section \<open>Types\<close>

type_synonym u8 = "8 word"
type_synonym u16 = "16 word"
type_synonym u32 = "32 word"
type_synonym u64 = "64 word"
type_synonym bytes = "u8 list"

text \<open>
  \<open>std::size_t\<close> is \<open>nat\<close>: every size and offset computed by the program is a sum of a
  few 16-bit values and buffer lengths, far below \<open>2 ^ 64\<close>.
  A \<open>steady_clock::time_point\<close> counts nanoseconds.
\<close>

type_synonym time_point = int

definition seconds :: "nat \<Rightarrow> int" where
  "seconds n = int n * 1000000000"

named_theorems wire \<open>byte layout of fields\<close>
named_theorems umap \<open>unordered map operations\<close>
named_theorems mem \<open>checked reads of raw buffers\<close>

section \<open>Big-endian fields\<close>

definition be16 :: "u8 \<Rightarrow> u8 \<Rightarrow> u16" where
  "be16 h l = push_bit 8 (ucast h) OR ucast l"

definition be32 :: "u8 \<Rightarrow> u8 \<Rightarrow> u8 \<Rightarrow> u8 \<Rightarrow> u32" where
  "be32 a b c d =
     push_bit 24 (ucast a) OR push_bit 16 (ucast b) OR push_bit 8 (ucast c) OR ucast d"

definition byte16 :: "nat \<Rightarrow> u16 \<Rightarrow> u8" where
  "byte16 n w = ucast (drop_bit n w AND 0xFF)"

definition byte32 :: "nat \<Rightarrow> u32 \<Rightarrow> u8" where
  "byte32 n w = ucast (drop_bit n w AND 0xFF)"

lemma and_255: "w AND 0xFF = take_bit 8 (w :: 'a::len word)"
proof -
  have "(0xFF :: 'a word) = mask 8"
    by (simp add: mask_eq_exp_minus_1)
  then show ?thesis
    by (simp only: take_bit_eq_mask)
qed

lemma byte16_alt: "byte16 n w = ucast (drop_bit n w)"
  by (rule bit_word_eqI) (auto simp: byte16_def and_255 bit_simps)

lemma byte32_alt: "byte32 n w = ucast (drop_bit n w)"
  by (rule bit_word_eqI) (auto simp: byte32_def and_255 bit_simps)

lemma be16_byte16 [simp, wire]: "be16 (byte16 8 w) (byte16 0 w) = w"
  by (rule bit_word_eqI) (auto simp: be16_def byte16_alt bit_simps)

lemma byte16_be16_hi [simp, wire]: "byte16 8 (be16 h l) = h"
  by (rule bit_word_eqI) (auto simp: be16_def byte16_alt bit_simps dest: bit_imp_le_length)

lemma byte16_be16_lo [simp, wire]: "byte16 0 (be16 h l) = l"
  by (rule bit_word_eqI) (auto simp: be16_def byte16_alt bit_simps simp del: drop_bit_0)

lemma be32_byte32 [simp, wire]:
  "be32 (byte32 24 w) (byte32 16 w) (byte32 8 w) (byte32 0 w) = w"
proof (rule bit_word_eqI)
  fix n assume n: "n < LENGTH(32)"
  consider "n < 8" | "8 \<le> n" "n < 16" | "16 \<le> n" "n < 24" | "24 \<le> n" "n < 32"
    using n by fastforce
  then show "bit (be32 (byte32 24 w) (byte32 16 w) (byte32 8 w) (byte32 0 w)) n = bit w n"
    by cases (auto simp: be32_def byte32_alt bit_simps)
qed

lemma unat_be16_less [simp]: "unat (w :: u16) < 65536"
  using unsigned_less [of w] by simp

lemma unat_be16: "unat (be16 h l) = 256 * unat h + unat l"
proof -
  have d: "push_bit 8 (ucast h :: u16) OR ucast l = push_bit 8 (ucast h) + ucast l"
    by (rule disjunctive_add [symmetric]) (auto simp: bit_simps dest: bit_imp_le_length)
  have h: "unat h < 256" and l: "unat l < 256" using unsigned_less [of h] unsigned_less [of l] by simp_all
  have p: "unat (push_bit 8 (ucast h :: u16)) = 256 * unat h"
    using h by (simp add: push_bit_eq_mult unat_word_ariths unsigned_ucast_eq take_bit_nat_eq_self)
  then show ?thesis using d h l
    by (simp add: be16_def unat_word_ariths unsigned_ucast_eq take_bit_nat_eq_self)
qed

lemma unat_word_of_nat_u16: "n < 65536 \<Longrightarrow> unat (word_of_nat n :: u16) = n"
  by (simp add: unat_of_nat)

section \<open>Checked reads of a raw buffer\<close>

text \<open>
  A function that receives \<open>(const uint8_t* data, size_t size)\<close> is given the object
  \<open>data\<close> points into and the size the caller claims, separately. Reading outside the
  object is undefined behaviour; it is the value \<open>None\<close> of the model, so that a result
  \<open>Some r\<close> says the run touched only bytes of the object.
\<close>

definition rd :: "bytes \<Rightarrow> nat \<Rightarrow> u8 option" where
  "rd data i = (if i < length data then Some (data ! i) else None)"

definition rd16 :: "bytes \<Rightarrow> nat \<Rightarrow> u16 option" where
  "rd16 data i = do { h \<leftarrow> rd data i; l \<leftarrow> rd data (i + 1); Some (be16 h l) }"

definition rd32 :: "bytes \<Rightarrow> nat \<Rightarrow> u32 option" where
  "rd32 data i = do {
     a \<leftarrow> rd data i; b \<leftarrow> rd data (i + 1); c \<leftarrow> rd data (i + 2); d \<leftarrow> rd data (i + 3);
     Some (be32 a b c d) }"

definition rd_range :: "bytes \<Rightarrow> nat \<Rightarrow> nat \<Rightarrow> bytes option" where
  "rd_range data i n = (if i + n \<le> length data then Some (take n (drop i data)) else None)"

lemma rd_Some [mem]: "i < length data \<Longrightarrow> rd data i = Some (data ! i)"
  by (simp add: rd_def)

lemma rd16_Some [mem]:
  "i + 1 < length data \<Longrightarrow> rd16 data i = Some (be16 (data ! i) (data ! (i + 1)))"
  by (simp add: rd16_def rd_def)

lemma rd32_Some [mem]:
  "i + 3 < length data \<Longrightarrow>
     rd32 data i = Some (be32 (data ! i) (data ! (i + 1)) (data ! (i + 2)) (data ! (i + 3)))"
  by (simp add: rd32_def rd_def)

lemma rd_range_Some [mem]:
  "i + n \<le> length data \<Longrightarrow> rd_range data i n = Some (take n (drop i data))"
  by (simp add: rd_range_def)

text \<open>Reading a field inside an appended suffix.\<close>

lemma rd_append [mem]: "rd (xs @ ys) (length xs + i) = rd ys i"
  by (simp add: rd_def nth_append)

lemma rd16_append [mem]: "rd16 (xs @ ys) (length xs + i) = rd16 ys i"
  using rd_append [of xs ys "i + 1"] by (simp add: rd16_def rd_append)

lemma rd_range_append [mem]: "rd_range (xs @ ys) (length xs + i) n = rd_range ys i n"
  by (simp add: rd_range_def)

lemma rd_range_prefix [mem]: "rd_range (xs @ ys) 0 (length xs) = Some xs"
  by (simp add: rd_range_def)

section \<open>Byte strings\<close>

definition bytes_of_string :: "string \<Rightarrow> bytes" where
  "bytes_of_string s = map (\<lambda>c. word_of_nat (of_char c)) s"

definition string_of_bytes :: "bytes \<Rightarrow> string" where
  "string_of_bytes bs = map (\<lambda>b. char_of (unat b)) bs"

lemma of_char_less: "(of_char c :: nat) < 256"
proof -
  have "(of_char c :: nat) mod 256 < 256" by simp
  then show ?thesis by simp
qed

lemma string_of_bytes_of_string [simp]: "string_of_bytes (bytes_of_string s) = s"
proof -
  have "char_of (unat (word_of_nat (of_char c) :: u8)) = c" for c
    using of_char_less [of c] by (simp add: unat_of_nat)
  then show ?thesis
    by (simp add: string_of_bytes_def bytes_of_string_def o_def)
qed

lemma bytes_of_string_of_bytes [simp]: "bytes_of_string (string_of_bytes bs) = bs"
proof -
  have "word_of_nat (of_char (char_of (unat b) :: char)) = b" for b :: u8
  proof -
    have "unat b < 256"
      using unsigned_less [of b, where ?'a = nat] by simp
    then show ?thesis by simp
  qed
  then show ?thesis
    by (simp add: string_of_bytes_def bytes_of_string_def o_def)
qed

lemma length_bytes_of_string [simp]: "length (bytes_of_string s) = length s"
  by (simp add: bytes_of_string_def)

lemma length_string_of_bytes [simp]: "length (string_of_bytes bs) = length bs"
  by (simp add: string_of_bytes_def)

lemma bytes_of_string_append [simp]:
  "bytes_of_string (s @ t) = bytes_of_string s @ bytes_of_string t"
  by (simp add: bytes_of_string_def)

text \<open>\<open>s.find(sub)\<close>: the first position of a substring; \<open>s.substr(i)\<close> is \<open>drop i s\<close>.\<close>

definition find_substr :: "string \<Rightarrow> string \<Rightarrow> nat option" where
  "find_substr sub s = find (\<lambda>i. take (length sub) (drop i s) = sub) [0..<length s + 1]"

text \<open>\<open>s.c_str()\<close> as a NUL-terminated string.\<close>

definition c_str :: "string \<Rightarrow> string" where
  "c_str s = takeWhile (\<lambda>c. of_char c \<noteq> (0 :: nat)) s"

section \<open>Decimal numbers: std::to_string, std::stoll, std::stoi\<close>

definition digit_char :: "nat \<Rightarrow> char" where
  "digit_char d = char_of (48 + d)"

definition is_digit :: "char \<Rightarrow> bool" where
  "is_digit c \<longleftrightarrow> 48 \<le> (of_char c :: nat) \<and> (of_char c :: nat) \<le> 57"

definition digit_val :: "char \<Rightarrow> nat" where
  "digit_val c = of_char c - 48"

fun nat_to_string :: "nat \<Rightarrow> string" where
  "nat_to_string n =
     (if n < 10 then [digit_char n] else nat_to_string (n div 10) @ [digit_char (n mod 10)])"

declare nat_to_string.simps [simp del]

definition to_string :: "int \<Rightarrow> string" where
  "to_string i = (if i < 0 then ''-'' @ nat_to_string (nat (- i)) else nat_to_string (nat i))"

definition digits_val :: "string \<Rightarrow> nat" where
  "digits_val s = foldl (\<lambda>a c. 10 * a + digit_val c) 0 s"

text \<open>\<open>isspace\<close> in the C locale.\<close>

definition is_space :: "char \<Rightarrow> bool" where
  "is_space c \<longleftrightarrow> (of_char c :: nat) = 32 \<or> 9 \<le> (of_char c :: nat) \<and> (of_char c :: nat) \<le> 13"

text \<open>
  \<open>std::stoll\<close> and \<open>std::stoi\<close>: leading white space, an optional sign, then the longest
  run of digits; what follows is ignored. No digit and a value outside the type both
  throw, which is \<open>None\<close>.
\<close>

definition parse_signed :: "int \<Rightarrow> int \<Rightarrow> string \<Rightarrow> int option" where
  "parse_signed lo hi s =
     (let t = dropWhile is_space s;
          neg = (t \<noteq> [] \<and> hd t = CHR ''-'');
          u = (if t \<noteq> [] \<and> (hd t = CHR ''-'' \<or> hd t = CHR ''+'') then tl t else t);
          ds = takeWhile is_digit u;
          v = (if neg then - int (digits_val ds) else int (digits_val ds))
      in if ds = [] then None else if lo \<le> v \<and> v \<le> hi then Some v else None)"

definition stoll :: "string \<Rightarrow> int option" where
  "stoll = parse_signed (- (2 ^ 63)) (2 ^ 63 - 1)"

definition stoi :: "string \<Rightarrow> int option" where
  "stoi = parse_signed (- (2 ^ 31)) (2 ^ 31 - 1)"

lemma of_char_digit_char [simp]: "d < 10 \<Longrightarrow> (of_char (digit_char d) :: nat) = 48 + d"
  by (simp add: digit_char_def)

lemma is_digit_digit_char [simp]: "d < 10 \<Longrightarrow> is_digit (digit_char d)"
  by (simp add: is_digit_def)

lemma digit_val_digit_char [simp]: "d < 10 \<Longrightarrow> digit_val (digit_char d) = d"
  by (simp add: digit_val_def)

lemma nat_to_string_digits: "c \<in> set (nat_to_string n) \<Longrightarrow> is_digit c"
proof (induction n rule: nat_to_string.induct)
  case (1 n)
  then show ?case
    by (subst (asm) nat_to_string.simps) (auto split: if_splits)
qed

lemma nat_to_string_nonempty [simp]: "nat_to_string n \<noteq> []"
  by (subst nat_to_string.simps) simp

lemma digits_val_nat_to_string [simp]: "digits_val (nat_to_string n) = n"
proof (induction n rule: nat_to_string.induct)
  case (1 n)
  show ?case
  proof (cases "n < 10")
    case True
    then show ?thesis by (subst nat_to_string.simps) (simp add: digits_val_def)
  next
    case False
    with "1.IH" show ?thesis
      by (subst nat_to_string.simps) (simp add: digits_val_def)
  qed
qed

lemma nat_to_string_inj: "nat_to_string m = nat_to_string n \<Longrightarrow> m = n"
  by (metis digits_val_nat_to_string)

lemma digit_not_sign: "is_digit c \<Longrightarrow> c \<noteq> CHR ''-'' \<and> c \<noteq> CHR ''+'' \<and> c \<noteq> CHR '':'' \<and> \<not> is_space c"
  by (auto simp: is_digit_def is_space_def)

lemma takeWhile_digits_nat_to_string:
  "rest = [] \<or> \<not> is_digit (hd rest) \<Longrightarrow>
     takeWhile is_digit (nat_to_string n @ rest) = nat_to_string n"
  by (cases rest) (auto simp: nat_to_string_digits)

lemma parse_signed_nat_to_string:
  assumes "lo \<le> int n" "int n \<le> hi" "rest = [] \<or> \<not> is_digit (hd rest)"
  shows "parse_signed lo hi (nat_to_string n @ rest) = Some (int n)"
proof -
  obtain d ds where d: "nat_to_string n = d # ds"
    by (cases "nat_to_string n") auto
  have hd: "hd (nat_to_string n @ rest) = d"
    by (simp add: d)
  have dig: "d \<noteq> CHR ''-''" "d \<noteq> CHR ''+''" "\<not> is_space d"
    using digit_not_sign [OF nat_to_string_digits [of d n]] d by simp_all
  have dw: "dropWhile is_space (nat_to_string n @ rest) = nat_to_string n @ rest"
    using dig by (simp add: d)
  show ?thesis
    using assms(1,2) dig
    by (simp add: parse_signed_def Let_def dw hd takeWhile_digits_nat_to_string [OF assms(3)])
qed

lemma stoll_to_string:
  assumes "0 \<le> i" "i < 2 ^ 63" "rest = [] \<or> \<not> is_digit (hd rest)"
  shows "stoll (to_string i @ rest) = Some i"
  using parse_signed_nat_to_string [of "- (2 ^ 63)" "nat i" "2 ^ 63 - 1" rest] assms
  by (simp add: stoll_def to_string_def)

text \<open>\<open>std::hex << std::setw(2) << std::setfill('0')\<close> of a byte.\<close>

definition hex_digit :: "nat \<Rightarrow> char" where
  "hex_digit d = (if d < 10 then char_of (48 + d) else char_of (87 + d))"

definition hex_byte :: "u8 \<Rightarrow> string" where
  "hex_byte b = [hex_digit (unat b div 16), hex_digit (unat b mod 16)]"

section \<open>std::unordered_map\<close>

text \<open>
  An \<open>std::unordered_map\<close> is an association list with distinct keys; the list is one
  possible iteration order, which the standard leaves open. \<open>find\<close>, \<open>operator[] =\<close>
  and \<open>erase\<close> are \<open>map_of\<close>, \<open>AList.update\<close> and \<open>AList.delete\<close>.
\<close>

type_synonym ('k, 'v) umap = "('k \<times> 'v) list"

abbreviation um_find :: "('k, 'v) umap \<Rightarrow> 'k \<Rightarrow> 'v option" where
  "um_find m k \<equiv> map_of m k"

abbreviation um_set :: "'k \<Rightarrow> 'v \<Rightarrow> ('k, 'v) umap \<Rightarrow> ('k, 'v) umap" where
  "um_set k v m \<equiv> AList.update k v m"

abbreviation um_erase :: "'k \<Rightarrow> ('k, 'v) umap \<Rightarrow> ('k, 'v) umap" where
  "um_erase k m \<equiv> AList.delete k m"

abbreviation um_ok :: "('k, 'v) umap \<Rightarrow> bool" where
  "um_ok m \<equiv> distinct (map fst m)"

lemmas um_find_set [simp, umap] = update_conv'
lemmas um_find_erase [simp, umap] = delete_conv'

lemma um_ok_set [simp, intro, umap]: "um_ok m \<Longrightarrow> um_ok (um_set k v m)"
  by (rule distinct_update)

lemma um_ok_erase [simp, intro, umap]: "um_ok m \<Longrightarrow> um_ok (um_erase k m)"
  by (rule distinct_delete)

lemma um_mem_iff [umap]: "um_ok m \<Longrightarrow> (k, v) \<in> set m \<longleftrightarrow> um_find m k = Some v"
  by simp

declare map_of_eq_Some_iff [simp del] Some_eq_map_of_iff [simp del]

lemma um_set_absent: "um_find m k = None \<Longrightarrow> um_set k v m = m @ [(k, v)]"
  by (induction m) (auto split: if_splits)

text \<open>Two maps with the same content, in whatever iteration order, answer the same.\<close>

lemma um_find_perm:
  "um_ok m \<Longrightarrow> um_ok m' \<Longrightarrow> set m = set m' \<Longrightarrow> um_find m = um_find m'"
  by (rule map_of_inject_set [THEN iffD2])

lemma length_filter_mono:
  "(\<And>x. x \<in> set xs \<Longrightarrow> P x \<Longrightarrow> Q x) \<Longrightarrow> length (filter P xs) \<le> length (filter Q xs)"
  by (induction xs) (auto intro: le_SucI)

lemma find_append_skip: "(\<And>x. x \<in> set xs \<Longrightarrow> \<not> P x) \<Longrightarrow> find P (xs @ ys) = find P ys"
  by (induction xs) auto

section \<open>Stores whose entries expire\<close>

text \<open>
  The contract the authentication and the relay rely on: granting a key sets its expiry,
  and a key is valid strictly before it. Nonces, permissions and channel bindings all
  keep it.
\<close>

locale expiring_store =
  fixes expiry :: "'s \<Rightarrow> 'k \<Rightarrow> time_point option"
    and grant :: "'k \<Rightarrow> time_point \<Rightarrow> 's \<Rightarrow> 's"
    and valid :: "'s \<Rightarrow> 'k \<Rightarrow> time_point \<Rightarrow> bool"
  assumes expiry_grant: "expiry (grant k t s) k' = (if k' = k then Some t else expiry s k')"
    and valid_iff: "valid s k now \<longleftrightarrow> (\<exists>t. expiry s k = Some t \<and> now < t)"
begin

lemma valid_grant: "valid (grant k t s) k now \<longleftrightarrow> now < t"
  by (simp add: valid_iff expiry_grant)

lemma valid_grant_other: "k' \<noteq> k \<Longrightarrow> valid (grant k t s) k' now \<longleftrightarrow> valid s k' now"
  by (simp add: valid_iff expiry_grant)

lemma valid_earlier: "valid s k now \<Longrightarrow> now' \<le> now \<Longrightarrow> valid s k now'"
  by (auto simp: valid_iff)

lemma never_granted: "expiry s k = None \<Longrightarrow> \<not> valid s k now"
  by (simp add: valid_iff)

end

section \<open>Registries\<close>

text \<open>
  The contract of the tables in which the servers keep their connections: entering a key
  overwrites it, leaving removes whatever is filed under it.
\<close>

locale registry =
  fixes lookup :: "'s \<Rightarrow> 'k \<Rightarrow> 'v option"
    and enter :: "'k \<Rightarrow> 'v \<Rightarrow> 's \<Rightarrow> 's"
    and leave :: "'k \<Rightarrow> 's \<Rightarrow> 's"
  assumes lookup_enter: "lookup (enter k v s) k' = (if k' = k then Some v else lookup s k')"
    and lookup_leave: "lookup (leave k s) k' = (if k' = k then None else lookup s k')"
begin

lemma latest_wins: "lookup (enter k v' (enter k v s)) k = Some v'"
  by (simp add: lookup_enter)

lemma enter_leave_other: "k' \<noteq> k \<Longrightarrow> lookup (leave k (enter k v s)) k' = lookup s k'"
  by (simp add: lookup_enter lookup_leave)

text \<open>Leaving is by key only: it cannot tell a replaced connection from its successor.\<close>

lemma stale_leave: "lookup (leave k (enter k v' (enter k v s))) k = None"
  by (simp add: lookup_leave)

end

section \<open>Invariants of operation sequences\<close>

text \<open>
  A component whose every operation keeps an invariant keeps it along any sequence of
  operations whose arguments are admissible.
\<close>

locale invariant_machine =
  fixes step :: "'e \<Rightarrow> 's \<Rightarrow> 's"
    and admissible :: "'e \<Rightarrow> bool"
    and inv :: "'s \<Rightarrow> bool"
  assumes step_inv: "inv s \<Longrightarrow> admissible e \<Longrightarrow> inv (step e s)"
begin

lemma run_inv: "inv s \<Longrightarrow> list_all admissible es \<Longrightarrow> inv (fold step es s)"
  by (induction es arbitrary: s) (auto intro: step_inv)

lemma run_prefix_inv:
  "inv s \<Longrightarrow> list_all admissible (es @ fs) \<Longrightarrow> inv (fold step es s)"
  by (rule run_inv) auto

end

text \<open>
  A machine that refines an abstract one: read through \<open>abs\<close>, every step is a sequence of
  abstract steps.
\<close>

locale refining_machine = invariant_machine +
  fixes abstract_step :: "'a \<Rightarrow> 'a \<Rightarrow> bool"
    and abs :: "'s \<Rightarrow> 'a"
  assumes step_refines: "inv s \<Longrightarrow> admissible e \<Longrightarrow> abstract_step\<^sup>*\<^sup>* (abs s) (abs (step e s))"
begin

lemma run_refines: "inv s \<Longrightarrow> list_all admissible es \<Longrightarrow> abstract_step\<^sup>*\<^sup>* (abs s) (abs (fold step es s))"
proof (induction es arbitrary: s)
  case (Cons e es)
  then have "abstract_step\<^sup>*\<^sup>* (abs s) (abs (step e s))" "abstract_step\<^sup>*\<^sup>* (abs (step e s)) (abs (fold step es (step e s)))"
    by (simp_all add: step_refines step_inv)
  then show ?case by simp
qed simp

end

end
