(* ===== verification/Stun_Message.thy ===== *)
theory Stun_Message
  imports Prelude
begin

text \<open>
  The STUN/TURN wire format of \<open>turn_server/src/message\<close>: the XOR codec, the message
  and ChannelData parsers and the message builder, with the round trips between them and
  the memory safety of the parsers on any input.
\<close>

section \<open>xor\_codec.hpp\<close>

definition kMagicCookie :: u32 where
  "kMagicCookie = 0x2112A442"

definition xor_port :: "u16 \<Rightarrow> u16" where
  "xor_port p = p XOR ucast (drop_bit 16 kMagicCookie)"

definition xor_addr_v4 :: "u32 \<Rightarrow> u32" where
  "xor_addr_v4 addr = addr XOR kMagicCookie"

section \<open>parser.hpp: enumerations and structures\<close>

datatype MessageClass = Request | Indication | SuccessResponse | ErrorResponse

datatype Method = Allocate | Refresh | Send | Data | CreatePermission | ChannelBind | Unknown

fun class_code :: "MessageClass \<Rightarrow> u16" where
  "class_code Request = 0x00"
| "class_code Indication = 0x01"
| "class_code SuccessResponse = 0x02"
| "class_code ErrorResponse = 0x03"

fun method_code :: "Method \<Rightarrow> u16" where
  "method_code Allocate = 0x003"
| "method_code Refresh = 0x004"
| "method_code Send = 0x006"
| "method_code Data = 0x007"
| "method_code CreatePermission = 0x008"
| "method_code ChannelBind = 0x009"
| "method_code Unknown = 0xFFF"

text \<open>
  \<open>AttrType\<close> has the fixed underlying type \<open>uint16_t\<close> and is obtained from the wire by
  \<open>static_cast\<close>, so it holds any 16-bit value; the enumerators name some of them.
\<close>

type_synonym AttrType = u16

abbreviation (input) Attr_MappedAddress :: AttrType where "Attr_MappedAddress \<equiv> 0x0001"
abbreviation (input) Attr_Username :: AttrType where "Attr_Username \<equiv> 0x0006"
abbreviation (input) Attr_MessageIntegrity :: AttrType where "Attr_MessageIntegrity \<equiv> 0x0008"
abbreviation (input) Attr_ErrorCode :: AttrType where "Attr_ErrorCode \<equiv> 0x0009"
abbreviation (input) Attr_UnknownAttributes :: AttrType where "Attr_UnknownAttributes \<equiv> 0x000A"
abbreviation (input) Attr_ChannelNumber :: AttrType where "Attr_ChannelNumber \<equiv> 0x000C"
abbreviation (input) Attr_Lifetime :: AttrType where "Attr_Lifetime \<equiv> 0x000D"
abbreviation (input) Attr_XorPeerAddress :: AttrType where "Attr_XorPeerAddress \<equiv> 0x0012"
abbreviation (input) Attr_Data :: AttrType where "Attr_Data \<equiv> 0x0013"
abbreviation (input) Attr_Realm :: AttrType where "Attr_Realm \<equiv> 0x0014"
abbreviation (input) Attr_Nonce :: AttrType where "Attr_Nonce \<equiv> 0x0015"
abbreviation (input) Attr_XorRelayedAddress :: AttrType where "Attr_XorRelayedAddress \<equiv> 0x0016"
abbreviation (input) Attr_RequestedTransport :: AttrType where "Attr_RequestedTransport \<equiv> 0x0019"
abbreviation (input) Attr_MessageIntegritySha256 :: AttrType where "Attr_MessageIntegritySha256 \<equiv> 0x001C"
abbreviation (input) Attr_XorMappedAddress :: AttrType where "Attr_XorMappedAddress \<equiv> 0x0020"

record Attribute =
  atype :: AttrType
  avalue :: bytes

record TurnMessage =
  msg_class :: MessageClass
  "method" :: Method
  msg_length :: u16
  transaction_id :: bytes
  attributes :: "Attribute list"

datatype ParseResult = Ok | TooShort | BadMagicCookie | BadLength | NotTurnMessage

record ChannelDataMessage =
  channel_number :: u16
  ch_data :: bytes

datatype ChannelDataResult = ChOk | ChTooShort | InvalidChannel

definition findAttr :: "TurnMessage \<Rightarrow> AttrType \<Rightarrow> Attribute option" where
  "findAttr msg ty = find (\<lambda>a. atype a = ty) (attributes msg)"

section \<open>parser.cpp\<close>

definition decodeMethod :: "u16 \<Rightarrow> Method" where
  "decodeMethod msg_type =
     (let m = drop_bit 2 (msg_type AND 0x3E00) OR drop_bit 1 (msg_type AND 0x00E0)
              OR (msg_type AND 0x000F)
      in if m = 0x003 then Allocate
         else if m = 0x004 then Refresh
         else if m = 0x006 then Send
         else if m = 0x007 then Data
         else if m = 0x008 then CreatePermission
         else if m = 0x009 then ChannelBind
         else Unknown)"

definition decodeClass :: "u16 \<Rightarrow> MessageClass" where
  "decodeClass msg_type =
     (let c = ucast ((drop_bit 7 msg_type AND 0x02) OR (drop_bit 4 msg_type AND 0x01)) :: u8
      in if c = 0 then Request
         else if c = 1 then Indication
         else if c = 2 then SuccessResponse
         else if c = 3 then ErrorResponse
         else Request)"

text \<open>The bytes that pad a value of \<open>n\<close> bytes to a multiple of four.\<close>

definition pad4 :: "nat \<Rightarrow> nat" where
  "pad4 n = (if n mod 4 \<noteq> 0 then 4 - n mod 4 else 0)"

text \<open>
  The attribute loop of \<open>parse\<close>: \<open>limit\<close> is \<open>20u + out.length\<close>. The value of an
  attribute is checked against the packet (\<open>sz\<close>, the claimed size), not against \<open>limit\<close>.
\<close>

function parse_attrs :: "bytes \<Rightarrow> nat \<Rightarrow> nat \<Rightarrow> nat \<Rightarrow> Attribute list option" where
  "parse_attrs data sz limit offset =
     (if offset + 4 \<le> limit then do {
        type_raw \<leftarrow> rd16 data offset;
        attr_len \<leftarrow> rd16 data (offset + 2);
        if offset + 4 + unat attr_len > sz then Some []
        else do {
          v \<leftarrow> rd_range data (offset + 4) (unat attr_len);
          rest \<leftarrow> parse_attrs data sz limit
                   (offset + 4 + unat attr_len + pad4 (unat attr_len));
          Some (\<lparr>atype = type_raw, avalue = v\<rparr> # rest) }
      } else Some [])"
  by pat_completeness auto
termination
  by (relation "measure (\<lambda>(data, sz, limit, offset). limit - offset)") auto

declare parse_attrs.simps [simp del]

definition parse :: "bytes \<Rightarrow> nat \<Rightarrow> TurnMessage \<Rightarrow> (ParseResult \<times> TurnMessage) option" where
  "parse data sz out =
     (if sz < 20 then Some (TooShort, out)
      else do {
        b0 \<leftarrow> rd data 0;
        if b0 AND 0xC0 \<noteq> 0 then Some (NotTurnMessage, out)
        else do {
          msg_type \<leftarrow> rd16 data 0;
          len \<leftarrow> rd16 data 2;
          let out = out\<lparr>method := decodeMethod msg_type, msg_class := decodeClass msg_type,
                        msg_length := len\<rparr>;
          if sz < 20 + unat len then Some (BadLength, out)
          else do {
            cookie \<leftarrow> rd32 data 4;
            if cookie \<noteq> kMagicCookie then Some (BadMagicCookie, out)
            else do {
              tid \<leftarrow> rd_range data 8 12;
              attrs \<leftarrow> parse_attrs data sz (20 + unat len) 20;
              Some (Ok, out\<lparr>transaction_id := tid, attributes := attrs\<rparr>) } } } })"

definition is_channel_data :: "bytes \<Rightarrow> nat \<Rightarrow> bool option" where
  "is_channel_data data sz =
     (if sz < 1 then Some False else do { b0 \<leftarrow> rd data 0; Some (b0 AND 0xC0 = 0x40) })"

definition parse_channel_data ::
    "bytes \<Rightarrow> nat \<Rightarrow> ChannelDataMessage \<Rightarrow> (ChannelDataResult \<times> ChannelDataMessage) option" where
  "parse_channel_data raw sz out =
     (if sz < 4 then Some (ChTooShort, out)
      else do {
        ch \<leftarrow> rd16 raw 0;
        len \<leftarrow> rd16 raw 2;
        if ch < 0x4000 \<or> ch > 0x4FFF then Some (InvalidChannel, out)
        else if sz < 4 + unat len then Some (ChTooShort, out)
        else do {
          d \<leftarrow> rd_range raw 4 (unat len);
          Some (ChOk, out\<lparr>channel_number := ch, ch_data := d\<rparr>) } })"

section \<open>builder.cpp\<close>

record MessageBuilder =
  mb_type :: u16
  mb_tid :: bytes
  attrs_buf :: bytes

definition encodeType :: "Method \<Rightarrow> MessageClass \<Rightarrow> u16" where
  "encodeType mth cls =
     (let m = method_code mth; c = class_code cls;
          m_high = push_bit 2 (m AND 0x0F80);
          m_mid = push_bit 1 (m AND 0x0070);
          m_low = m AND 0x000F;
          c_high = push_bit 7 (c AND 0x02);
          c_low = push_bit 4 (c AND 0x01)
      in m_high OR c_high OR m_mid OR c_low OR m_low)"

definition mk_builder :: "Method \<Rightarrow> MessageClass \<Rightarrow> bytes \<Rightarrow> MessageBuilder" where
  "mk_builder mth cls tid = \<lparr>mb_type = encodeType mth cls, mb_tid = tid, attrs_buf = []\<rparr>"

definition appendAttrRaw :: "u16 \<Rightarrow> bytes \<Rightarrow> u16 \<Rightarrow> MessageBuilder \<Rightarrow> MessageBuilder" where
  "appendAttrRaw ty v len b =
     b\<lparr>attrs_buf := attrs_buf b @ [byte16 8 ty, byte16 0 ty, byte16 8 len, byte16 0 len]
         @ take (unat len) v @ replicate (pad4 (unat len)) 0\<rparr>"

definition addAttr :: "AttrType \<Rightarrow> bytes \<Rightarrow> MessageBuilder \<Rightarrow> MessageBuilder" where
  "addAttr ty v b = appendAttrRaw ty v (word_of_nat (length v)) b"

definition error_code_value :: "u16 \<Rightarrow> string \<Rightarrow> bytes" where
  "error_code_value code reason =
     [0x00, 0x00, ucast (code div 100) AND 0x07, ucast (code mod 100)] @ bytes_of_string reason"

definition addErrorCode :: "u16 \<Rightarrow> string \<Rightarrow> MessageBuilder \<Rightarrow> MessageBuilder" where
  "addErrorCode code reason b = addAttr Attr_ErrorCode (error_code_value code reason) b"

definition addLifetime :: "u32 \<Rightarrow> MessageBuilder \<Rightarrow> MessageBuilder" where
  "addLifetime secs b =
     addAttr Attr_Lifetime [byte32 24 secs, byte32 16 secs, byte32 8 secs, byte32 0 secs] b"

definition xor_address_value :: "u32 \<Rightarrow> u16 \<Rightarrow> bytes" where
  "xor_address_value ipv4 prt =
     (let xport = xor_port prt; xaddr = xor_addr_v4 ipv4
      in [0x00, 0x01, byte16 8 xport, byte16 0 xport,
          byte32 24 xaddr, byte32 16 xaddr, byte32 8 xaddr, byte32 0 xaddr])"

definition appendXorAddress :: "AttrType \<Rightarrow> u32 \<Rightarrow> u16 \<Rightarrow> MessageBuilder \<Rightarrow> MessageBuilder" where
  "appendXorAddress ty ipv4 prt b = addAttr ty (xor_address_value ipv4 prt) b"

definition addXorMappedAddress :: "u32 \<Rightarrow> u16 \<Rightarrow> MessageBuilder \<Rightarrow> MessageBuilder" where
  "addXorMappedAddress ipv4 prt b = appendXorAddress Attr_XorMappedAddress ipv4 prt b"

definition addXorRelayedAddress :: "u32 \<Rightarrow> u16 \<Rightarrow> MessageBuilder \<Rightarrow> MessageBuilder" where
  "addXorRelayedAddress ipv4 prt b = appendXorAddress Attr_XorRelayedAddress ipv4 prt b"

definition addXorPeerAddress :: "u32 \<Rightarrow> u16 \<Rightarrow> MessageBuilder \<Rightarrow> MessageBuilder" where
  "addXorPeerAddress ipv4 prt b = appendXorAddress Attr_XorPeerAddress ipv4 prt b"

definition build :: "MessageBuilder \<Rightarrow> bytes" where
  "build b =
     (let attrs_len = word_of_nat (length (attrs_buf b)) :: u16
      in [byte16 8 (mb_type b), byte16 0 (mb_type b), byte16 8 attrs_len, byte16 0 attrs_len,
          0x21, 0x12, 0xA4, 0x42] @ mb_tid b @ attrs_buf b)"

definition make_error :: "bytes \<Rightarrow> u16 \<Rightarrow> string \<Rightarrow> bytes" where
  "make_error tid code reason =
     build (addErrorCode code reason (mk_builder Allocate ErrorResponse tid))"

definition make400 :: "bytes \<Rightarrow> bytes" where
  "make400 tid = build (addErrorCode 400 ''Bad Request'' (mk_builder Allocate ErrorResponse tid))"

definition make401 :: "bytes \<Rightarrow> string \<Rightarrow> string \<Rightarrow> bytes" where
  "make401 tid realm nonce =
     build (addAttr Attr_Nonce (bytes_of_string nonce)
       (addAttr Attr_Realm (bytes_of_string realm)
         (addErrorCode 401 ''Unauthorized'' (mk_builder Allocate ErrorResponse tid))))"

definition make438 :: "bytes \<Rightarrow> string \<Rightarrow> string \<Rightarrow> bytes" where
  "make438 tid realm nonce =
     build (addAttr Attr_Nonce (bytes_of_string nonce)
       (addAttr Attr_Realm (bytes_of_string realm)
         (addErrorCode 438 ''Stale Nonce'' (mk_builder Allocate ErrorResponse tid))))"

definition make_data_indication :: "bytes \<Rightarrow> u32 \<Rightarrow> u16 \<Rightarrow> bytes \<Rightarrow> bytes" where
  "make_data_indication tid peer_ipv4 peer_port payload =
     build (addAttr Attr_Data payload
       (addXorPeerAddress peer_ipv4 peer_port (mk_builder Data Indication tid)))"

definition make_channel_data :: "u16 \<Rightarrow> bytes \<Rightarrow> bytes" where
  "make_channel_data channel dat =
     (let len = word_of_nat (length dat) :: u16
      in [byte16 8 channel, byte16 0 channel, byte16 8 len, byte16 0 len] @ dat
         @ replicate (pad4 (unat len)) 0)"

section \<open>Reference encoding\<close>

text \<open>
  The type-length-value form the attributes have on the wire, as a function of the
  attribute, and the attributes for which it is exact.
\<close>

definition attr_bytes :: "Attribute \<Rightarrow> bytes" where
  "attr_bytes a =
     (let len = word_of_nat (length (avalue a)) :: u16
      in [byte16 8 (atype a), byte16 0 (atype a), byte16 8 len, byte16 0 len]
         @ avalue a @ replicate (pad4 (length (avalue a))) 0)"

definition attrs_bytes :: "Attribute list \<Rightarrow> bytes" where
  "attrs_bytes as = concat (map attr_bytes as)"

definition attrs_fit :: "Attribute list \<Rightarrow> bool" where
  "attrs_fit as \<longleftrightarrow> length (attrs_bytes as) < 65536"

definition add_attrs :: "Attribute list \<Rightarrow> MessageBuilder \<Rightarrow> MessageBuilder" where
  "add_attrs as b = fold (\<lambda>a. addAttr (atype a) (avalue a)) as b"

section \<open>Codec lemmas\<close>

lemma xor_port_xor_port [simp]: "xor_port (xor_port p) = p"
  by (simp add: xor_port_def xor.assoc)

lemma xor_addr_v4_xor_addr_v4 [simp]: "xor_addr_v4 (xor_addr_v4 a) = a"
  by (simp add: xor_addr_v4_def xor.assoc)

lemma decodeMethod_encodeType [simp]: "decodeMethod (encodeType m c) = m"
  by (cases m; cases c) (simp_all add: encodeType_def decodeMethod_def Let_def)

lemma decodeClass_encodeType [simp]: "decodeClass (encodeType m c) = c"
  by (cases m; cases c) (simp_all add: encodeType_def decodeClass_def Let_def)

lemma encodeType_top_bits: "byte16 8 (encodeType m c) AND 0xC0 = 0"
  by (cases m; cases c) (simp_all add: encodeType_def byte16_def Let_def)

lemma pad4_le: "pad4 n \<le> 3"
  by (auto simp: pad4_def)

lemma pad4_mod: "(n + pad4 n) mod 4 = 0"
proof (cases "n mod 4 = 0")
  case True
  then show ?thesis by (simp add: pad4_def)
next
  case False
  then have "n + (4 - n mod 4) = 4 * (n div 4) + 4"
    by presburger
  with False show ?thesis by (simp add: pad4_def)
qed

section \<open>Attribute encoding and the attribute loop\<close>

lemma length_attr_bytes:
  "length (attr_bytes a) = 4 + length (avalue a) + pad4 (length (avalue a))"
  by (simp add: attr_bytes_def Let_def)

lemma attrs_bytes_simps [simp]:
  "attrs_bytes [] = []" "attrs_bytes (a # as) = attr_bytes a @ attrs_bytes as"
  "attrs_bytes (as @ bs) = attrs_bytes as @ attrs_bytes bs"
  by (simp_all add: attrs_bytes_def)

lemma attrs_fit_Cons: "attrs_fit (a # as) \<Longrightarrow> length (avalue a) < 65536 \<and> attrs_fit as"
  by (simp add: attrs_fit_def length_attr_bytes)

lemma attrs_buf_addAttr:
  "length v < 65536 \<Longrightarrow>
     addAttr ty v b = b\<lparr>attrs_buf := attrs_buf b @ attr_bytes \<lparr>atype = ty, avalue = v\<rparr>\<rparr>"
  by (simp add: addAttr_def appendAttrRaw_def attr_bytes_def Let_def unat_word_of_nat_u16)

lemma Attribute_collapse [simp]: "\<lparr>atype = atype a, avalue = avalue a\<rparr> = a"
  by (cases a) simp

lemma add_attrs_eq:
  "attrs_fit as \<Longrightarrow> add_attrs as b = b\<lparr>attrs_buf := attrs_buf b @ attrs_bytes as\<rparr>"
proof (induction as arbitrary: b)
  case Nil
  then show ?case by (simp add: add_attrs_def)
next
  case (Cons a as)
  then show ?case
    by (auto simp: add_attrs_def attrs_buf_addAttr dest!: attrs_fit_Cons)
qed

lemma parse_attrs_stop: "limit < offset + 4 \<Longrightarrow> parse_attrs data sz limit offset = Some []"
  by (simp add: parse_attrs.simps)

lemma rd_attr_header:
  assumes "length v < 65536"
  shows "rd16 (pre @ attr_bytes \<lparr>atype = ty, avalue = v\<rparr> @ post) (length pre) = Some ty"
    and "rd16 (pre @ attr_bytes \<lparr>atype = ty, avalue = v\<rparr> @ post) (length pre + 2)
           = Some (word_of_nat (length v))"
    and "rd_range (pre @ attr_bytes \<lparr>atype = ty, avalue = v\<rparr> @ post) (length pre + 4) (length v)
           = Some v"
  using rd16_append [of pre "attr_bytes \<lparr>atype = ty, avalue = v\<rparr> @ post" 0]
    rd16_append [of pre "attr_bytes \<lparr>atype = ty, avalue = v\<rparr> @ post" 2]
    rd_range_append [of pre "attr_bytes \<lparr>atype = ty, avalue = v\<rparr> @ post" 4 "length v"]
  by (simp_all add: attr_bytes_def Let_def rd16_def rd_def rd_range_def)

text \<open>The loop reads back the attributes that were encoded, whatever surrounds them.\<close>

lemma parse_attrs_attrs_bytes:
  assumes "attrs_fit as" "length pre + length (attrs_bytes as) \<le> sz"
  shows "parse_attrs (pre @ attrs_bytes as @ post) sz (length pre + length (attrs_bytes as)) (length pre)
           = Some as"
  using assms
proof (induction as arbitrary: pre)
  case Nil
  then show ?case by (simp add: parse_attrs_stop)
next
  case (Cons a as)
  obtain ty v where a: "a = \<lparr>atype = ty, avalue = v\<rparr>"
    by (cases a) auto
  have v: "length v < 65536" and fit: "attrs_fit as"
    using attrs_fit_Cons [OF Cons.prems(1)] a by auto
  have len: "length (attr_bytes a) = 4 + length v + pad4 (length v)"
    by (simp add: length_attr_bytes a)
  have IH: "parse_attrs ((pre @ attr_bytes a) @ attrs_bytes as @ post) sz
       (length (pre @ attr_bytes a) + length (attrs_bytes as)) (length (pre @ attr_bytes a)) = Some as"
    using Cons.IH [OF fit, of "pre @ attr_bytes a"] Cons.prems(2) by (simp add: add.assoc)
  show ?case
    using IH Cons.prems(2) v rd_attr_header [OF v, of pre ty "attrs_bytes as @ post"] len
    by (subst parse_attrs.simps) (simp add: a unat_word_of_nat_u16 ac_simps)
qed

section \<open>Whole messages\<close>

lemma build_layout:
  "build b = [byte16 8 (mb_type b), byte16 0 (mb_type b),
            byte16 8 (word_of_nat (length (attrs_buf b))), byte16 0 (word_of_nat (length (attrs_buf b))),
            0x21, 0x12, 0xA4, 0x42] @ mb_tid b @ attrs_buf b"
  by (simp add: build_def Let_def)

lemma length_build: "length (build b) = 8 + length (mb_tid b) + length (attrs_buf b)"
  by (simp add: build_def Let_def)

lemma magic_cookie_bytes: "be32 0x21 0x12 0xA4 0x42 = kMagicCookie"
  by (simp add: be32_def kMagicCookie_def)

text \<open>
  Parsing a message laid out as the builder does, possibly followed by other bytes of
  the receive buffer that belong to no attribute.
\<close>

lemma parse_layout:
  assumes "length tid = 12" "attrs_fit as"
    and hdr: "hdr = [byte16 8 (encodeType m c), byte16 0 (encodeType m c),
               byte16 8 (word_of_nat (length (attrs_bytes as))),
               byte16 0 (word_of_nat (length (attrs_bytes as))), 0x21, 0x12, 0xA4, 0x42]"
  shows "parse (hdr @ tid @ attrs_bytes as @ post) (20 + length (attrs_bytes as) + length post) out =
     Some (Ok, \<lparr>msg_class = c, method = m, msg_length = word_of_nat (length (attrs_bytes as)),
                transaction_id = tid, attributes = as\<rparr>)"
proof -
  let ?data = "hdr @ tid @ attrs_bytes as @ post" and ?n = "length (attrs_bytes as)"
  have n: "unat (word_of_nat ?n :: u16) = ?n"
    using assms(2) by (simp add: attrs_fit_def unat_word_of_nat_u16)
  have loop: "parse_attrs ?data (20 + ?n + length post) (20 + ?n) 20 = Some as"
    using parse_attrs_attrs_bytes [OF assms(2), of "hdr @ tid" "20 + ?n + length post" post] assms(1)
    by (simp add: hdr)
  have tid: "rd_range ?data 8 12 = Some tid"
    using assms(1) by (simp add: hdr rd_range_def)
  have fields: "rd ?data 0 = Some (byte16 8 (encodeType m c))"
    "rd16 ?data 0 = Some (encodeType m c)" "rd16 ?data 2 = Some (word_of_nat ?n)"
    "rd32 ?data 4 = Some kMagicCookie"
    by (simp_all add: hdr rd_def rd16_def rd32_def magic_cookie_bytes)
  show ?thesis
    by (simp add: parse_def fields tid loop n encodeType_top_bits)
qed

lemma parse_build_append:
  assumes "length tid = 12" "attrs_fit as"
  shows "parse (build (add_attrs as (mk_builder m c tid)) @ post)
      (length (build (add_attrs as (mk_builder m c tid)) @ post)) out =
     Some (Ok, \<lparr>msg_class = c, method = m, msg_length = word_of_nat (length (attrs_bytes as)),
                transaction_id = tid, attributes = as\<rparr>)"
proof -
  have b: "add_attrs as (mk_builder m c tid) =
      \<lparr>mb_type = encodeType m c, mb_tid = tid, attrs_buf = attrs_bytes as\<rparr>"
    using assms(2) by (simp add: add_attrs_eq mk_builder_def)
  show ?thesis
    using parse_layout [OF assms refl, of m c post out] assms
    by (simp add: b build_layout ac_simps)
qed

section \<open>Memory safety of the parsers\<close>

definition slice_of :: "bytes \<Rightarrow> nat \<Rightarrow> bytes \<Rightarrow> bool" where
  "slice_of data sz v \<longleftrightarrow> (\<exists>i. i + length v \<le> sz \<and> v = take (length v) (drop i data))"

lemma slice_ofI: "i + n \<le> sz \<Longrightarrow> sz \<le> length data \<Longrightarrow> slice_of data sz (take n (drop i data))"
  unfolding slice_of_def by (rule exI [of _ i]) simp

lemma parse_attrs_safe:
  assumes "limit \<le> sz" "sz \<le> length data"
  shows "\<exists>as. parse_attrs data sz limit offset = Some as
           \<and> (\<forall>a \<in> set as. slice_of data sz (avalue a))
           \<and> 4 * length as \<le> limit - offset"
  using assms
proof (induction data sz limit offset rule: parse_attrs.induct)
  case (1 data sz limit offset)
  show ?case
  proof (cases "offset + 4 \<le> limit")
    case False
    then show ?thesis by (simp add: parse_attrs_stop)
  next
    case True
    let ?len = "be16 (data ! (offset + 2)) (data ! (offset + 3))"
    have hd: "rd16 data offset = Some (be16 (data ! offset) (data ! (offset + 1)))"
      "rd16 data (offset + 2) = Some ?len"
      using True "1.prems" by (simp_all add: mem numeral_3_eq_3)
    show ?thesis
    proof (cases "offset + 4 + unat ?len > sz")
      case over: True
      then show ?thesis
        using True hd by (subst parse_attrs.simps) simp
    next
      case False
      let ?v = "take (unat ?len) (drop (offset + 4) data)"
      let ?o = "offset + 4 + unat ?len + pad4 (unat ?len)"
      have v: "rd_range data (offset + 4) (unat ?len) = Some ?v" and sl: "slice_of data sz ?v"
        using False "1.prems" by (auto simp: mem intro: slice_ofI)
      obtain as where as: "parse_attrs data sz limit ?o = Some as"
        "\<forall>a \<in> set as. slice_of data sz (avalue a)" "4 * length as \<le> limit - ?o"
        using "1.IH" [OF True hd False v "1.prems"] by auto
      have "parse_attrs data sz limit offset =
          Some (\<lparr>atype = be16 (data ! offset) (data ! (offset + 1)), avalue = ?v\<rparr> # as)"
        using True False hd v as(1) by (subst parse_attrs.simps) simp
      then show ?thesis
        using as True sl by auto
    qed
  qed
qed

lemma parse_safe:
  assumes "sz \<le> length data"
  shows "\<exists>r out'. parse data sz out = Some (r, out')
     \<and> (r = Ok \<longrightarrow> length (transaction_id out') = 12
          \<and> (\<forall>a \<in> set (attributes out'). slice_of data sz (avalue a))
          \<and> 4 * length (attributes out') \<le> unat (msg_length out')
          \<and> 20 + unat (msg_length out') \<le> sz)"
proof (cases "sz < 20")
  case True
  then show ?thesis by (simp add: parse_def)
next
  case False
  let ?len = "be16 (data ! 2) (data ! 3)"
  have rds: "rd data 0 = Some (data ! 0)" "rd16 data 0 = Some (be16 (data ! 0) (data ! 1))"
    "rd16 data 2 = Some ?len"
    "rd32 data 4 = Some (be32 (data ! 4) (data ! 5) (data ! 6) (data ! 7))"
    "rd_range data 8 12 = Some (take 12 (drop 8 data))"
    using False assms by (auto simp: rd_def rd16_def rd32_def rd_range_def)
  have tid: "length (take 12 (drop 8 data)) = 12"
    using False assms by simp
  show ?thesis
  proof (cases "sz < 20 + unat ?len")
    case True
    then show ?thesis using False rds by (simp add: parse_def)
  next
    case fits: False
    obtain as where "parse_attrs data sz (20 + unat ?len) 20 = Some as"
      "\<forall>a \<in> set as. slice_of data sz (avalue a)" "4 * length as \<le> unat ?len"
      using parse_attrs_safe [of "20 + unat ?len" sz data 20] fits assms by auto
    then show ?thesis
      using False fits rds tid by (simp add: parse_def Let_def)
  qed
qed

section \<open>ChannelData\<close>

lemma parse_channel_data_safe:
  assumes "sz \<le> length raw"
  shows "\<exists>r out'. parse_channel_data raw sz out = Some (r, out')
     \<and> (r = ChOk \<longrightarrow> slice_of raw sz (ch_data out')
          \<and> 0x4000 \<le> channel_number out' \<and> channel_number out' \<le> 0x4FFF)"
proof (cases "sz < 4")
  case True
  then show ?thesis by (simp add: parse_channel_data_def)
next
  case False
  let ?len = "be16 (raw ! 2) (raw ! 3)"
  have hd: "rd16 raw 0 = Some (be16 (raw ! 0) (raw ! 1))" "rd16 raw 2 = Some ?len"
    using False assms by (auto simp: rd_def rd16_def)
  show ?thesis
  proof (cases "sz < 4 + unat ?len")
    case True
    then show ?thesis using False hd by (simp add: parse_channel_data_def)
  next
    case fits: False
    then have "rd_range raw 4 (unat ?len) = Some (take (unat ?len) (drop 4 raw))"
      "slice_of raw sz (take (unat ?len) (drop 4 raw))"
      using assms by (auto simp: mem intro: slice_ofI)
    then show ?thesis
      using False fits hd by (auto simp: parse_channel_data_def not_less)
  qed
qed

lemma channel_top_bits:
  assumes "0x4000 \<le> ch" "ch \<le> 0x4FFF"
  shows "byte16 8 ch AND 0xC0 = 0x40"
proof -
  have "unat (drop_bit 8 ch) = unat ch div 256"
    by (simp add: drop_bit_eq_div unat_div)
  moreover have "unat ch div 256 \<in> {64..79}"
    using assms by (auto simp: word_le_nat_alt)
  ultimately have "unat (byte16 8 ch) \<in> {64..79}"
    by (simp add: byte16_alt unsigned_ucast_eq take_bit_eq_mod)
  then have "byte16 8 ch \<in> word_of_nat ` {64..79}"
    by (intro image_eqI [of _ _ "unat (byte16 8 ch)"]) simp_all
  moreover have "{64..79::nat} = set [64..<80]" by (simp only: set_upt) auto
  ultimately show ?thesis
    by (auto simp: upt_rec simp del: set_upt)
qed

lemma length_make_channel_data:
  "length dat < 65536 \<Longrightarrow> length (make_channel_data ch dat) = 4 + length dat + pad4 (length dat)"
  by (simp add: make_channel_data_def Let_def unat_word_of_nat_u16)

lemma parse_make_channel_data:
  assumes "0x4000 \<le> ch" "ch \<le> 0x4FFF" "length dat < 65536" "4 + length dat \<le> sz"
  shows "parse_channel_data (make_channel_data ch dat @ post) sz out =
           Some (ChOk, out\<lparr>channel_number := ch, ch_data := dat\<rparr>)"
proof -
  have "rd16 (make_channel_data ch dat @ post) 0 = Some ch"
    "rd16 (make_channel_data ch dat @ post) 2 = Some (word_of_nat (length dat))"
    "rd_range (make_channel_data ch dat @ post) 4 (length dat) = Some dat"
    by (simp_all add: make_channel_data_def Let_def rd16_def rd_def rd_range_def)
  then show ?thesis
    using assms by (auto simp: parse_channel_data_def unat_word_of_nat_u16 not_less)
qed

section \<open>The builder's own messages in terms of attribute lists\<close>

lemma make_error_eq:
  "make_error tid code reason =
     build (add_attrs [\<lparr>atype = Attr_ErrorCode, avalue = error_code_value code reason\<rparr>]
       (mk_builder Allocate ErrorResponse tid))"
  by (simp add: make_error_def addErrorCode_def add_attrs_def)

lemma make_data_indication_eq:
  "make_data_indication tid ip prt payload =
     build (add_attrs [\<lparr>atype = Attr_XorPeerAddress, avalue = xor_address_value ip prt\<rparr>,
                       \<lparr>atype = Attr_Data, avalue = payload\<rparr>] (mk_builder Data Indication tid))"
  by (simp add: make_data_indication_def addXorPeerAddress_def appendXorAddress_def add_attrs_def)

lemma length_error_code_value [simp]: "length (error_code_value code reason) = 4 + length reason"
  by (simp add: error_code_value_def)

lemma length_xor_address_value [simp]: "length (xor_address_value ip prt) = 8"
  by (simp add: xor_address_value_def Let_def)

lemma build_not_empty [simp]: "build b \<noteq> []"
  by (simp add: build_layout)

lemma build_first_byte:
  "build (add_attrs as (mk_builder m c tid)) ! 0 AND 0xC0 = 0" if "attrs_fit as"
  using that by (simp add: build_layout add_attrs_eq mk_builder_def encodeType_top_bits)

section \<open>Properties\<close>

text \<open>
  C7. Round trip of the wire format: a message assembled with the builder from any
  method, class, transaction id and list of attributes whose encoding fits the 16-bit
  length field is parsed back to exactly that message, whatever the output parameter
  held before.
\<close>

theorem parse_build_roundtrip:
  assumes "length tid = 12" "attrs_fit as"
  shows "parse (build (add_attrs as (mk_builder m c tid)))
           (length (build (add_attrs as (mk_builder m c tid)))) out =
     Some (Ok, \<lparr>msg_class = c, method = m, msg_length = word_of_nat (length (attrs_bytes as)),
                transaction_id = tid, attributes = as\<rparr>)"
  using parse_build_append [OF assms, of m c "[]" out] by simp

theorem parse_build_roundtrip_witness:
  "parse (build (add_attrs [\<lparr>atype = 0x0013, avalue = [1, 2, 3]\<rparr>] (mk_builder Send Indication (replicate 12 7))))
     (length (build (add_attrs [\<lparr>atype = 0x0013, avalue = [1, 2, 3]\<rparr>] (mk_builder Send Indication (replicate 12 7)))))
     \<lparr>msg_class = Request, method = Unknown, msg_length = 0, transaction_id = [], attributes = []\<rparr> =
   Some (Ok, \<lparr>msg_class = Indication, method = Send, msg_length = 8,
              transaction_id = replicate 12 7, attributes = [\<lparr>atype = 0x0013, avalue = [1, 2, 3]\<rparr>]\<rparr>)"
proof -
  have fit: "attrs_fit [\<lparr>atype = 0x0013, avalue = [1, 2, 3]\<rparr>]"
    and len: "length (attrs_bytes [\<lparr>atype = 0x0013, avalue = [1, 2, 3]\<rparr>]) = 8"
    by (simp_all add: attrs_fit_def attr_bytes_def Let_def pad4_def)
  show ?thesis
    using parse_build_roundtrip [OF _ fit, of "replicate 12 7" Send Indication] len by simp
qed

text \<open>
  C8. Memory safety and shape of the parser: on any buffer and any claimed size within
  it, \<open>parse\<close> reads no byte outside the buffer, and when it answers \<open>Ok\<close> the
  transaction id has 12 bytes, every attribute value is a run of bytes inside the packet,
  the declared length fits the packet and bounds the number of attributes.
\<close>

theorem parse_memory_safe:
  assumes "sz \<le> length data"
  shows "\<exists>r out'. parse data sz out = Some (r, out')
     \<and> (r = Ok \<longrightarrow> length (transaction_id out') = 12
          \<and> (\<forall>a \<in> set (attributes out'). slice_of data sz (avalue a))
          \<and> 4 * length (attributes out') \<le> unat (msg_length out')
          \<and> 20 + unat (msg_length out') \<le> sz)"
  using assms by (rule parse_safe)

theorem parse_memory_safe_witness:
  "\<exists>r out'. parse (replicate 30 0) 25
      \<lparr>msg_class = Request, method = Unknown, msg_length = 0, transaction_id = [], attributes = []\<rparr>
      = Some (r, out')"
  using parse_memory_safe [of 25 "replicate 30 0"
      "\<lparr>msg_class = Request, method = Unknown, msg_length = 0, transaction_id = [], attributes = []\<rparr>"]
  by auto

text \<open>
  ChannelData round trip: for a channel number of the TURN range and at most 65535
  bytes of data, the framed message is recognised as ChannelData, is parsed back to the
  channel and the data, and its length is a multiple of four, also when other bytes
  follow it in the buffer.
\<close>

lemma channel_data_roundtrip:
  assumes "0x4000 \<le> ch" "ch \<le> 0x4FFF" "length dat < 65536"
  shows "is_channel_data (make_channel_data ch dat @ post) (length (make_channel_data ch dat)) = Some True
     \<and> parse_channel_data (make_channel_data ch dat @ post) (length (make_channel_data ch dat)) out =
         Some (ChOk, out\<lparr>channel_number := ch, ch_data := dat\<rparr>)
     \<and> length (make_channel_data ch dat) mod 4 = 0"
proof (intro conjI)
  show "is_channel_data (make_channel_data ch dat @ post) (length (make_channel_data ch dat)) = Some True"
    using channel_top_bits [OF assms(1,2)]
    by (simp add: is_channel_data_def make_channel_data_def Let_def rd_def)
  show "parse_channel_data (make_channel_data ch dat @ post) (length (make_channel_data ch dat)) out =
         Some (ChOk, out\<lparr>channel_number := ch, ch_data := dat\<rparr>)"
    using assms by (intro parse_make_channel_data) (simp_all add: length_make_channel_data)
  show "length (make_channel_data ch dat) mod 4 = 0"
    using pad4_mod [of "length dat"] assms(3)
    by (simp add: length_make_channel_data add.assoc)
qed

end
