(* ===== verification/Crypto.thy ===== *)
theory Crypto
  imports Prelude
begin

text \<open>
  The wrappers of \<open>shared/crypto\<close> over OpenSSL, and the two third-party interfaces the
  servers call: OpenSSL and the IPv4 text conversion of Boost.Asio. Both interfaces are
  parameters, records of functions, and what the program relies on is stated as the
  predicates \<open>openssl_ok\<close> and \<open>asio_ok\<close>.
  An uncaught exception ends the handler: it is the value \<open>None\<close>.
\<close>

section \<open>Third-party interfaces\<close>

datatype md = SHA1 | SHA256 | MD5

record openssl =
  ossl_HMAC :: "md \<Rightarrow> bytes \<Rightarrow> bytes \<Rightarrow> bytes option"
  ossl_digest :: "md \<Rightarrow> bytes \<Rightarrow> bytes option"
  ossl_base64_write :: "bytes \<Rightarrow> string"
  ossl_base64_read :: "string \<Rightarrow> bytes option"
  ossl_memcmp :: "bytes \<Rightarrow> bytes \<Rightarrow> nat \<Rightarrow> int"

text \<open>
  Documented behaviour: the digests have their fixed sizes, \<open>HMAC\<close> succeeds when memory
  is available, base64 of a non-empty buffer is not empty, and \<open>CRYPTO_memcmp\<close> is zero
  exactly on equal buffers.
\<close>

definition openssl_ok :: "openssl \<Rightarrow> bool" where
  "openssl_ok ssl \<longleftrightarrow>
     (\<forall>k d. \<exists>h. ossl_HMAC ssl SHA1 k d = Some h \<and> length h = 20)
   \<and> (\<forall>k d. \<exists>h. ossl_HMAC ssl SHA256 k d = Some h \<and> length h = 32)
   \<and> (\<forall>d. \<exists>h. ossl_digest ssl SHA256 d = Some h \<and> length h = 32)
   \<and> (\<forall>d. d \<noteq> [] \<longrightarrow> ossl_base64_write ssl d \<noteq> [])
   \<and> (\<forall>a b n. ossl_memcmp ssl a b n = 0 \<longleftrightarrow> take n a = take n b)"

record asio_ip =
  make_address_v4 :: "string \<Rightarrow> u32 option"
  v4_to_string :: "u32 \<Rightarrow> string"

text \<open>Parsing the text form of an IPv4 address gives the address back.\<close>

definition asio_ok :: "asio_ip \<Rightarrow> bool" where
  "asio_ok io \<longleftrightarrow> (\<forall>ip. make_address_v4 io (v4_to_string io ip) = Some ip)"

section \<open>hmac.hpp, sha256.hpp\<close>

definition hmac_sha1 :: "openssl \<Rightarrow> bytes \<Rightarrow> string \<Rightarrow> bytes option" where
  "hmac_sha1 ssl key dat = ossl_HMAC ssl SHA1 key (bytes_of_string dat)"

definition hmac_sha1_str :: "openssl \<Rightarrow> string \<Rightarrow> string \<Rightarrow> bytes option" where
  "hmac_sha1_str ssl key dat = hmac_sha1 ssl (bytes_of_string key) dat"

definition hmac_sha256 :: "openssl \<Rightarrow> bytes \<Rightarrow> string \<Rightarrow> bytes option" where
  "hmac_sha256 ssl key dat = ossl_HMAC ssl SHA256 key (bytes_of_string dat)"

definition hmac_sha256_str :: "openssl \<Rightarrow> string \<Rightarrow> string \<Rightarrow> bytes option" where
  "hmac_sha256_str ssl key dat = hmac_sha256 ssl (bytes_of_string key) dat"

definition sha256 :: "openssl \<Rightarrow> string \<Rightarrow> bytes option" where
  "sha256 ssl dat = ossl_digest ssl SHA256 (bytes_of_string dat)"

definition long_term_key :: "openssl \<Rightarrow> string \<Rightarrow> string \<Rightarrow> string \<Rightarrow> bytes option" where
  "long_term_key ssl username realm password =
     sha256 ssl (username @ '':'' @ realm @ '':'' @ password)"

text \<open>The MD5 variant ignores the return codes: on failure the zeroed buffer is returned.\<close>

definition long_term_key_md5 :: "openssl \<Rightarrow> string \<Rightarrow> string \<Rightarrow> string \<Rightarrow> bytes" where
  "long_term_key_md5 ssl username realm password =
     (case ossl_digest ssl MD5 (bytes_of_string (username @ '':'' @ realm @ '':'' @ password)) of
        None \<Rightarrow> replicate 16 0 | Some h \<Rightarrow> h)"

section \<open>base64.hpp\<close>

datatype base64_error = InvalidLength | InvalidCharacter | InvalidPadding | DecodeFailed

definition base64_encode :: "openssl \<Rightarrow> bytes \<Rightarrow> string" where
  "base64_encode ssl dat = (if dat = [] then [] else ossl_base64_write ssl dat)"

definition base64_valid :: string where
  "base64_valid = ''ABCDEFGHIJKLMNOPQRSTUVWXYZabcdefghijklmnopqrstuvwxyz0123456789+/=''"

fun base64_check :: "string \<Rightarrow> nat \<Rightarrow> nat \<Rightarrow> base64_error option" where
  "base64_check [] i n = None"
| "base64_check (c # cs) i n =
     (if c \<notin> set base64_valid then Some InvalidCharacter
      else if c = CHR ''='' \<and> i < n - 2 then Some InvalidPadding
      else base64_check cs (i + 1) n)"

definition base64_decode :: "openssl \<Rightarrow> string \<Rightarrow> base64_error + bytes" where
  "base64_decode ssl input =
     (if input = [] then Inr []
      else if length input mod 4 \<noteq> 0 then Inl InvalidLength
      else case base64_check input 0 (length input) of
             Some e \<Rightarrow> Inl e
           | None \<Rightarrow> (case ossl_base64_read ssl input of
                        None \<Rightarrow> Inl DecodeFailed | Some r \<Rightarrow> Inr r))"

section \<open>constant\_time.hpp\<close>

definition constant_time_compare :: "openssl \<Rightarrow> bytes \<Rightarrow> bytes \<Rightarrow> bool" where
  "constant_time_compare ssl a b \<longleftrightarrow>
     (if length a \<noteq> length b then False else ossl_memcmp ssl a b (length a) = 0)"

definition constant_time_compare_str :: "openssl \<Rightarrow> string \<Rightarrow> string \<Rightarrow> bool" where
  "constant_time_compare_str ssl a b \<longleftrightarrow>
     (if length a \<noteq> length b then False
      else ossl_memcmp ssl (bytes_of_string a) (bytes_of_string b) (length a) = 0)"

section \<open>Lemmas\<close>

lemma bytes_of_string_inject [simp]: "bytes_of_string s = bytes_of_string t \<longleftrightarrow> s = t"
  by (metis string_of_bytes_of_string)

lemma constant_time_compare_iff [simp]:
  "openssl_ok ssl \<Longrightarrow> constant_time_compare ssl a b \<longleftrightarrow> a = b"
  by (auto simp: constant_time_compare_def openssl_ok_def)

lemma constant_time_compare_str_iff [simp]:
  "openssl_ok ssl \<Longrightarrow> constant_time_compare_str ssl a b \<longleftrightarrow> a = b"
  by (auto simp: constant_time_compare_str_def openssl_ok_def)

lemma hmac_sha1_ok: "openssl_ok ssl \<Longrightarrow> \<exists>h. hmac_sha1 ssl k d = Some h \<and> length h = 20"
  by (simp add: hmac_sha1_def openssl_ok_def)

lemma hmac_sha1_str_ok: "openssl_ok ssl \<Longrightarrow> \<exists>h. hmac_sha1_str ssl k d = Some h \<and> length h = 20"
  by (simp add: hmac_sha1_str_def hmac_sha1_ok)

lemma hmac_sha256_ok: "openssl_ok ssl \<Longrightarrow> \<exists>h. hmac_sha256 ssl k d = Some h \<and> length h = 32"
  by (simp add: hmac_sha256_def openssl_ok_def)

lemma long_term_key_ok: "openssl_ok ssl \<Longrightarrow> \<exists>h. long_term_key ssl u r p = Some h"
  by (auto simp: long_term_key_def sha256_def openssl_ok_def)

lemma base64_encode_nonempty: "openssl_ok ssl \<Longrightarrow> d \<noteq> [] \<Longrightarrow> base64_encode ssl d \<noteq> []"
  by (simp add: base64_encode_def openssl_ok_def)

text \<open>A concrete instance of both interfaces, which shows the two predicates can hold.\<close>

definition demo_openssl :: openssl where
  "demo_openssl =
     \<lparr>ossl_HMAC = (\<lambda>m k d. Some (replicate (case m of SHA1 \<Rightarrow> 20 | SHA256 \<Rightarrow> 32 | MD5 \<Rightarrow> 16)
                      (sum_list k + 31 * sum_list d))),
      ossl_digest = (\<lambda>m d. Some (replicate (case m of SHA1 \<Rightarrow> 20 | SHA256 \<Rightarrow> 32 | MD5 \<Rightarrow> 16) (sum_list d))),
      ossl_base64_write = (\<lambda>d. string_of_bytes d),
      ossl_base64_read = (\<lambda>s. Some (bytes_of_string s)),
      ossl_memcmp = (\<lambda>a b n. if take n a = take n b then 0 else 1)\<rparr>"

lemma demo_openssl_ok [simp]: "openssl_ok demo_openssl"
  by (auto simp: openssl_ok_def demo_openssl_def string_of_bytes_def)

definition demo_asio :: asio_ip where
  "demo_asio =
     \<lparr>make_address_v4 = (\<lambda>s. case bytes_of_string s of
         [a, b, c, d] \<Rightarrow> Some (be32 a b c d) | _ \<Rightarrow> None),
      v4_to_string = (\<lambda>ip. string_of_bytes [byte32 24 ip, byte32 16 ip, byte32 8 ip, byte32 0 ip])\<rparr>"

lemma demo_asio_ok [simp]: "asio_ok demo_asio"
  by (simp add: asio_ok_def demo_asio_def)

end
