(* ===== verification/Turn_Auth.thy ===== *)
theory Turn_Auth
  imports Stun_Message Crypto
begin

text \<open>
  \<open>turn_server/src/auth\<close>: the nonce manager, the validator of time-limited HMAC
  credentials and the long-term credential mechanism that checks a request.
  \<open>now\<close> is \<open>steady_clock::now()\<close>, \<open>wall\<close> is \<open>system_clock::now()\<close> in seconds, and
  \<open>rnd i\<close> is the outcome of the \<open>i\<close>-th call of \<open>RAND_bytes\<close> (\<open>None\<close> when it fails).
  An uncaught exception, a read outside the message and a loop that does not end are
  all \<open>None\<close>.
\<close>

section \<open>nonce\_manager.cpp\<close>

record NonceManager =
  nm_ttl :: int
  nm_store :: "(string, time_point) umap"

definition mk_nonce_manager :: "nat \<Rightarrow> NonceManager" where
  "mk_nonce_manager ttl_seconds = \<lparr>nm_ttl = seconds ttl_seconds, nm_store = []\<rparr>"

definition generateRandom :: "(nat \<Rightarrow> bytes option) \<Rightarrow> nat \<Rightarrow> string option" where
  "generateRandom rnd i = map_option (\<lambda>buf. concat (map hex_byte buf)) (rnd i)"

partial_function (option) nonce_loop ::
    "(nat \<Rightarrow> bytes option) \<Rightarrow> (string, time_point) umap \<Rightarrow> nat \<Rightarrow> string option" where
  "nonce_loop rnd st i = do {
     nonce \<leftarrow> generateRandom rnd i;
     if um_find st nonce \<noteq> None then nonce_loop rnd st (i + 1) else Some nonce }"

definition nonce_generate ::
    "(nat \<Rightarrow> bytes option) \<Rightarrow> time_point \<Rightarrow> NonceManager \<Rightarrow> (string \<times> NonceManager) option" where
  "nonce_generate rnd now nm = do {
     nonce \<leftarrow> nonce_loop rnd (nm_store nm) 0;
     Some (nonce, nm\<lparr>nm_store := um_set nonce (now + nm_ttl nm) (nm_store nm)\<rparr>) }"

definition nonce_isValid :: "NonceManager \<Rightarrow> string \<Rightarrow> time_point \<Rightarrow> bool" where
  "nonce_isValid nm nonce now =
     (case um_find (nm_store nm) nonce of None \<Rightarrow> False | Some t \<Rightarrow> now < t)"

definition nonce_invalidate :: "string \<Rightarrow> NonceManager \<Rightarrow> NonceManager" where
  "nonce_invalidate nonce nm = nm\<lparr>nm_store := um_erase nonce (nm_store nm)\<rparr>"

fun cleanup_loop :: "time_point \<Rightarrow> (string, time_point) umap \<Rightarrow> (string, time_point) umap" where
  "cleanup_loop now [] = []"
| "cleanup_loop now ((k, t) # rest) =
     (if now \<ge> t then cleanup_loop now rest else (k, t) # cleanup_loop now rest)"

definition nonce_cleanup :: "time_point \<Rightarrow> NonceManager \<Rightarrow> NonceManager" where
  "nonce_cleanup now nm = nm\<lparr>nm_store := cleanup_loop now (nm_store nm)\<rparr>"

section \<open>hmac\_validator.cpp\<close>

record HmacCredentials =
  cred_username :: string
  cred_password :: string

record HmacValidator =
  shared_secret :: string

text \<open>\<open>s.substr(0, s.find(':'))\<close>, when there is a colon.\<close>

definition before_colon :: "string \<Rightarrow> string option" where
  "before_colon s =
     (if CHR '':'' \<in> set s then Some (takeWhile (\<lambda>c. c \<noteq> CHR '':'') s) else None)"

definition parseExpiry :: "string \<Rightarrow> int option" where
  "parseExpiry username = do { p \<leftarrow> before_colon username; stoll p }"

definition computeHmac :: "openssl \<Rightarrow> HmacValidator \<Rightarrow> string \<Rightarrow> string option" where
  "computeHmac ssl hv username = do {
     raw \<leftarrow> hmac_sha1_str ssl (shared_secret hv) username;
     Some (base64_encode ssl raw) }"

definition getPassword :: "openssl \<Rightarrow> HmacValidator \<Rightarrow> string \<Rightarrow> string option" where
  "getPassword ssl hv username =
     (if CHR '':'' \<notin> set username then Some [] else computeHmac ssl hv username)"

definition hv_validate :: "openssl \<Rightarrow> HmacValidator \<Rightarrow> int \<Rightarrow> string \<Rightarrow> string \<Rightarrow> bool option" where
  "hv_validate ssl hv wall username password =
     (case parseExpiry username of
        None \<Rightarrow> Some False
      | Some expiry \<Rightarrow>
          if wall > expiry then Some False
          else do {
            expected \<leftarrow> computeHmac ssl hv username;
            Some (constant_time_compare_str ssl expected password) })"

definition hv_generate ::
    "openssl \<Rightarrow> HmacValidator \<Rightarrow> int \<Rightarrow> string \<Rightarrow> int \<Rightarrow> HmacCredentials option" where
  "hv_generate ssl hv wall user_id ttl_seconds = do {
     let username = to_string (wall + ttl_seconds) @ '':'' @ user_id;
     password \<leftarrow> computeHmac ssl hv username;
     Some \<lparr>cred_username = username, cred_password = password\<rparr> }"

section \<open>long\_term\_cred.cpp\<close>

datatype AuthResult =
  AuthOk | MissingCredentials | StaleNonce | BadIntegrity | WrongCredentials | CredentialsExpired

record ChallengeAttrs =
  chal_realm :: string
  chal_nonce :: string

definition makeChallenge ::
    "(nat \<Rightarrow> bytes option) \<Rightarrow> time_point \<Rightarrow> string \<Rightarrow> NonceManager \<Rightarrow> (ChallengeAttrs \<times> NonceManager) option" where
  "makeChallenge rnd now realm nm = do {
     (nonce, nm) \<leftarrow> nonce_generate rnd now nm;
     Some (\<lparr>chal_realm = realm, chal_nonce = nonce\<rparr>, nm) }"

text \<open>
  The loop that looks for the integrity attribute \<open>ty\<close> in the raw message; \<open>limit\<close> is
  \<open>20u + attrs_len\<close>. \<open>Some None\<close>: not found.
\<close>

function find_integrity :: "AttrType \<Rightarrow> bytes \<Rightarrow> nat \<Rightarrow> nat \<Rightarrow> nat \<Rightarrow> nat option option" where
  "find_integrity ty raw raw_len limit offset =
     (if offset + 4 \<le> limit \<and> offset + 4 \<le> raw_len then do {
        t \<leftarrow> rd16 raw offset;
        len \<leftarrow> rd16 raw (offset + 2);
        if t = ty then Some (Some offset)
        else find_integrity ty raw raw_len limit (offset + 4 + unat len + pad4 (unat len))
      } else Some None)"
  by pat_completeness auto
termination
  by (relation "measure (\<lambda>(ty, raw, raw_len, limit, offset). limit - offset)") auto

declare find_integrity.simps [simp del]

text \<open>\<open>buf[2] = (len >> 8) & 0xFF; buf[3] = len & 0xFF\<close>\<close>

definition set_length_field :: "u16 \<Rightarrow> bytes \<Rightarrow> bytes" where
  "set_length_field len buf = buf[2 := byte16 8 len, 3 := byte16 0 len]"

definition verifyMessageIntegrity ::
    "openssl \<Rightarrow> string \<Rightarrow> bytes \<Rightarrow> nat \<Rightarrow> string \<Rightarrow> string \<Rightarrow> bool option" where
  "verifyMessageIntegrity ssl realm raw raw_len username password =
     (if raw_len < 20 then Some False
      else do {
        attrs_len \<leftarrow> rd16 raw 2;
        found \<leftarrow> find_integrity Attr_MessageIntegritySha256 raw raw_len (20 + unat attrs_len) 20;
        case found of
          None \<Rightarrow> Some False
        | Some mi_pos \<Rightarrow>
            if mi_pos + 4 + 32 > raw_len then Some False
            else do {
              let adjusted_len = (word_of_nat (mi_pos - 20 + 4 + 32) :: u16);
              buf \<leftarrow> rd_range raw 0 (mi_pos + 4 + 32);
              let buf = set_length_field adjusted_len buf;
              let buf = take (mi_pos + 4) buf @ replicate 32 0;
              key \<leftarrow> long_term_key ssl username realm password;
              computed \<leftarrow> hmac_sha256 ssl key (string_of_bytes buf);
              expected \<leftarrow> rd_range raw (mi_pos + 4) 32;
              Some (constant_time_compare ssl computed expected) } })"

definition verifyMessageIntegrityMd5 ::
    "openssl \<Rightarrow> string \<Rightarrow> bytes \<Rightarrow> nat \<Rightarrow> string \<Rightarrow> string \<Rightarrow> bool option" where
  "verifyMessageIntegrityMd5 ssl realm raw raw_len username password =
     (if raw_len < 20 then Some False
      else do {
        attrs_len \<leftarrow> rd16 raw 2;
        found \<leftarrow> find_integrity Attr_MessageIntegrity raw raw_len (20 + unat attrs_len) 20;
        case found of
          None \<Rightarrow> Some False
        | Some mi_pos \<Rightarrow>
            if mi_pos + 4 + 20 > raw_len then Some False
            else do {
              let adjusted_len = (word_of_nat (mi_pos - 20 + 4 + 20) :: u16);
              buf \<leftarrow> rd_range raw 0 mi_pos;
              let buf = set_length_field adjusted_len buf;
              let key = long_term_key_md5 ssl username realm password;
              computed \<leftarrow> hmac_sha1 ssl key (string_of_bytes buf);
              expected \<leftarrow> rd_range raw (mi_pos + 4) 20;
              Some (constant_time_compare ssl computed expected) } })"

definition authenticate ::
    "openssl \<Rightarrow> string \<Rightarrow> NonceManager \<Rightarrow> HmacValidator \<Rightarrow> time_point \<Rightarrow> int \<Rightarrow> TurnMessage
      \<Rightarrow> bytes \<Rightarrow> nat \<Rightarrow> string \<Rightarrow> AuthResult option" where
  "authenticate ssl realm nm hv now wall msg raw raw_len allocated_username =
     (if msg_class msg = Indication then Some AuthOk
      else
        let username_attr = findAttr msg Attr_Username;
            realm_attr = findAttr msg Attr_Realm;
            nonce_attr = findAttr msg Attr_Nonce;
            mi_sha256 = findAttr msg Attr_MessageIntegritySha256;
            mi_md5 = findAttr msg Attr_MessageIntegrity
        in case (username_attr, realm_attr, nonce_attr) of
             (Some ua, Some ra, Some na) \<Rightarrow>
               if mi_sha256 = None \<and> mi_md5 = None then Some MissingCredentials
               else
                 let username = string_of_bytes (avalue ua);
                     nonce = string_of_bytes (avalue na)
                 in if \<not> nonce_isValid nm nonce now then Some StaleNonce
                    else case before_colon username of
                      None \<Rightarrow> Some BadIntegrity
                    | Some p \<Rightarrow>
                        (case stoll p of
                           None \<Rightarrow> Some BadIntegrity
                         | Some expiry \<Rightarrow>
                             if wall > expiry then Some CredentialsExpired
                             else do {
                               password \<leftarrow> getPassword ssl hv username;
                               if password = [] then Some BadIntegrity
                               else do {
                                 good \<leftarrow> (if mi_sha256 \<noteq> None
                                        then verifyMessageIntegrity ssl realm raw raw_len username password
                                        else verifyMessageIntegrityMd5 ssl realm raw raw_len username password);
                                 if \<not> good then Some BadIntegrity
                                 else if method msg \<noteq> Allocate \<and> allocated_username \<noteq> []
                                         \<and> username \<noteq> allocated_username
                                 then Some WrongCredentials
                                 else Some AuthOk } })
           | _ \<Rightarrow> Some MissingCredentials)"

section \<open>Nonces\<close>

lemma nonce_loop_Some:
  "nonce_loop rnd st i = Some n \<Longrightarrow> um_find st n = None \<and> (\<exists>j \<ge> i. generateRandom rnd j = Some n)"
proof (induction rule: nonce_loop.raw_induct [rotated, consumes 1])
  case (1 loop rnd st i n)
  from "1"(2) obtain m where m: "generateRandom rnd i = Some m"
    "(if um_find st m \<noteq> None then loop rnd st (i + 1) else Some m) = Some n"
    by (auto simp: bind_eq_Some_conv)
  show ?case
  proof (cases "um_find st m = None")
    case True
    with m show ?thesis by auto
  next
    case False
    with m "1"(1) [of rnd st "i + 1" n] show ?thesis by (metis Suc_eq_plus1 Suc_leD)
  qed
qed

lemma nonce_loop_returns:
  assumes "\<And>j. i \<le> j \<Longrightarrow> j \<le> k \<Longrightarrow> rnd j \<noteq> None"
    "generateRandom rnd k = Some n" "um_find st n = None" "i \<le> k"
  shows "\<exists>m. nonce_loop rnd st i = Some m"
  using assms
proof (induction "k - i" arbitrary: i)
  case 0
  then show ?case by (subst nonce_loop.simps) simp
next
  case (Suc d)
  obtain m where m: "generateRandom rnd i = Some m"
    using Suc.prems(1,4) by (force simp: generateRandom_def)
  have "\<exists>r. nonce_loop rnd st (i + 1) = Some r"
    using Suc.hyps(2) Suc.prems by (intro Suc.hyps(1)) auto
  with m show ?case by (subst nonce_loop.simps) auto
qed

lemma nonce_generate_Some:
  assumes "nonce_generate rnd now nm = Some (nonce, nm')"
  shows "um_find (nm_store nm) nonce = None"
    "nm' = nm\<lparr>nm_store := um_set nonce (now + nm_ttl nm) (nm_store nm)\<rparr>"
  using assms nonce_loop_Some [of rnd "nm_store nm" 0 nonce]
  by (auto simp: nonce_generate_def bind_eq_Some_conv)

interpretation nonces: expiring_store
  "\<lambda>nm n. um_find (nm_store nm) n" "\<lambda>n t nm. nm\<lparr>nm_store := um_set n t (nm_store nm)\<rparr>" nonce_isValid
  by unfold_locales (auto simp: nonce_isValid_def split: option.splits)

lemma um_find_cleanup_loop:
  "um_ok st \<Longrightarrow> um_find (cleanup_loop now st) k =
     (case um_find st k of None \<Rightarrow> None | Some t \<Rightarrow> if now \<ge> t then None else Some t)"
proof (induction now st rule: cleanup_loop.induct)
  case (2 now k' t rest)
  have "um_find rest k' = None"
    using "2.prems" by (simp add: map_of_eq_None_iff)
  with 2 show ?case by (auto split: option.splits)
qed simp

lemma set_cleanup_loop: "set (cleanup_loop now st) \<subseteq> set st"
  by (induction now st rule: cleanup_loop.induct) auto

lemma um_ok_cleanup_loop: "um_ok st \<Longrightarrow> um_ok (cleanup_loop now st)"
proof (induction now st rule: cleanup_loop.induct)
  case (2 now k t rest)
  then show ?case
    using set_cleanup_loop [of now rest] by auto
qed simp

section \<open>Credentials\<close>

lemma before_colon_append:
  "CHR '':'' \<notin> set p \<Longrightarrow> before_colon (p @ CHR '':'' # rest) = Some p"
proof -
  assume "CHR '':'' \<notin> set p"
  then have "takeWhile (\<lambda>c. c \<noteq> CHR '':'') (p @ CHR '':'' # rest) = p"
    by (subst takeWhile_append2) auto
  then show ?thesis by (simp add: before_colon_def)
qed

lemma parseExpiry_username:
  assumes "0 \<le> t" "t < 2 ^ 63"
  shows "parseExpiry (to_string t @ '':'' @ user_id) = Some t"
proof -
  have "CHR '':'' \<notin> set (to_string t)"
    using assms(1) nat_to_string_digits [of "CHR '':''" "nat t"] by (auto simp: to_string_def is_digit_def)
  then show ?thesis
    using stoll_to_string [OF assms, of "[]"] by (simp add: parseExpiry_def before_colon_append)
qed

lemma computeHmac_ok: "openssl_ok ssl \<Longrightarrow> \<exists>p. computeHmac ssl hv username = Some p \<and> p \<noteq> []"
proof -
  assume ok: "openssl_ok ssl"
  then obtain h where h: "hmac_sha1_str ssl (shared_secret hv) username = Some h" "length h = 20"
    using hmac_sha1_str_ok by blast
  then have "h \<noteq> []" by auto
  with h ok show ?thesis by (simp add: computeHmac_def base64_encode_nonempty)
qed

section \<open>The integrity attribute in the raw message\<close>

lemma find_integrity_safe:
  "raw_len \<le> length raw \<Longrightarrow>
     \<exists>r. find_integrity ty raw raw_len limit offset = Some r
       \<and> (\<forall>pos. r = Some pos \<longrightarrow> offset \<le> pos \<and> pos + 4 \<le> raw_len)"
proof (induction ty raw raw_len limit offset rule: find_integrity.induct)
  case (1 ty raw raw_len limit offset)
  show ?case
  proof (cases "offset + 4 \<le> limit \<and> offset + 4 \<le> raw_len")
    case False
    then show ?thesis by (subst find_integrity.simps) auto
  next
    case True
    let ?t = "be16 (raw ! offset) (raw ! (offset + 1))"
    let ?len = "be16 (raw ! (offset + 2)) (raw ! (offset + 3))"
    have hd: "rd16 raw offset = Some ?t" "rd16 raw (offset + 2) = Some ?len"
      using True "1.prems" by (simp_all add: mem numeral_3_eq_3)
    show ?thesis
    proof (cases "?t = ty")
      case eq: True
      with True hd show ?thesis by (subst find_integrity.simps) auto
    next
      case False
      let ?o = "offset + 4 + unat ?len + pad4 (unat ?len)"
      have "find_integrity ty raw raw_len limit offset = find_integrity ty raw raw_len limit ?o"
        using True False hd by (subst find_integrity.simps) simp
      with "1.IH" [OF True hd False "1.prems"] show ?thesis by fastforce
    qed
  qed
qed

lemma find_integrity_attrs:
  assumes "attrs_fit as" "\<forall>a \<in> set as. atype a \<noteq> ty" "length v < 65536"
    "length pre + length (attrs_bytes as) + 4 \<le> limit" "length pre + length (attrs_bytes as) + 4 \<le> raw_len"
  shows "find_integrity ty (pre @ attrs_bytes as @ attr_bytes \<lparr>atype = ty, avalue = v\<rparr> @ post) raw_len limit (length pre)
           = Some (Some (length pre + length (attrs_bytes as)))"
  using assms
proof (induction as arbitrary: pre)
  case Nil
  then show ?case
    using rd_attr_header [OF assms(3), of pre ty post] by (subst find_integrity.simps) simp
next
  case (Cons a as)
  obtain ty' w where a: "a = \<lparr>atype = ty', avalue = w\<rparr>"
    by (cases a) auto
  have w: "length w < 65536" and fit: "attrs_fit as"
    using attrs_fit_Cons [OF Cons.prems(1)] a by auto
  have len: "length (attr_bytes a) = 4 + length w + pad4 (length w)"
    by (simp add: length_attr_bytes a)
  have "find_integrity ty ((pre @ attr_bytes a) @ attrs_bytes as @ attr_bytes \<lparr>atype = ty, avalue = v\<rparr> @ post)
      raw_len limit (length (pre @ attr_bytes a)) =
      Some (Some (length (pre @ attr_bytes a) + length (attrs_bytes as)))"
    using Cons.IH [OF fit, of "pre @ attr_bytes a"] Cons.prems by (simp add: add.assoc)
  then show ?case
    using Cons.prems rd_attr_header [OF w, of pre ty' "attrs_bytes as @ attr_bytes \<lparr>atype = ty, avalue = v\<rparr> @ post"] len w
    by (subst find_integrity.simps) (simp add: a unat_word_of_nat_u16 ac_simps)
qed

section \<open>Signed messages\<close>

text \<open>
  What the two verifications compare: the HMAC of the message up to the attribute, with
  the length field set as if the attribute ended the message (for SHA-256, with the
  attribute's header and a zeroed value included), against the value in the message.
\<close>

definition integrity_sha1 :: "openssl \<Rightarrow> string \<Rightarrow> string \<Rightarrow> string \<Rightarrow> bytes \<Rightarrow> nat \<Rightarrow> bool" where
  "integrity_sha1 ssl realm username password raw pos \<longleftrightarrow>
     ossl_HMAC ssl SHA1 (long_term_key_md5 ssl username realm password)
       (set_length_field (word_of_nat (pos + 4)) (take pos raw)) = Some (take 20 (drop (pos + 4) raw))"

definition integrity_sha256 :: "openssl \<Rightarrow> string \<Rightarrow> string \<Rightarrow> string \<Rightarrow> bytes \<Rightarrow> nat \<Rightarrow> bool" where
  "integrity_sha256 ssl realm username password raw pos \<longleftrightarrow>
     do { key \<leftarrow> long_term_key ssl username realm password;
          ossl_HMAC ssl SHA256 key
            (set_length_field (word_of_nat (pos + 16)) (take (pos + 4) raw) @ replicate 32 0) }
     = Some (take 32 (drop (pos + 4) raw))"

text \<open>A sender's side of the SHA-1 variant: append the attribute to a finished message.\<close>

definition sign_md5 :: "openssl \<Rightarrow> string \<Rightarrow> string \<Rightarrow> string \<Rightarrow> bytes \<Rightarrow> bytes option" where
  "sign_md5 ssl realm username password resp = do {
     let resp = set_length_field (word_of_nat (length resp - 20 + 4 + 20)) resp;
     h \<leftarrow> hmac_sha1 ssl (long_term_key_md5 ssl username realm password) (string_of_bytes resp);
     Some (resp @ [0x00, 0x08, 0x00, 0x14] @ h) }"

definition integrity_attr :: "bytes \<Rightarrow> Attribute" where
  "integrity_attr h = \<lparr>atype = Attr_MessageIntegrity, avalue = h\<rparr>"

lemma set_length_field_append:
  "4 \<le> length xs \<Longrightarrow> set_length_field w (xs @ ys) = set_length_field w xs @ ys"
  by (simp add: set_length_field_def list_update_append)

lemma length_set_length_field [simp]: "length (set_length_field w xs) = length xs"
  by (simp add: set_length_field_def)

lemma set_length_field_twice [simp]: "set_length_field w (set_length_field w' xs) = set_length_field w xs"
  by (simp add: set_length_field_def list_update_swap [of 2 3])

lemma take_set_length_field [simp]:
  "4 \<le> n \<Longrightarrow> take n (set_length_field w xs) = set_length_field w (take n xs)"
  by (simp add: set_length_field_def take_update_swap)

lemma set_length_field_build:
  "set_length_field w (build b) =
     [byte16 8 (mb_type b), byte16 0 (mb_type b), byte16 8 w, byte16 0 w, 0x21, 0x12, 0xA4, 0x42]
       @ mb_tid b @ attrs_buf b"
  by (simp add: set_length_field_def build_layout eval_nat_numeral)

lemma attr_bytes_integrity: "length h = 20 \<Longrightarrow> attr_bytes (integrity_attr h) = [0x00, 0x08, 0x00, 0x14] @ h"
  by (simp add: attr_bytes_def integrity_attr_def Let_def pad4_def byte16_def)

lemma sign_md5_build:
  assumes "length tid = 12" "attrs_fit as" "length (attrs_bytes as) + 24 < 65536"
    and h: "sign_md5 ssl realm user pw (build (add_attrs as (mk_builder m c tid))) = Some raw" "openssl_ok ssl"
  obtains h where "length h = 20" "raw = build (add_attrs (as @ [integrity_attr h]) (mk_builder m c tid))"
    "attrs_fit (as @ [integrity_attr h])"
    "ossl_HMAC ssl SHA1 (long_term_key_md5 ssl user realm pw)
       (set_length_field (word_of_nat (length (attrs_bytes as) + 24)) (build (add_attrs as (mk_builder m c tid)))) = Some h"
proof -
  let ?b = "add_attrs as (mk_builder m c tid)" and ?w = "word_of_nat (length (attrs_bytes as) + 24) :: u16"
  have b: "?b = \<lparr>mb_type = encodeType m c, mb_tid = tid, attrs_buf = attrs_bytes as\<rparr>"
    using assms(2) by (simp add: add_attrs_eq mk_builder_def)
  have len: "length (build ?b) - 20 + 4 + 20 = length (attrs_bytes as) + 24"
    using assms(1) by (simp add: b length_build)
  obtain h where hm: "ossl_HMAC ssl SHA1 (long_term_key_md5 ssl user realm pw) (set_length_field ?w (build ?b)) = Some h"
    and raw: "raw = set_length_field ?w (build ?b) @ [0x00, 0x08, 0x00, 0x14] @ h"
    using h(1) unfolding sign_md5_def len by (auto simp: hmac_sha1_def bind_eq_Some_conv Let_def)
  have l: "length h = 20"
    using hm h(2) by (metis openssl_ok_def option.inject)
  have fit: "attrs_fit (as @ [integrity_attr h])"
    using assms(3) l by (simp add: attrs_fit_def attr_bytes_integrity)
  have "add_attrs (as @ [integrity_attr h]) (mk_builder m c tid) =
      \<lparr>mb_type = encodeType m c, mb_tid = tid, attrs_buf = attrs_bytes as @ attr_bytes (integrity_attr h)\<rparr>"
    by (simp add: add_attrs_eq [OF fit] mk_builder_def)
  then have "build (add_attrs (as @ [integrity_attr h]) (mk_builder m c tid)) = raw"
    unfolding raw b set_length_field_build using l by (simp add: build_layout attr_bytes_integrity)
  with hm l fit that show ?thesis by blast
qed

lemma HMAC_Some:
  assumes "openssl_ok ssl"
  shows "\<exists>h. ossl_HMAC ssl SHA1 k d = Some h" "\<exists>h. ossl_HMAC ssl SHA256 k d = Some h"
  using assms unfolding openssl_ok_def by blast+

lemma verifyMd5_found:
  assumes "openssl_ok ssl" "20 \<le> pos" "pos + 24 \<le> raw_len" "raw_len \<le> length raw"
    "rd16 raw 2 = Some w" "find_integrity Attr_MessageIntegrity raw raw_len (20 + unat w) 20 = Some (Some pos)"
  shows "verifyMessageIntegrityMd5 ssl realm raw raw_len user pw = Some (integrity_sha1 ssl realm user pw raw pos)"
proof -
  have "pos - 20 + 4 + 20 = pos + 4" using assms(2) by simp
  moreover have "rd_range raw 0 pos = Some (take pos raw)"
    "rd_range raw (pos + 4) 20 = Some (take 20 (drop (pos + 4) raw))"
    using assms(3,4) by (simp_all add: rd_range_def)
  moreover obtain h where "ossl_HMAC ssl SHA1 (long_term_key_md5 ssl user realm pw)
      (set_length_field (word_of_nat (pos + 4)) (take pos raw)) = Some h"
    using HMAC_Some(1) [OF assms(1)] by blast
  ultimately show ?thesis
    using assms
    by (simp add: verifyMessageIntegrityMd5_def Let_def hmac_sha1_def integrity_sha1_def ac_simps del: of_nat_add)
qed

lemma verifySha256_found:
  assumes "openssl_ok ssl" "20 \<le> pos" "pos + 36 \<le> raw_len" "raw_len \<le> length raw"
    "rd16 raw 2 = Some w" "find_integrity Attr_MessageIntegritySha256 raw raw_len (20 + unat w) 20 = Some (Some pos)"
  shows "verifyMessageIntegrity ssl realm raw raw_len user pw = Some (integrity_sha256 ssl realm user pw raw pos)"
proof -
  have "pos - 20 + 4 + 32 = pos + 16" using assms(2) by simp
  moreover have "rd_range raw 0 (pos + 4 + 32) = Some (take (pos + 4 + 32) raw)"
    "rd_range raw (pos + 4) 32 = Some (take 32 (drop (pos + 4) raw))"
    using assms(3,4) by (simp_all add: rd_range_def)
  moreover obtain k where "long_term_key ssl user realm pw = Some k"
    using long_term_key_ok [OF assms(1)] by blast
  moreover obtain h where "ossl_HMAC ssl SHA256 k
      (set_length_field (word_of_nat (pos + 16)) (take (pos + 4) raw) @ replicate 32 0) = Some h"
    using HMAC_Some(2) [OF assms(1)] by blast
  ultimately show ?thesis
    using assms
    by (simp add: verifyMessageIntegrity_def Let_def hmac_sha256_def integrity_sha256_def ac_simps del: of_nat_add)
qed

text \<open>Both verifications answer on every input, and \<open>True\<close> only on a matching HMAC.\<close>

lemma verifyMd5_safe:
  assumes "openssl_ok ssl" "raw_len \<le> length raw"
  shows "\<exists>r. verifyMessageIntegrityMd5 ssl realm raw raw_len user pw = Some r
     \<and> (r \<longrightarrow> (\<exists>pos. 20 \<le> pos \<and> pos + 24 \<le> raw_len \<and> integrity_sha1 ssl realm user pw raw pos))"
proof (cases "raw_len < 20")
  case True
  then show ?thesis by (intro exI [of _ False]) (simp add: verifyMessageIntegrityMd5_def)
next
  case False
  then have w: "rd16 raw 2 = Some (be16 (raw ! 2) (raw ! 3))" (is "_ = Some ?w")
    using assms(2) by (simp add: rd16_def rd_def)
  obtain r where r: "find_integrity Attr_MessageIntegrity raw raw_len (20 + unat ?w) 20 = Some r"
    "\<forall>pos. r = Some pos \<longrightarrow> 20 \<le> pos"
    using find_integrity_safe [OF assms(2)] by meson
  show ?thesis
  proof (cases "\<exists>pos. r = Some pos \<and> pos + 24 \<le> raw_len")
    case True
    with r w verifyMd5_found [OF assms(1) _ _ assms(2)] show ?thesis by auto
  next
    case no: False
    with False r w show ?thesis
      by (auto simp: verifyMessageIntegrityMd5_def split: option.splits)
  qed
qed

lemma verifySha256_safe:
  assumes "openssl_ok ssl" "raw_len \<le> length raw"
  shows "\<exists>r. verifyMessageIntegrity ssl realm raw raw_len user pw = Some r
     \<and> (r \<longrightarrow> (\<exists>pos. 20 \<le> pos \<and> pos + 36 \<le> raw_len \<and> integrity_sha256 ssl realm user pw raw pos))"
proof (cases "raw_len < 20")
  case True
  then show ?thesis by (intro exI [of _ False]) (simp add: verifyMessageIntegrity_def)
next
  case False
  then have w: "rd16 raw 2 = Some (be16 (raw ! 2) (raw ! 3))" (is "_ = Some ?w")
    using assms(2) by (simp add: rd16_def rd_def)
  obtain r where r: "find_integrity Attr_MessageIntegritySha256 raw raw_len (20 + unat ?w) 20 = Some r"
    "\<forall>pos. r = Some pos \<longrightarrow> 20 \<le> pos"
    using find_integrity_safe [OF assms(2)] by meson
  show ?thesis
  proof (cases "\<exists>pos. r = Some pos \<and> pos + 36 \<le> raw_len")
    case True
    with r w verifySha256_found [OF assms(1) _ _ assms(2)] show ?thesis by auto
  next
    case no: False
    with False r w show ?thesis
      by (auto simp: verifyMessageIntegrity_def split: option.splits)
  qed
qed

lemma verify_signed:
  assumes "length tid = 12" "attrs_fit as" "length (attrs_bytes as) + 24 < 65536"
    "\<forall>a \<in> set as. atype a \<noteq> Attr_MessageIntegrity" "openssl_ok ssl"
    "sign_md5 ssl realm user pw (build (add_attrs as (mk_builder m c tid))) = Some raw"
  shows "verifyMessageIntegrityMd5 ssl realm raw (length raw) user pw = Some True"
proof -
  from assms(1-3,6,5) obtain h where h: "length h = 20"
      "raw = build (add_attrs (as @ [integrity_attr h]) (mk_builder m c tid))"
      "attrs_fit (as @ [integrity_attr h])"
      "ossl_HMAC ssl SHA1 (long_term_key_md5 ssl user realm pw)
         (set_length_field (word_of_nat (length (attrs_bytes as) + 24)) (build (add_attrs as (mk_builder m c tid)))) = Some h"
    by (rule sign_md5_build)
  let ?n = "length (attrs_bytes as)"
  let ?w = "word_of_nat (?n + 24) :: u16"
  let ?hdr = "[byte16 8 (encodeType m c), byte16 0 (encodeType m c), byte16 8 ?w, byte16 0 ?w, 0x21, 0x12, 0xA4, 0x42]"
  have raw: "raw = (?hdr @ tid) @ attrs_bytes as @ attr_bytes \<lparr>atype = Attr_MessageIntegrity, avalue = h\<rparr> @ []"
    using h(1) unfolding h(2) add_attrs_eq [OF h(3)]
    by (simp add: mk_builder_def build_layout attr_bytes_integrity integrity_attr_def [symmetric])
  have pre: "length (?hdr @ tid) = 20" using assms(1) by simp
  have n: "unat ?w = ?n + 24" using assms(3) by (intro unat_word_of_nat_u16) simp
  have len: "length raw = 20 + ?n + 24"
    using pre h(1) by (simp add: raw attr_bytes_integrity [unfolded integrity_attr_def])
  have found: "find_integrity Attr_MessageIntegrity raw (length raw) (20 + unat ?w) 20 = Some (Some (20 + ?n))"
    using find_integrity_attrs [OF assms(2,4), of h "?hdr @ tid" "20 + unat ?w" "length raw" "[]"] h(1) pre
    unfolding raw [symmetric] n len by simp
  have field: "rd16 raw 2 = Some ?w"
    by (simp add: raw rd16_def rd_def)
  have pfx: "rd_range raw 0 (20 + ?n) = Some (?hdr @ tid @ attrs_bytes as)"
    and val: "rd_range raw (20 + ?n + 4) 20 = Some h"
    using rd_range_append [of "?hdr @ tid @ attrs_bytes as" "[0x00, 0x08, 0x00, 0x14] @ h" 0 0]
      rd_range_prefix [of "?hdr @ tid @ attrs_bytes as" "[0x00, 0x08, 0x00, 0x14] @ h"]
      rd_range_append [of "?hdr @ tid @ attrs_bytes as" "[0x00, 0x08, 0x00, 0x14] @ h" 4 20] h(1) assms(1)
    by (simp_all add: raw attr_bytes_integrity [unfolded integrity_attr_def])
      (simp_all add: rd_range_def add.commute)
  have "set_length_field ?w (?hdr @ tid @ attrs_bytes as) =
      set_length_field ?w (build (add_attrs as (mk_builder m c tid)))"
    by (simp add: add_attrs_eq [OF assms(2)] mk_builder_def set_length_field_build)
      (simp add: set_length_field_def eval_nat_numeral)
  then have "integrity_sha1 ssl realm user pw raw (20 + ?n)"
    using h(4) pfx val by (simp add: integrity_sha1_def rd_range_def split: if_splits)
      (simp add: add.commute)
  then show ?thesis
    using verifyMd5_found [OF assms(5) _ _ order_refl field found] len by simp
qed

section \<open>Authentication\<close>

definition attr_string :: "TurnMessage \<Rightarrow> AttrType \<Rightarrow> string option" where
  "attr_string msg ty = map_option (\<lambda>a. string_of_bytes (avalue a)) (findAttr msg ty)"

text \<open>What a request has to satisfy before its HMAC is looked at.\<close>

definition credentials_current ::
    "NonceManager \<Rightarrow> time_point \<Rightarrow> int \<Rightarrow> TurnMessage \<Rightarrow> string \<Rightarrow> bool" where
  "credentials_current nm now wall msg username \<longleftrightarrow>
     attr_string msg Attr_Username = Some username
   \<and> attr_string msg Attr_Realm \<noteq> None
   \<and> (\<exists>nonce. attr_string msg Attr_Nonce = Some nonce \<and> nonce_isValid nm nonce now)
   \<and> (\<exists>expiry. parseExpiry username = Some expiry \<and> wall \<le> expiry)"

lemma getPassword_ok:
  "openssl_ok ssl \<Longrightarrow> parseExpiry username = Some expiry \<Longrightarrow>
     \<exists>p. getPassword ssl hv username = Some p \<and> computeHmac ssl hv username = Some p \<and> p \<noteq> []"
  using computeHmac_ok [of ssl hv username]
  by (auto simp: getPassword_def parseExpiry_def before_colon_def split: if_splits)

text \<open>A request with current credentials is decided by its HMAC and its user name.\<close>

lemma authenticate_current:
  assumes "msg_class msg \<noteq> Indication" "credentials_current nm now wall msg username"
    "findAttr msg Attr_MessageIntegritySha256 \<noteq> None \<or> findAttr msg Attr_MessageIntegrity \<noteq> None"
    "computeHmac ssl hv username = Some password" "password \<noteq> []"
    "(if findAttr msg Attr_MessageIntegritySha256 \<noteq> None
      then verifyMessageIntegrity ssl realm raw raw_len username password
      else verifyMessageIntegrityMd5 ssl realm raw raw_len username password) = Some good"
  shows "authenticate ssl realm nm hv now wall msg raw raw_len allocated =
     Some (if \<not> good then BadIntegrity
           else if method msg \<noteq> Allocate \<and> allocated \<noteq> [] \<and> username \<noteq> allocated
           then WrongCredentials else AuthOk)"
proof -
  obtain ua ra na where at: "findAttr msg Attr_Username = Some ua" "username = string_of_bytes (avalue ua)"
    "findAttr msg Attr_Realm = Some ra" "findAttr msg Attr_Nonce = Some na"
    "nonce_isValid nm (string_of_bytes (avalue na)) now"
    using assms(2) by (auto simp: credentials_current_def attr_string_def)
  obtain p expiry where p: "before_colon username = Some p" "stoll p = Some expiry" "wall \<le> expiry"
    using assms(2) by (auto simp: credentials_current_def parseExpiry_def bind_eq_Some_conv)
  have pw: "getPassword ssl hv username = Some password"
    using p(1) assms(4) by (auto simp: getPassword_def before_colon_def split: if_splits)
  show ?thesis
    using assms(1,3,5,6) p pw at(1,3-5)
    by (auto simp: authenticate_def Let_def at(2) [symmetric])
qed

lemma authenticate_not_current:
  assumes "openssl_ok ssl" "msg_class msg \<noteq> Indication"
    "\<not> (\<exists>username. credentials_current nm now wall msg username)
     \<or> findAttr msg Attr_MessageIntegritySha256 = None \<and> findAttr msg Attr_MessageIntegrity = None"
  shows "\<exists>r. authenticate ssl realm nm hv now wall msg raw raw_len allocated = Some r \<and> r \<noteq> AuthOk"
  using assms
  by (auto simp: authenticate_def Let_def credentials_current_def attr_string_def parseExpiry_def
      split: option.splits)

lemma integrity_check_safe:
  assumes "openssl_ok ssl" "raw_len \<le> length raw"
  shows "\<exists>good. (if sha then verifyMessageIntegrity ssl realm raw raw_len username password
        else verifyMessageIntegrityMd5 ssl realm raw raw_len username password) = Some good
     \<and> (good \<longrightarrow> (\<exists>pos. 20 \<le> pos \<and> pos + 24 \<le> raw_len
          \<and> (if sha then integrity_sha256 ssl realm username password raw pos
             else integrity_sha1 ssl realm username password raw pos)))"
proof (cases sha)
  case True
  obtain good where "verifyMessageIntegrity ssl realm raw raw_len username password = Some good"
    "good \<longrightarrow> (\<exists>pos. 20 \<le> pos \<and> pos + 36 \<le> raw_len
       \<and> integrity_sha256 ssl realm username password raw pos)"
    using verifySha256_safe [OF assms] by meson
  with True show ?thesis by force
next
  case False
  then show ?thesis
    using verifyMd5_safe [OF assms, of realm username password] by simp
qed

lemma authenticate_total:
  assumes "openssl_ok ssl" "raw_len \<le> length raw"
  shows "\<exists>r. authenticate ssl realm nm hv now wall msg raw raw_len allocated = Some r"
proof (cases "msg_class msg = Indication")
  case True
  then show ?thesis by (simp add: authenticate_def)
next
  case req: False
  show ?thesis
  proof (cases "(\<exists>username. credentials_current nm now wall msg username)
      \<and> (findAttr msg Attr_MessageIntegritySha256 \<noteq> None \<or> findAttr msg Attr_MessageIntegrity \<noteq> None)")
    case False
    then have "\<not> (\<exists>username. credentials_current nm now wall msg username)
        \<or> findAttr msg Attr_MessageIntegritySha256 = None \<and> findAttr msg Attr_MessageIntegrity = None"
      by blast
    from authenticate_not_current [OF assms(1) req this] show ?thesis by blast
  next
    case True
    then obtain username where cur: "credentials_current nm now wall msg username" by blast
    obtain password where pw: "computeHmac ssl hv username = Some password" "password \<noteq> []"
      using computeHmac_ok [OF assms(1)] by blast
    obtain good where "(if findAttr msg Attr_MessageIntegritySha256 \<noteq> None
        then verifyMessageIntegrity ssl realm raw raw_len username password
        else verifyMessageIntegrityMd5 ssl realm raw raw_len username password) = Some good"
      using integrity_check_safe [OF assms] by blast
    with authenticate_current [OF req cur _ pw] True show ?thesis by blast
  qed
qed

lemma authenticate_sound_ok:
  assumes "openssl_ok ssl" "raw_len \<le> length raw" "msg_class msg \<noteq> Indication"
    and ok: "authenticate ssl realm nm hv now wall msg raw raw_len allocated = Some AuthOk"
  shows "\<exists>username password pos. credentials_current nm now wall msg username
     \<and> computeHmac ssl hv username = Some password
     \<and> 20 \<le> pos \<and> pos + 24 \<le> raw_len
     \<and> (if findAttr msg Attr_MessageIntegritySha256 \<noteq> None
        then integrity_sha256 ssl realm username password raw pos
        else integrity_sha1 ssl realm username password raw pos)
     \<and> (method msg = Allocate \<or> allocated = [] \<or> username = allocated)"
proof -
  have cur: "\<exists>username. credentials_current nm now wall msg username"
    and mi: "findAttr msg Attr_MessageIntegritySha256 \<noteq> None \<or> findAttr msg Attr_MessageIntegrity \<noteq> None"
    using authenticate_not_current [OF assms(1,3)] ok by (metis option.inject)+
  then obtain username where cur: "credentials_current nm now wall msg username" by blast
  obtain password where pw: "computeHmac ssl hv username = Some password" "password \<noteq> []"
    using computeHmac_ok [OF assms(1)] by blast
  let ?sha = "findAttr msg Attr_MessageIntegritySha256 \<noteq> None"
  obtain good where good: "(if ?sha then verifyMessageIntegrity ssl realm raw raw_len username password
        else verifyMessageIntegrityMd5 ssl realm raw raw_len username password) = Some good"
    and pos: "good \<longrightarrow> (\<exists>pos. 20 \<le> pos \<and> pos + 24 \<le> raw_len
        \<and> (if ?sha then integrity_sha256 ssl realm username password raw pos
           else integrity_sha1 ssl realm username password raw pos))"
    using integrity_check_safe [OF assms(1,2)] by blast
  have "good" "method msg = Allocate \<or> allocated = [] \<or> username = allocated"
    using authenticate_current [OF assms(3) cur mi pw good] ok by (auto split: if_splits)
  with cur pw pos show ?thesis by blast
qed

text \<open>
  What a client sends: the body of the request, then user name, realm and nonce, then
  the integrity attribute over all of it.
\<close>

definition credential_attrs :: "string \<Rightarrow> string \<Rightarrow> string \<Rightarrow> Attribute list" where
  "credential_attrs username realm nonce =
     [\<lparr>atype = Attr_Username, avalue = bytes_of_string username\<rparr>,
      \<lparr>atype = Attr_Realm, avalue = bytes_of_string realm\<rparr>,
      \<lparr>atype = Attr_Nonce, avalue = bytes_of_string nonce\<rparr>]"

definition plain_body :: "Attribute list \<Rightarrow> bool" where
  "plain_body body \<longleftrightarrow>
     list_all (\<lambda>a. atype a \<notin> {Attr_Username, Attr_Realm, Attr_Nonce, Attr_MessageIntegrity,
                              Attr_MessageIntegritySha256}) body"

lemma findAttr_signed:
  assumes "plain_body body" "attributes msg = body @ credential_attrs username realm nonce @ [integrity_attr h]"
  shows "findAttr msg Attr_Username = Some \<lparr>atype = Attr_Username, avalue = bytes_of_string username\<rparr>"
    "findAttr msg Attr_Realm = Some \<lparr>atype = Attr_Realm, avalue = bytes_of_string realm\<rparr>"
    "findAttr msg Attr_Nonce = Some \<lparr>atype = Attr_Nonce, avalue = bytes_of_string nonce\<rparr>"
    "findAttr msg Attr_MessageIntegritySha256 = None"
    "findAttr msg Attr_MessageIntegrity = Some (integrity_attr h)"
  using assms
  by (simp_all add: findAttr_def find_append_skip plain_body_def list_all_iff credential_attrs_def integrity_attr_def)

lemma signed_request_ok:
  assumes ssl: "openssl_ok ssl" and tid: "length tid = 12" and body: "plain_body body"
    and fit: "length (attrs_bytes (body @ credential_attrs username realm nonce)) + 24 < 65536"
    and cur: "nonce_isValid nm nonce now" "parseExpiry username = Some expiry" "wall \<le> expiry"
    and pw: "computeHmac ssl hv username = Some password"
    and raw: "sign_md5 ssl realm username password
        (build (add_attrs (body @ credential_attrs username realm nonce) (mk_builder m Request tid))) = Some raw"
    and user: "m = Allocate \<or> allocated = [] \<or> username = allocated"
  shows "\<exists>msg. parse raw (length raw) out = Some (Ok, msg) \<and> method msg = m \<and> msg_class msg = Request
     \<and> transaction_id msg = tid
     \<and> authenticate ssl realm nm hv now wall msg raw (length raw) allocated = Some AuthOk
     \<and> (\<exists>h. attributes msg = body @ credential_attrs username realm nonce @ [integrity_attr h])"
proof -
  let ?as = "body @ credential_attrs username realm nonce"
  have f: "attrs_fit ?as" using fit by (simp add: attrs_fit_def)
  from tid f fit raw ssl obtain h where h: "length h = 20"
      "raw = build (add_attrs (?as @ [integrity_attr h]) (mk_builder m Request tid))"
      "attrs_fit (?as @ [integrity_attr h])"
    by (rule sign_md5_build)
  let ?msg = "\<lparr>msg_class = Request, method = m,
      msg_length = word_of_nat (length (attrs_bytes (?as @ [integrity_attr h]))),
      transaction_id = tid, attributes = ?as @ [integrity_attr h]\<rparr>"
  have p: "parse raw (length raw) out = Some (Ok, ?msg)"
    using parse_build_append [OF tid h(3), of m Request "[]" out] by (simp add: h(2))
  have at: "attributes ?msg = body @ credential_attrs username realm nonce @ [integrity_attr h]" by simp
  note fa = findAttr_signed [OF body at]
  have v: "verifyMessageIntegrityMd5 ssl realm raw (length raw) username password = Some True"
    using body by (intro verify_signed [OF tid f fit _ ssl raw])
      (auto simp: plain_body_def list_all_iff credential_attrs_def)
  have cc: "credentials_current nm now wall ?msg username"
    unfolding credentials_current_def attr_string_def using fa(1-3) cur by simp
  have "password \<noteq> []"
    using computeHmac_ok [OF ssl] pw by (metis option.inject)
  then have "authenticate ssl realm nm hv now wall ?msg raw (length raw) allocated = Some AuthOk"
    using authenticate_current [of ?msg nm now wall username ssl hv password realm raw "length raw" True allocated]
      cc pw v fa(4,5) user by auto
  with p show ?thesis by auto
qed

text \<open>The same request at any time: accepted up to the expiry in the user name, and then expired.\<close>

lemma signed_request_any_time:
  assumes ssl: "openssl_ok ssl" and tid: "length tid = 12" and body: "plain_body body"
    and fit: "length (attrs_bytes (body @ credential_attrs username realm nonce)) + 24 < 65536"
    and cur: "nonce_isValid nm nonce now" "parseExpiry username = Some expiry"
    and pw: "computeHmac ssl hv username = Some password"
    and raw: "sign_md5 ssl realm username password
        (build (add_attrs (body @ credential_attrs username realm nonce) (mk_builder m Request tid))) = Some raw"
    and user: "m = Allocate \<or> allocated = [] \<or> username = allocated"
  shows "\<exists>msg. parse raw (length raw) out = Some (Ok, msg) \<and> method msg = m \<and> msg_class msg = Request
     \<and> (\<forall>wall. authenticate ssl realm nm hv now wall msg raw (length raw) allocated =
          Some (if wall \<le> expiry then AuthOk else CredentialsExpired))"
proof -
  note ok = signed_request_ok [where out = out, OF ssl tid body fit cur _ pw raw user]
  from ok [OF order_refl] obtain msg h where m: "parse raw (length raw) out = Some (Ok, msg)" "method msg = m" "msg_class msg = Request"
    "attributes msg = body @ credential_attrs username realm nonce @ [integrity_attr h]" by blast
  note fa = findAttr_signed [OF body m(4)]
  obtain p where p: "before_colon username = Some p" "stoll p = Some expiry"
    using cur(2) by (auto simp: parseExpiry_def bind_eq_Some_conv)
  have "authenticate ssl realm nm hv now wall msg raw (length raw) allocated = Some AuthOk" if "wall \<le> expiry" for wall
    using ok [OF that] m(1) by auto
  moreover have "authenticate ssl realm nm hv now wall msg raw (length raw) allocated = Some CredentialsExpired" if "\<not> wall \<le> expiry" for wall
    using that m(3) fa cur(1) p by (simp add: authenticate_def Let_def)
  ultimately show ?thesis using m(1-3) by auto
qed

text \<open>A concrete signed request.\<close>

definition demo_nm :: NonceManager where
  "demo_nm = \<lparr>nm_ttl = seconds 3600, nm_store = [(''n1'', 1000)]\<rparr>"

definition demo_hv :: HmacValidator where
  "demo_hv = \<lparr>shared_secret = ''s''\<rparr>"

definition demo_body :: "Attribute list" where
  "demo_body = [\<lparr>atype = Attr_RequestedTransport, avalue = [17, 0, 0, 0]\<rparr>]"

definition demo_raw :: bytes where
  "demo_raw = the (sign_md5 demo_openssl ''r'' ''99:u'' (the (computeHmac demo_openssl demo_hv ''99:u''))
     (build (add_attrs (demo_body @ credential_attrs ''99:u'' ''r'' ''n1'') (mk_builder Allocate Request (replicate 12 1)))))"

lemma sign_md5_total: "openssl_ok ssl \<Longrightarrow> \<exists>raw. sign_md5 ssl realm u p msg = Some raw"
  using hmac_sha1_ok [of ssl] by (simp add: sign_md5_def Let_def) (metis bind.bind_lunit)

lemma demo_parseExpiry [simp]: "parseExpiry ''99:u'' = Some 99"
  by code_simp

lemma demo_fits: "length (attrs_bytes (demo_body @ credential_attrs ''99:u'' ''r'' ''n1'')) + 24 < 65536"
  by (simp add: demo_body_def credential_attrs_def attr_bytes_def Let_def pad4_def)

lemma demo_signed:
  "sign_md5 demo_openssl ''r'' ''99:u'' (the (computeHmac demo_openssl demo_hv ''99:u''))
     (build (add_attrs (demo_body @ credential_attrs ''99:u'' ''r'' ''n1'') (mk_builder Allocate Request (replicate 12 1))))
       = Some demo_raw"
  unfolding demo_raw_def using sign_md5_total [OF demo_openssl_ok] by (metis option.sel)

lemma demo_generate:
  "hv_generate demo_openssl demo_hv 90 ''u'' 9 =
      Some \<lparr>cred_username = ''99:u'', cred_password = the (computeHmac demo_openssl demo_hv ''99:u'')\<rparr>"
  by code_simp

lemma demo_signed_request:
  "\<exists>msg. parse demo_raw (length demo_raw) out = Some (Ok, msg) \<and> method msg = Allocate \<and> msg_class msg = Request
     \<and> transaction_id msg = replicate 12 1
     \<and> authenticate demo_openssl ''r'' demo_nm demo_hv 5 50 msg demo_raw (length demo_raw) [] = Some AuthOk
     \<and> (\<exists>h. attributes msg = demo_body @ credential_attrs ''99:u'' ''r'' ''n1'' @ [integrity_attr h])"
proof (rule signed_request_ok [where expiry = 99])
  show "computeHmac demo_openssl demo_hv ''99:u'' = Some (the (computeHmac demo_openssl demo_hv ''99:u''))"
    using computeHmac_ok [OF demo_openssl_ok] by (metis option.sel)
  show "length (attrs_bytes (demo_body @ credential_attrs ''99:u'' ''r'' ''n1'')) + 24 < 65536"
    by (rule demo_fits)
  show "sign_md5 demo_openssl ''r'' ''99:u'' (the (computeHmac demo_openssl demo_hv ''99:u''))
     (build (add_attrs (demo_body @ credential_attrs ''99:u'' ''r'' ''n1'') (mk_builder Allocate Request (replicate 12 1))))
       = Some demo_raw"
    by (rule demo_signed)
qed (simp_all add: plain_body_def demo_body_def nonce_isValid_def demo_nm_def)

section \<open>Properties\<close>

text \<open>
  C5. Soundness of authentication: a request (anything but an indication) is accepted
  only if it names a user whose time-limited name has not expired, carries a nonce this
  server issued and that is still valid, and contains an integrity attribute whose value
  is the HMAC of the message before it under the key derived from that user's password;
  and, beyond Allocate, only for the user that owns the allocation.
\<close>

theorem authenticate_sound:
  assumes "openssl_ok ssl" "raw_len \<le> length raw" "msg_class msg \<noteq> Indication"
    and ok: "authenticate ssl realm nm hv now wall msg raw raw_len allocated = Some AuthOk"
  shows "\<exists>username password pos. credentials_current nm now wall msg username
     \<and> computeHmac ssl hv username = Some password
     \<and> 20 \<le> pos \<and> pos + 24 \<le> raw_len
     \<and> (if findAttr msg Attr_MessageIntegritySha256 \<noteq> None
        then integrity_sha256 ssl realm username password raw pos
        else integrity_sha1 ssl realm username password raw pos)
     \<and> (method msg = Allocate \<or> allocated = [] \<or> username = allocated)"
  using authenticate_sound_ok [OF assms] .

theorem authenticate_sound_witness:
  "\<exists>msg. authenticate demo_openssl ''r'' demo_nm demo_hv 5 50 msg demo_raw (length demo_raw) [] = Some AuthOk
     \<and> (\<exists>username. credentials_current demo_nm 5 50 msg username)"
proof -
  obtain msg where m: "msg_class msg = Request"
    "authenticate demo_openssl ''r'' demo_nm demo_hv 5 50 msg demo_raw (length demo_raw) [] = Some AuthOk"
    using demo_signed_request by blast
  then have "msg_class msg \<noteq> Indication" by simp
  with authenticate_sound [OF demo_openssl_ok order_refl this m(2)] m(2) show ?thesis by blast
qed

text \<open>
  C6. Completeness of authentication: a client that holds credentials issued for it (by
  \<open>generate\<close>, with the shared secret), signs its request with them and with a valid
  nonce, is parsed and accepted at any time up to the expiry in its user name.
\<close>

theorem issued_credentials_authenticate:
  assumes "openssl_ok ssl" "length tid = 12" "plain_body body"
    and issued: "hv_generate ssl hv wall0 user_id ttl = Some cred" "0 \<le> wall0 + ttl" "wall0 + ttl < 2 ^ 63"
    and "wall \<le> wall0 + ttl" "nonce_isValid nm nonce now"
    and "length (attrs_bytes (body @ credential_attrs (cred_username cred) realm nonce)) + 24 < 65536"
    and "sign_md5 ssl realm (cred_username cred) (cred_password cred)
        (build (add_attrs (body @ credential_attrs (cred_username cred) realm nonce) (mk_builder m Request tid))) = Some raw"
    and "m = Allocate \<or> allocated = [] \<or> cred_username cred = allocated"
  shows "\<exists>msg. parse raw (length raw) out = Some (Ok, msg) \<and> method msg = m \<and> msg_class msg = Request
     \<and> transaction_id msg = tid
     \<and> authenticate ssl realm nm hv now wall msg raw (length raw) allocated = Some AuthOk"
proof -
  have "cred_username cred = to_string (wall0 + ttl) @ '':'' @ user_id"
    "computeHmac ssl hv (cred_username cred) = Some (cred_password cred)"
    using issued(1) by (auto simp: hv_generate_def Let_def bind_eq_Some_conv)
  then have "computeHmac ssl hv (cred_username cred) = Some (cred_password cred)"
    and "parseExpiry (cred_username cred) = Some (wall0 + ttl)"
    using parseExpiry_username [OF issued(2,3), of user_id] by simp_all
  from signed_request_ok [OF assms(1-3,9,8) this(2) assms(7) this(1) assms(10,11)] show ?thesis by blast
qed

theorem issued_credentials_authenticate_witness:
  "\<exists>msg. authenticate demo_openssl ''r'' demo_nm demo_hv 5 50 msg demo_raw (length demo_raw) [] = Some AuthOk"
  using issued_credentials_authenticate [OF demo_openssl_ok _ _ demo_generate, of "replicate 12 1" demo_body 50
      demo_nm "''n1''" 5 "''r''" Allocate demo_raw "[]"] demo_fits demo_signed
  by (force simp: plain_body_def demo_body_def nonce_isValid_def demo_nm_def)

text \<open>
  Time-limited credentials: for issued credentials, \<open>validate\<close> accepts exactly the
  issued password and exactly until the expiry.
\<close>

lemma hv_generate_validates:
  assumes "openssl_ok ssl" "hv_generate ssl hv wall0 user_id ttl = Some cred" "0 \<le> wall0 + ttl" "wall0 + ttl < 2 ^ 63"
  shows "hv_validate ssl hv wall (cred_username cred) pw = Some (wall \<le> wall0 + ttl \<and> pw = cred_password cred)"
proof -
  have "cred_username cred = to_string (wall0 + ttl) @ '':'' @ user_id"
    "computeHmac ssl hv (cred_username cred) = Some (cred_password cred)"
    using assms(2) by (auto simp: hv_generate_def Let_def bind_eq_Some_conv)
  with parseExpiry_username [OF assms(3,4), of user_id] assms(1) show ?thesis
    by (auto simp: hv_validate_def)
qed

text \<open>
  Life of a nonce: when some random draw in reach is unused, \<open>generate\<close> returns a
  nonce that was not in the store; the nonce is valid exactly until its time to live has
  passed, every other nonce keeps its validity, and dropping expired nonces later changes
  no answer.
\<close>

lemma nonce_lifecycle:
  assumes "um_ok (nm_store nm)" "\<And>j. j \<le> k \<Longrightarrow> rnd j \<noteq> None"
    "generateRandom rnd k = Some n" "um_find (nm_store nm) n = None"
  shows "\<exists>nonce nm'. nonce_generate rnd now nm = Some (nonce, nm')
     \<and> um_find (nm_store nm) nonce = None
     \<and> (\<forall>t. nonce_isValid nm' nonce t \<longleftrightarrow> t < now + nm_ttl nm)
     \<and> (\<forall>other t. other \<noteq> nonce \<longrightarrow> nonce_isValid nm' other t = nonce_isValid nm other t)
     \<and> (\<forall>clean t other. clean \<le> t \<longrightarrow>
          nonce_isValid (nonce_cleanup clean nm') other t = nonce_isValid nm' other t)"
proof -
  obtain nonce where l: "nonce_loop rnd (nm_store nm) 0 = Some nonce"
    using nonce_loop_returns [of 0 k rnd n "nm_store nm"] assms(2-4) by auto
  let ?nm = "nm\<lparr>nm_store := um_set nonce (now + nm_ttl nm) (nm_store nm)\<rparr>"
  have g: "nonce_generate rnd now nm = Some (nonce, ?nm)"
    by (simp add: nonce_generate_def l)
  have "um_ok (nm_store ?nm)" using assms(1) by simp
  then have "nonce_isValid (nonce_cleanup clean ?nm) other t = nonce_isValid ?nm other t"
    if "clean \<le> t" for clean other t
    using that by (auto simp: nonce_isValid_def nonce_cleanup_def um_find_cleanup_loop split: option.splits
        simp del: um_find_set)
  then show ?thesis
    using g nonce_generate_Some(1) [OF g] nonces.valid_grant nonces.valid_grant_other by blast
qed

end
