(* ===== verification/Allocation.thy ===== *)
theory Allocation
  imports Stun_Message Crypto
begin

text \<open>
  Endpoints (\<open>transport/transport.hpp\<close>), the allocation object of
  \<open>allocation/allocation.hpp\<close> with its permissions and channel bindings, and the denied
  address ranges of \<open>allocation/permission_table.cpp\<close>.
  \<open>Clock::now()\<close> is a parameter \<open>now\<close>; one reading serves a whole call, which runs
  under the manager's mutex.
\<close>

section \<open>Endpoints\<close>

record Endpoint =
  ep_address :: string
  ep_port :: u16

definition endpointKey :: "Endpoint \<Rightarrow> string" where
  "endpointKey ep = ep_address ep @ '':'' @ to_string (uint (ep_port ep))"

section \<open>allocation.hpp\<close>

record Permission =
  perm_address :: string
  perm_expiresAt :: time_point

record ChannelBinding =
  channelNumber :: u16
  cb_peer :: Endpoint
  cb_expiresAt :: time_point

record Allocation =
  alloc_id :: u64
  clientAddr :: Endpoint
  relayedAddr :: Endpoint
  alloc_username :: string
  alloc_realm :: string
  expiresAt :: time_point
  permissions :: "(string, Permission) umap"
  channels :: "(u16, ChannelBinding) umap"

definition kDefaultLifetime :: u32 where "kDefaultLifetime = 600"
definition kMaxLifetime :: u32 where "kMaxLifetime = 3600"
definition kPermissionTTL :: nat where "kPermissionTTL = 300"
definition kChannelTTL :: nat where "kChannelTTL = 600"

definition isExpired :: "Allocation \<Rightarrow> time_point \<Rightarrow> bool" where
  "isExpired a now \<longleftrightarrow> now \<ge> expiresAt a"

definition hasPermission :: "Allocation \<Rightarrow> string \<Rightarrow> time_point \<Rightarrow> bool" where
  "hasPermission a peerAddress now =
     (case um_find (permissions a) peerAddress of
        None \<Rightarrow> False | Some p \<Rightarrow> now < perm_expiresAt p)"

definition findChannelByPeer :: "Allocation \<Rightarrow> Endpoint \<Rightarrow> time_point \<Rightarrow> ChannelBinding option" where
  "findChannelByPeer a peer now =
     map_option snd (find (\<lambda>(num, ch). ep_address (cb_peer ch) = ep_address peer
                            \<and> ep_port (cb_peer ch) = ep_port peer \<and> now < cb_expiresAt ch)
                       (channels a))"

definition findChannelByNumber :: "Allocation \<Rightarrow> u16 \<Rightarrow> time_point \<Rightarrow> ChannelBinding option" where
  "findChannelByNumber a num now =
     (case um_find (channels a) num of
        None \<Rightarrow> None
      | Some ch \<Rightarrow> if now \<ge> cb_expiresAt ch then None else Some ch)"

text \<open>The two map assignments the handlers make: a permission and a channel binding.\<close>

definition set_permission :: "string \<Rightarrow> time_point \<Rightarrow> Allocation \<Rightarrow> Allocation" where
  "set_permission addr t a =
     a\<lparr>permissions := um_set addr \<lparr>perm_address = addr, perm_expiresAt = t\<rparr> (permissions a)\<rparr>"

definition set_channel :: "u16 \<Rightarrow> Endpoint \<Rightarrow> time_point \<Rightarrow> Allocation \<Rightarrow> Allocation" where
  "set_channel num peer t a =
     a\<lparr>channels := um_set num \<lparr>channelNumber = num, cb_peer = peer, cb_expiresAt = t\<rparr> (channels a)\<rparr>"

section \<open>permission\_table.cpp\<close>

definition kDeniedRanges :: "(u32 \<times> u32) list" where
  "kDeniedRanges = [(0x0A000000, 0x0AFFFFFF), (0xAC100000, 0xAC1FFFFF)]"

definition isDeniedAddress :: "asio_ip \<Rightarrow> string \<Rightarrow> bool" where
  "isDeniedAddress io addr =
     (case make_address_v4 io addr of
        None \<Rightarrow> False
      | Some ip \<Rightarrow> list_ex (\<lambda>(lo, hi). lo \<le> ip \<and> ip \<le> hi) kDeniedRanges)"

section \<open>Invariant of an allocation\<close>

text \<open>
  Permissions and channel bindings are filed under their own key, never name a denied
  address, channel numbers lie in the TURN range, and no peer has two channels.
\<close>

definition allocation_ok :: "asio_ip \<Rightarrow> Allocation \<Rightarrow> bool" where
  "allocation_ok io a \<longleftrightarrow>
     um_ok (permissions a) \<and> um_ok (channels a)
   \<and> (\<forall>addr p. um_find (permissions a) addr = Some p \<longrightarrow>
        perm_address p = addr \<and> \<not> isDeniedAddress io addr)
   \<and> (\<forall>num ch. um_find (channels a) num = Some ch \<longrightarrow>
        channelNumber ch = num \<and> 0x4000 \<le> num \<and> num \<le> 0x4FFF
        \<and> \<not> isDeniedAddress io (ep_address (cb_peer ch)))
   \<and> (\<forall>num num' ch ch'. um_find (channels a) num = Some ch \<longrightarrow>
        um_find (channels a) num' = Some ch' \<longrightarrow> cb_peer ch = cb_peer ch' \<longrightarrow> num = num')"

section \<open>Lemmas\<close>

text \<open>The key of an endpoint determines it: the port is what follows the last colon.\<close>

lemma append_colon_digits_inject:
  assumes "xs @ CHR '':'' # ds = ys @ CHR '':'' # es"
    "\<forall>c \<in> set ds. is_digit c" "\<forall>c \<in> set es. is_digit c"
  shows "xs = ys \<and> ds = es"
proof -
  have tw: "takeWhile is_digit (rev zs @ CHR '':'' # ws) = rev zs"
    if "\<forall>c \<in> set zs. is_digit c" for zs ws
    using that by (subst takeWhile_append2) (auto simp: is_digit_def)
  have "takeWhile is_digit (rev ds @ CHR '':'' # rev xs) = rev ds"
    "takeWhile is_digit (rev es @ CHR '':'' # rev ys) = rev es"
    using tw assms(2,3) by blast+
  moreover have "rev ds @ CHR '':'' # rev xs = rev es @ CHR '':'' # rev ys"
    using arg_cong [OF assms(1), of rev] by simp
  ultimately have "rev ds = rev es"
    by metis
  then show ?thesis using assms(1) by simp
qed

lemma endpointKey_inject [simp]: "endpointKey e = endpointKey e' \<longleftrightarrow> e = e'"
proof
  assume eq: "endpointKey e = endpointKey e'"
  have d: "\<forall>c \<in> set (to_string (uint w)). is_digit c" for w :: u16
    by (auto simp: to_string_def nat_to_string_digits)
  have ts: "to_string (uint w) = nat_to_string (unat w)" for w :: u16
    by (simp add: to_string_def nat_uint_eq)
  have "ep_address e = ep_address e'" "to_string (uint (ep_port e)) = to_string (uint (ep_port e'))"
    using append_colon_digits_inject [OF _ d d] eq by (simp_all add: endpointKey_def)
  then show "e = e'"
    by (simp add: ts nat_to_string_inj [THEN word_unat_eq_iff [THEN iffD2]] Endpoint.equality)
qed simp

lemma Endpoint_eq_iff:
  "ep_address e = ep_address f \<and> ep_port e = ep_port f \<longleftrightarrow> e = (f :: Endpoint)"
  by (auto intro: Endpoint.equality)

lemma hasPermission_set_permission:
  "hasPermission (set_permission addr t a) addr' now =
     (if addr' = addr then now < t else hasPermission a addr' now)"
  by (simp add: hasPermission_def set_permission_def)

lemma hasPermission_SomeD:
  "hasPermission a addr now \<Longrightarrow> \<exists>p. um_find (permissions a) addr = Some p \<and> now < perm_expiresAt p"
  by (auto simp: hasPermission_def split: option.splits)

interpretation perms: expiring_store
  "\<lambda>a addr. map_option perm_expiresAt (um_find (permissions a) addr)" set_permission hasPermission
  by unfold_locales (auto simp: set_permission_def hasPermission_def split: option.splits)

interpretation chans: expiring_store
  "\<lambda>a num. map_option cb_expiresAt (um_find (channels a) num)"
  "\<lambda>num t. set_channel num peer t"
  "\<lambda>a num now. findChannelByNumber a num now \<noteq> None" for peer
  by unfold_locales (auto simp: set_channel_def findChannelByNumber_def split: option.splits)

lemma allocation_ok_set_permission:
  "allocation_ok io a \<Longrightarrow> \<not> isDeniedAddress io addr \<Longrightarrow> allocation_ok io (set_permission addr t a)"
  unfolding allocation_ok_def set_permission_def by simp

lemma allocation_ok_set_channel:
  assumes "allocation_ok io a" "\<not> isDeniedAddress io (ep_address peer)"
    "0x4000 \<le> num" "num \<le> 0x4FFF"
    "\<And>num' ch. um_find (channels a) num' = Some ch \<Longrightarrow> num' \<noteq> num \<Longrightarrow> cb_peer ch \<noteq> peer"
  shows "allocation_ok io (set_channel num peer t a)"
  using assms unfolding allocation_ok_def set_channel_def by (auto; metis)

lemma allocation_ok_fresh:
  "permissions a = [] \<Longrightarrow> channels a = [] \<Longrightarrow> allocation_ok io a"
  by (simp add: allocation_ok_def)

lemma allocation_ok_expiresAt [simp]: "allocation_ok io (a\<lparr>expiresAt := t\<rparr>) = allocation_ok io a"
  by (simp add: allocation_ok_def)

lemma allocation_ok_permitted:
  "allocation_ok io a \<Longrightarrow> hasPermission a addr now \<Longrightarrow> \<not> isDeniedAddress io addr"
  by (auto simp: allocation_ok_def dest: hasPermission_SomeD)

lemma set_permission_fields [simp]:
  "clientAddr (set_permission addr t a) = clientAddr a"
  "relayedAddr (set_permission addr t a) = relayedAddr a"
  "alloc_username (set_permission addr t a) = alloc_username a"
  "expiresAt (set_permission addr t a) = expiresAt a"
  "channels (set_permission addr t a) = channels a"
  by (simp_all add: set_permission_def)

lemma set_channel_fields [simp]:
  "clientAddr (set_channel num peer t a) = clientAddr a"
  "relayedAddr (set_channel num peer t a) = relayedAddr a"
  "alloc_username (set_channel num peer t a) = alloc_username a"
  "expiresAt (set_channel num peer t a) = expiresAt a"
  "permissions (set_channel num peer t a) = permissions a"
  by (simp_all add: set_channel_def)

text \<open>
  In a well-formed allocation the search for a peer's channel has at most one candidate,
  so the iteration order of the hash table cannot be observed.
\<close>

lemma findChannelByPeer_iff:
  assumes "allocation_ok io a"
  shows "findChannelByPeer a peer now = Some ch \<longleftrightarrow>
           (\<exists>num. um_find (channels a) num = Some ch \<and> cb_peer ch = peer \<and> now < cb_expiresAt ch)"
proof -
  let ?P = "\<lambda>(num, ch). ep_address (cb_peer ch) = ep_address peer
      \<and> ep_port (cb_peer ch) = ep_port peer \<and> now < cb_expiresAt ch"
  have ok: "um_ok (channels a)" and
    inj: "\<And>n n' c c'. um_find (channels a) n = Some c \<Longrightarrow> um_find (channels a) n' = Some c' \<Longrightarrow>
            cb_peer c = cb_peer c' \<Longrightarrow> n = n'"
    using assms by (auto simp: allocation_ok_def)
  have P: "?P (n, c) \<longleftrightarrow> cb_peer c = peer \<and> now < cb_expiresAt c" for n c
    by (auto intro: Endpoint.equality)
  show ?thesis
  proof (cases "find ?P (channels a)")
    case None
    then have "\<not> ?P (n, c)" if "um_find (channels a) n = Some c" for n c
      using that by (auto simp: find_None_iff dest: map_of_SomeD)
    with None P show ?thesis by (auto simp: findChannelByPeer_def)
  next
    case (Some nc)
    obtain n c where nc: "nc = (n, c)" by (cases nc)
    have mem: "um_find (channels a) n = Some c" and pc: "?P (n, c)"
      using Some ok by (auto simp: nc find_Some_iff in_set_conv_nth map_of_eq_Some_iff)
    with Some nc P inj show ?thesis
      by (auto simp: findChannelByPeer_def) (metis option.inject)+
  qed
qed

text \<open>
  The hash table's iteration order is not observable: two well-formed allocations that
  hold the same channel bindings, in whatever order, find the same channel for a peer.
\<close>

lemma findChannelByPeer_order_independent:
  assumes "allocation_ok io a" "allocation_ok io b" "set (channels a) = set (channels b)"
  shows "findChannelByPeer a peer now = findChannelByPeer b peer now"
proof -
  have "um_find (channels a) = um_find (channels b)"
    using assms by (intro um_find_perm) (auto simp: allocation_ok_def)
  then have "findChannelByPeer a peer now = Some ch \<longleftrightarrow> findChannelByPeer b peer now = Some ch" for ch
    by (simp add: findChannelByPeer_iff [OF assms(1)] findChannelByPeer_iff [OF assms(2)])
  then show ?thesis
    by (metis not_None_eq)
qed

text \<open>The denied ranges leave out 192.168.0.0/16, whose entry is commented out in the source.\<close>

lemma rfc1918_gap:
  assumes "make_address_v4 io addr = Some ip" "0xC0A80000 \<le> ip" "ip \<le> 0xC0A8FFFF"
  shows "\<not> isDeniedAddress io addr"
  using assms by (auto simp: isDeniedAddress_def kDeniedRanges_def word_le_nat_alt)

end
