(* ===== verification/Allocation_Manager.thy ===== *)
theory Allocation_Manager
  imports Allocation
begin

text \<open>
  \<open>allocation/allocation_manager.cpp\<close>: the relay's table of allocations. The two hash
  tables share allocation objects through \<open>shared_ptr\<close>; the model keeps the objects in a
  store indexed by addresses, so that a change made through one table is seen through the
  other. Reclaiming an object no table refers to is not observable and not modelled.
  Every handler runs under the manager's mutex, hence as one step.
  A handler that followed a dangling pointer would be \<open>None\<close>.
\<close>

section \<open>State\<close>

type_synonym ptr = nat

record AllocationManager =
  relay_address :: string
  relay_port_min :: u16
  relay_port_max :: u16
  max_alloc_per_user :: u32
  next_id :: u64
  store :: "ptr \<Rightarrow> Allocation option"
  next_ptr :: ptr
  by_client :: "(string, ptr) umap"
  by_relay :: "(string, ptr) umap"
  used_ports :: "(u16, bool) umap"
  has_client_send :: bool
  has_peer_send :: bool

text \<open>What a handler asks the dispatcher to send, through the two callbacks.\<close>

datatype relay_out = ClientSend bytes Endpoint | PeerSend bytes Endpoint

definition mk_manager :: "string \<Rightarrow> u16 \<Rightarrow> u16 \<Rightarrow> u32 \<Rightarrow> AllocationManager" where
  "mk_manager addr pmin pmax quota =
     \<lparr>relay_address = addr, relay_port_min = pmin, relay_port_max = pmax,
      max_alloc_per_user = quota, next_id = 1, store = (\<lambda>_. None), next_ptr = 0,
      by_client = [], by_relay = [], used_ports = [],
      has_client_send = False, has_peer_send = False\<rparr>"

definition setClientSendCallback :: "AllocationManager \<Rightarrow> AllocationManager" where
  "setClientSendCallback am = am\<lparr>has_client_send := True\<rparr>"

definition setPeerSendCallback :: "AllocationManager \<Rightarrow> AllocationManager" where
  "setPeerSendCallback am = am\<lparr>has_peer_send := True\<rparr>"

section \<open>Ports\<close>

text \<open>
  \<open>draw i\<close> is the \<open>i\<close>-th value of \<open>uniform_int_distribution<uint16_t>(0, range - 1)\<close>.
\<close>

definition port_range :: "AllocationManager \<Rightarrow> u16" where
  "port_range am = relay_port_max am - relay_port_min am + 1"

function try_ports :: "(nat \<Rightarrow> u16) \<Rightarrow> AllocationManager \<Rightarrow> nat \<Rightarrow> u16 option \<times> AllocationManager" where
  "try_ports draw am attempts =
     (if attempts < 1000 then
        (let port = relay_port_min am + draw attempts
         in if um_find (used_ports am) port \<noteq> Some True
            then (Some port, am\<lparr>used_ports := um_set port True (used_ports am)\<rparr>)
            else try_ports draw am (attempts + 1))
      else (None, am))"
  by pat_completeness auto
termination
  by (relation "measure (\<lambda>(draw, am, attempts). 1000 - attempts)") auto

declare try_ports.simps [simp del]

definition allocatePort :: "(nat \<Rightarrow> u16) \<Rightarrow> AllocationManager \<Rightarrow> u16 option \<times> AllocationManager" where
  "allocatePort draw am = try_ports draw am 0"

definition releasePort :: "u16 \<Rightarrow> AllocationManager \<Rightarrow> AllocationManager" where
  "releasePort port am = am\<lparr>used_ports := um_erase port (used_ports am)\<rparr>"

section \<open>Requests\<close>

definition be32_value :: "bytes \<Rightarrow> u32" where
  "be32_value v = be32 (v ! 0) (v ! 1) (v ! 2) (v ! 3)"

definition requestedLifetime :: "TurnMessage \<Rightarrow> u32" where
  "requestedLifetime msg =
     (case findAttr msg Attr_Lifetime of
        None \<Rightarrow> kDefaultLifetime
      | Some lt \<Rightarrow>
          if length (avalue lt) < 4 then kDefaultLifetime
          else let requested = be32_value (avalue lt)
               in if requested = 0 then 0 else min requested kMaxLifetime)"

definition findByClient :: "AllocationManager \<Rightarrow> Endpoint \<Rightarrow> ptr option" where
  "findByClient am client = um_find (by_client am) (endpointKey client)"

definition findByRelay :: "AllocationManager \<Rightarrow> Endpoint \<Rightarrow> ptr option" where
  "findByRelay am relay = um_find (by_relay am) (endpointKey relay)"

definition put :: "ptr \<Rightarrow> Allocation \<Rightarrow> AllocationManager \<Rightarrow> AllocationManager" where
  "put p a am = am\<lparr>store := (store am)(p := Some a)\<rparr>"

text \<open>\<open>make_address_v4(s, ec)\<close> followed by \<open>ec ? 0 : to_uint()\<close>.\<close>

definition ip_or_zero :: "asio_ip \<Rightarrow> string \<Rightarrow> u32" where
  "ip_or_zero io s = (case make_address_v4 io s of None \<Rightarrow> 0 | Some ip \<Rightarrow> ip)"

text \<open>The peer encoded in the value of an XOR-PEER-ADDRESS attribute of at least 8 bytes.\<close>

definition xor_value_ip :: "bytes \<Rightarrow> u32" where
  "xor_value_ip v = be32 (v ! 4) (v ! 5) (v ! 6) (v ! 7) XOR kMagicCookie"

definition xor_value_port :: "bytes \<Rightarrow> u16" where
  "xor_value_port v = be16 (v ! 2) (v ! 3) XOR ucast (drop_bit 16 kMagicCookie)"

definition xor_value_peer :: "asio_ip \<Rightarrow> bytes \<Rightarrow> Endpoint" where
  "xor_value_peer io v = \<lparr>ep_address = v4_to_string io (xor_value_ip v), ep_port = xor_value_port v\<rparr>"

definition user_allocations :: "AllocationManager \<Rightarrow> string \<Rightarrow> nat" where
  "user_allocations am user =
     length (filter (\<lambda>(k, p). map_option alloc_username (store am p) = Some user) (by_client am))"

definition user_count :: "AllocationManager \<Rightarrow> string \<Rightarrow> u32" where
  "user_count am user = word_of_nat (user_allocations am user)"

definition handleAllocate ::
    "asio_ip \<Rightarrow> (nat \<Rightarrow> u16) \<Rightarrow> time_point \<Rightarrow> TurnMessage \<Rightarrow> Endpoint \<Rightarrow> string \<Rightarrow> string
      \<Rightarrow> AllocationManager \<Rightarrow> bytes \<times> AllocationManager" where
  "handleAllocate io draw now msg client user realm am =
     (let tid = transaction_id msg in
      if um_find (by_client am) (endpointKey client) \<noteq> None
      then (make_error tid 437 ''Allocation Mismatch'', am)
      else case findAttr msg Attr_RequestedTransport of
        None \<Rightarrow> (make_error tid 400 ''Bad Request'', am)
      | Some rt \<Rightarrow>
          if length (avalue rt) < 4 \<or> avalue rt ! 0 \<noteq> 17
          then (make_error tid 442 ''Unsupported Transport Protocol'', am)
          else if user_count am user \<ge> max_alloc_per_user am
          then (make_error tid 486 ''Allocation Quota Reached'', am)
          else case allocatePort draw am of
            (None, am) \<Rightarrow> (make_error tid 508 ''Insufficient Capacity'', am)
          | (Some relay_port, am) \<Rightarrow>
              let lifetime = (if requestedLifetime msg = 0 then kDefaultLifetime else requestedLifetime msg);
                  relayed = \<lparr>ep_address = relay_address am, ep_port = relay_port\<rparr>;
                  p = next_ptr am;
                  a = \<lparr>alloc_id = next_id am, clientAddr = client, relayedAddr = relayed,
                       alloc_username = user, alloc_realm = realm,
                       expiresAt = now + seconds (unat lifetime), permissions = [], channels = []\<rparr>;
                  am = (put p a am)\<lparr>next_id := next_id am + 1, next_ptr := p + 1,
                         by_client := um_set (endpointKey client) p (by_client am),
                         by_relay := um_set (endpointKey relayed) p (by_relay am)\<rparr>
              in (build (addLifetime lifetime
                    (addXorMappedAddress (ip_or_zero io (ep_address client)) (ep_port client)
                      (addXorRelayedAddress (ip_or_zero io (relay_address am)) relay_port
                        (mk_builder Allocate SuccessResponse tid)))), am))"

definition handleRefresh ::
    "time_point \<Rightarrow> TurnMessage \<Rightarrow> Endpoint \<Rightarrow> string \<Rightarrow> AllocationManager
      \<Rightarrow> (bytes \<times> AllocationManager) option" where
  "handleRefresh now msg client user am =
     (case um_find (by_client am) (endpointKey client) of
        None \<Rightarrow> Some (make_error (transaction_id msg) 437 ''Allocation Mismatch'', am)
      | Some p \<Rightarrow> do {
          a \<leftarrow> store am p;
          if alloc_username a \<noteq> user
          then Some (make_error (transaction_id msg) 441 ''Wrong Credentials'', am)
          else
            let lifetime = requestedLifetime msg
            in if lifetime = 0
               then let am = am\<lparr>by_relay := um_erase (endpointKey (relayedAddr a)) (by_relay am)\<rparr>;
                        am = releasePort (ep_port (relayedAddr a)) am;
                        am = am\<lparr>by_client := um_erase (endpointKey client) (by_client am)\<rparr>
                    in Some (build (addLifetime 0
                               (mk_builder Refresh SuccessResponse (transaction_id msg))), am)
               else Some (build (addLifetime lifetime
                            (mk_builder Refresh SuccessResponse (transaction_id msg))),
                          put p (a\<lparr>expiresAt := now + seconds (unat lifetime)\<rparr>) am) })"

text \<open>
  The loop of \<open>handleCreatePermission\<close>: the result says whether a denied address ended
  it early (permissions installed before stay), the allocation, and \<open>found_peer\<close>.
\<close>

fun permit_peers ::
    "asio_ip \<Rightarrow> time_point \<Rightarrow> Attribute list \<Rightarrow> Allocation \<Rightarrow> bool \<Rightarrow> bool \<times> Allocation \<times> bool" where
  "permit_peers io now [] a found = (False, a, found)"
| "permit_peers io now (attr # attrs) a found =
     (if atype attr \<noteq> Attr_XorPeerAddress then permit_peers io now attrs a found
      else if length (avalue attr) < 8 then permit_peers io now attrs a found
      else let peer_address = v4_to_string io (xor_value_ip (avalue attr))
           in if isDeniedAddress io peer_address then (True, a, found)
              else permit_peers io now attrs
                     (set_permission peer_address (now + seconds kPermissionTTL) a) True)"

definition handleCreatePermission ::
    "asio_ip \<Rightarrow> time_point \<Rightarrow> TurnMessage \<Rightarrow> Endpoint \<Rightarrow> AllocationManager
      \<Rightarrow> (bytes \<times> AllocationManager) option" where
  "handleCreatePermission io now msg client am =
     (case um_find (by_client am) (endpointKey client) of
        None \<Rightarrow> Some (make_error (transaction_id msg) 437 ''Allocation Mismatch'', am)
      | Some p \<Rightarrow> do {
          a \<leftarrow> store am p;
          let (denied, a', found_peer) = permit_peers io now (attributes msg) a False;
          let am = put p a' am;
          if denied then Some (make_error (transaction_id msg) 403 ''Forbidden'', am)
          else if \<not> found_peer then Some (make_error (transaction_id msg) 400 ''Bad Request'', am)
          else Some (build (mk_builder CreatePermission SuccessResponse (transaction_id msg)), am) })"

definition channel_conflict :: "u16 \<Rightarrow> Endpoint \<Rightarrow> Allocation \<Rightarrow> bool" where
  "channel_conflict channel_num peer a \<longleftrightarrow>
     (case um_find (channels a) channel_num of
        None \<Rightarrow> False
      | Some ch \<Rightarrow> ep_address (cb_peer ch) \<noteq> ep_address peer \<or> ep_port (cb_peer ch) \<noteq> ep_port peer)
     \<or> list_ex (\<lambda>(num, ch). num \<noteq> channel_num \<and> ep_address (cb_peer ch) = ep_address peer
                  \<and> ep_port (cb_peer ch) = ep_port peer) (channels a)"

definition handleChannelBind ::
    "asio_ip \<Rightarrow> time_point \<Rightarrow> TurnMessage \<Rightarrow> Endpoint \<Rightarrow> AllocationManager
      \<Rightarrow> (bytes \<times> AllocationManager) option" where
  "handleChannelBind io now msg client am =
     (case um_find (by_client am) (endpointKey client) of
        None \<Rightarrow> Some (make_error (transaction_id msg) 437 ''Allocation Mismatch'', am)
      | Some p \<Rightarrow> do {
          a \<leftarrow> store am p;
          let bad = Some (make_error (transaction_id msg) 400 ''Bad Request'', am);
          case (findAttr msg Attr_ChannelNumber, findAttr msg Attr_XorPeerAddress) of
            (Some ch_attr, Some peer_attr) \<Rightarrow>
              if length (avalue ch_attr) < 2 \<or> length (avalue peer_attr) < 8 then bad
              else let channel_num = be16 (avalue ch_attr ! 0) (avalue ch_attr ! 1);
                       peer = xor_value_peer io (avalue peer_attr)
                   in if channel_num < 0x4000 \<or> channel_num > 0x4FFF then bad
                      else if isDeniedAddress io (ep_address peer)
                      then Some (make_error (transaction_id msg) 403 ''Forbidden'', am)
                      else if channel_conflict channel_num peer a then bad
                      else Some (build (mk_builder ChannelBind SuccessResponse (transaction_id msg)),
                             put p (set_permission (ep_address peer) (now + seconds kPermissionTTL)
                                     (set_channel channel_num peer (now + seconds kChannelTTL) a)) am)
          | _ \<Rightarrow> bad })"

section \<open>Relaying\<close>

definition zero_tid :: bytes where
  "zero_tid = replicate 12 0"

definition handleSend ::
    "asio_ip \<Rightarrow> time_point \<Rightarrow> TurnMessage \<Rightarrow> Endpoint \<Rightarrow> AllocationManager \<Rightarrow> relay_out list option" where
  "handleSend io now msg client am =
     (case um_find (by_client am) (endpointKey client) of
        None \<Rightarrow> Some []
      | Some p \<Rightarrow> do {
          a \<leftarrow> store am p;
          case findAttr msg Attr_XorPeerAddress of
            None \<Rightarrow> Some []
          | Some peer_attr \<Rightarrow>
              if length (avalue peer_attr) < 8 then Some []
              else let peer = xor_value_peer io (avalue peer_attr)
                   in if \<not> hasPermission a (ep_address peer) now then Some []
                      else case findAttr msg Attr_Data of
                        None \<Rightarrow> Some []
                      | Some data_attr \<Rightarrow>
                          (case um_find (by_relay am) (endpointKey peer) of
                             Some q \<Rightarrow> do {
                               b \<leftarrow> store am q;
                               let indication = make_data_indication zero_tid
                                     (ip_or_zero io (ep_address (relayedAddr a))) (ep_port (relayedAddr a))
                                     (avalue data_attr);
                               Some (if has_client_send am then [ClientSend indication (clientAddr b)] else []) }
                           | None \<Rightarrow>
                               Some (if has_peer_send am then [PeerSend (avalue data_attr) peer] else [])) })"

definition handlePeerData ::
    "asio_ip \<Rightarrow> time_point \<Rightarrow> bytes \<Rightarrow> nat \<Rightarrow> Endpoint \<Rightarrow> Endpoint \<Rightarrow> AllocationManager
      \<Rightarrow> relay_out list option" where
  "handlePeerData io now data sz peer relay_addr am =
     (case um_find (by_relay am) (endpointKey relay_addr) of
        None \<Rightarrow> Some []
      | Some p \<Rightarrow> do {
          a \<leftarrow> store am p;
          if \<not> hasPermission a (ep_address peer) now then Some []
          else if \<not> has_client_send am then Some []
          else do {
            payload \<leftarrow> rd_range data 0 sz;
            case findChannelByPeer a peer now of
              Some ch \<Rightarrow> Some [ClientSend (make_channel_data (channelNumber ch) payload) (clientAddr a)]
            | None \<Rightarrow> Some [ClientSend (make_data_indication zero_tid
                         (ip_or_zero io (ep_address peer)) (ep_port peer) payload) (clientAddr a)] } })"

section \<open>Invariant\<close>

definition relay_ep :: "AllocationManager \<Rightarrow> u16 \<Rightarrow> Endpoint" where
  "relay_ep am port = \<lparr>ep_address = relay_address am, ep_port = port\<rparr>"

text \<open>
  Both tables index the same set of live allocations, each under the keys of its own
  addresses; a port is marked used exactly when some allocation relays on it; addresses
  handed out lie below \<open>next_ptr\<close>.
\<close>

definition tables_ok :: "asio_ip \<Rightarrow> AllocationManager \<Rightarrow> bool" where
  "tables_ok io am \<longleftrightarrow>
     um_ok (by_client am) \<and> um_ok (by_relay am) \<and> um_ok (used_ports am)
   \<and> (\<forall>k p. um_find (by_client am) k = Some p \<longrightarrow>
        (\<exists>a. store am p = Some a \<and> k = endpointKey (clientAddr a) \<and> allocation_ok io a
           \<and> ep_address (relayedAddr a) = relay_address am
           \<and> um_find (by_relay am) (endpointKey (relayedAddr a)) = Some p))
   \<and> (\<forall>k p. um_find (by_relay am) k = Some p \<longrightarrow>
        (\<exists>a. store am p = Some a \<and> k = endpointKey (relayedAddr a)
           \<and> um_find (by_client am) (endpointKey (clientAddr a)) = Some p))
   \<and> (\<forall>port. um_find (used_ports am) port = Some True \<longleftrightarrow>
        um_find (by_relay am) (endpointKey (relay_ep am port)) \<noteq> None)
   \<and> (\<forall>p \<ge> next_ptr am. store am p = None)"

definition quota_ok :: "AllocationManager \<Rightarrow> bool" where
  "quota_ok am \<longleftrightarrow> (\<forall>user. user_allocations am user \<le> unat (max_alloc_per_user am))"

definition ports_ok :: "AllocationManager \<Rightarrow> bool" where
  "ports_ok am \<longleftrightarrow>
     (\<forall>port. um_find (used_ports am) port = Some True \<longrightarrow>
        port - relay_port_min am \<le> port_range am - 1)"

definition am_inv :: "asio_ip \<Rightarrow> AllocationManager \<Rightarrow> bool" where
  "am_inv io am \<longleftrightarrow> tables_ok io am \<and> quota_ok am \<and> ports_ok am"

text \<open>The draws of the uniform distribution lie in its range.\<close>

definition draws_ok :: "(nat \<Rightarrow> u16) \<Rightarrow> AllocationManager \<Rightarrow> bool" where
  "draws_ok draw am \<longleftrightarrow> (\<forall>i. draw i \<le> port_range am - 1)"

text \<open>The allocation a client owns, and the one that relays on an address.\<close>

definition owned :: "AllocationManager \<Rightarrow> Endpoint \<Rightarrow> Allocation option" where
  "owned am client = do { p \<leftarrow> findByClient am client; store am p }"

definition relayed :: "AllocationManager \<Rightarrow> Endpoint \<Rightarrow> Allocation option" where
  "relayed am relay = do { p \<leftarrow> findByRelay am relay; store am p }"

section \<open>The building blocks keep the invariant\<close>

lemma tables_okI:
  assumes "um_ok (by_client am)" "um_ok (by_relay am)" "um_ok (used_ports am)"
    "\<And>k p. um_find (by_client am) k = Some p \<Longrightarrow>
       \<exists>a. store am p = Some a \<and> k = endpointKey (clientAddr a) \<and> allocation_ok io a
         \<and> ep_address (relayedAddr a) = relay_address am
         \<and> um_find (by_relay am) (endpointKey (relayedAddr a)) = Some p"
    "\<And>k p. um_find (by_relay am) k = Some p \<Longrightarrow>
       \<exists>a. store am p = Some a \<and> k = endpointKey (relayedAddr a)
         \<and> um_find (by_client am) (endpointKey (clientAddr a)) = Some p"
    "\<And>port. um_find (used_ports am) port = Some True \<longleftrightarrow>
       um_find (by_relay am) (endpointKey (relay_ep am port)) \<noteq> None"
    "\<And>p. next_ptr am \<le> p \<Longrightarrow> store am p = None"
  shows "tables_ok io am"
  unfolding tables_ok_def by (intro conjI allI impI assms)

lemma tables_okD:
  assumes "tables_ok io am" "um_find (by_client am) k = Some p"
  obtains a where "store am p = Some a" "k = endpointKey (clientAddr a)" "allocation_ok io a"
    "ep_address (relayedAddr a) = relay_address am"
    "um_find (by_relay am) (endpointKey (relayedAddr a)) = Some p"
  using assms unfolding tables_ok_def by blast

lemma tables_ok_relayD:
  assumes "tables_ok io am" "um_find (by_relay am) k = Some p"
  obtains a where "store am p = Some a" "k = endpointKey (relayedAddr a)"
    "um_find (by_client am) (endpointKey (clientAddr a)) = Some p" "allocation_ok io a"
  using assms unfolding tables_ok_def by (metis option.inject)

lemma put_simps [simp]:
  "by_client (put p a am) = by_client am" "by_relay (put p a am) = by_relay am"
  "used_ports (put p a am) = used_ports am" "relay_address (put p a am) = relay_address am"
  "relay_port_min (put p a am) = relay_port_min am" "relay_port_max (put p a am) = relay_port_max am"
  "max_alloc_per_user (put p a am) = max_alloc_per_user am" "next_ptr (put p a am) = next_ptr am"
  "next_id (put p a am) = next_id am" "has_client_send (put p a am) = has_client_send am"
  "has_peer_send (put p a am) = has_peer_send am"
  "store (put p a am) = (store am)(p := Some a)"
  by (simp_all add: put_def)

lemma relay_ep_put [simp]: "relay_ep (put p a am) port = relay_ep am port"
  by (simp add: relay_ep_def)

text \<open>Replacing a live allocation by one with the same addresses and owner.\<close>

lemma tables_ok_put:
  assumes inv: "tables_ok io am" and p: "um_find (by_client am) k = Some p" "store am p = Some a"
    and same: "clientAddr a' = clientAddr a" "relayedAddr a' = relayedAddr a" "allocation_ok io a'"
  shows "tables_ok io (put p a' am)"
proof -
  have "p < next_ptr am"
    using inv p(2) unfolding tables_ok_def by (metis leI option.distinct(1))
  then show ?thesis
    using inv p same unfolding tables_ok_def by (auto; metis option.inject)
qed

lemma user_allocations_put:
  assumes "store am p = Some a" "alloc_username a' = alloc_username a"
  shows "user_allocations (put p a' am) user = user_allocations am user"
proof -
  have "map_option alloc_username (((store am)(p := Some a')) q) = map_option alloc_username (store am q)" for q
    using assms by simp
  then show ?thesis
    unfolding user_allocations_def by simp
qed

lemma am_inv_put:
  assumes "am_inv io am" "um_find (by_client am) k = Some p" "store am p = Some a"
    "clientAddr a' = clientAddr a" "relayedAddr a' = relayedAddr a" "allocation_ok io a'"
    "alloc_username a' = alloc_username a"
  shows "am_inv io (put p a' am)"
  using assms tables_ok_put [of io am k p a a'] user_allocations_put [of am p a a']
  by (simp add: am_inv_def quota_ok_def ports_ok_def port_range_def)

lemma try_ports_cases:
  "try_ports draw am n = (r, am') \<Longrightarrow>
     r = None \<and> am' = am
   \<or> (\<exists>i. r = Some (relay_port_min am + draw i)
        \<and> um_find (used_ports am) (relay_port_min am + draw i) \<noteq> Some True
        \<and> am' = am\<lparr>used_ports := um_set (relay_port_min am + draw i) True (used_ports am)\<rparr>)"
proof (induction draw am n rule: try_ports.induct)
  case (1 draw am n)
  show ?case
  proof (cases "n < 1000 \<and> um_find (used_ports am) (relay_port_min am + draw n) = Some True")
    case True
    then have "try_ports draw am (n + 1) = (r, am')"
      using "1.prems" by (subst (asm) try_ports.simps) (simp add: Let_def)
    with True "1.IH" show ?thesis by blast
  next
    case False
    with "1.prems" show ?thesis
      by (subst (asm) try_ports.simps) (auto simp: Let_def split: if_splits)
  qed
qed

lemma allocatePort_cases:
  assumes "allocatePort draw am = (r, am')"
  obtains (full) "r = None" "am' = am"
  | (port) i where "r = Some (relay_port_min am + draw i)"
      "um_find (used_ports am) (relay_port_min am + draw i) \<noteq> Some True"
      "am' = am\<lparr>used_ports := um_set (relay_port_min am + draw i) True (used_ports am)\<rparr>"
  using try_ports_cases [of draw am 0 r am'] assms unfolding allocatePort_def by blast

text \<open>Adding an allocation for a new client on a free port.\<close>

lemma tables_ok_insert:
  assumes inv: "tables_ok io am"
    and new: "um_find (by_client am) (endpointKey (clientAddr a)) = None"
      "um_find (used_ports am) port \<noteq> Some True" "relayedAddr a = relay_ep am port"
      "allocation_ok io a"
  shows "tables_ok io (put (next_ptr am) a (am\<lparr>used_ports := um_set port True (used_ports am)\<rparr>)
           \<lparr>next_id := nid, next_ptr := next_ptr am + 1,
            by_client := um_set (endpointKey (clientAddr a)) (next_ptr am) (by_client am),
            by_relay := um_set (endpointKey (relayedAddr a)) (next_ptr am) (by_relay am)\<rparr>)"
proof -
  have free: "um_find (by_relay am) (endpointKey (relay_ep am port)) = None"
    using inv new(2) unfolding tables_ok_def by auto
  have old: "store am p = Some b \<Longrightarrow> p \<noteq> next_ptr am" for p b
    using inv unfolding tables_ok_def by (metis order_refl option.distinct(1))
  let ?am = "put (next_ptr am) a (am\<lparr>used_ports := um_set port True (used_ports am)\<rparr>)
      \<lparr>next_id := nid, next_ptr := next_ptr am + 1,
       by_client := um_set (endpointKey (clientAddr a)) (next_ptr am) (by_client am),
       by_relay := um_set (endpointKey (relayedAddr a)) (next_ptr am) (by_relay am)\<rparr>"
  have ep: "relay_ep ?am = relay_ep am" "relay_ep am q = relay_ep am port \<longleftrightarrow> q = port" for q
    by (simp_all add: relay_ep_def fun_eq_iff)
  show ?thesis
  proof (rule tables_okI)
    fix k p assume k: "um_find (by_client ?am) k = Some p"
    show "\<exists>b. store ?am p = Some b \<and> k = endpointKey (clientAddr b) \<and> allocation_ok io b
         \<and> ep_address (relayedAddr b) = relay_address ?am
         \<and> um_find (by_relay ?am) (endpointKey (relayedAddr b)) = Some p"
    proof (cases "k = endpointKey (clientAddr a)")
      case True
      with k new show ?thesis by (auto simp: relay_ep_def)
    next
      case False
      with k have "um_find (by_client am) k = Some p" by simp
      with inv obtain b where b: "store am p = Some b" "k = endpointKey (clientAddr b)" "allocation_ok io b"
          "ep_address (relayedAddr b) = relay_address am"
          "um_find (by_relay am) (endpointKey (relayedAddr b)) = Some p"
        by (rule tables_okD)
      with free new(3) have "relayedAddr b \<noteq> relayedAddr a" by auto
      with b old show ?thesis by auto
    qed
  next
    fix k p assume k: "um_find (by_relay ?am) k = Some p"
    show "\<exists>b. store ?am p = Some b \<and> k = endpointKey (relayedAddr b)
         \<and> um_find (by_client ?am) (endpointKey (clientAddr b)) = Some p"
    proof (cases "k = endpointKey (relayedAddr a)")
      case True
      with k show ?thesis by auto
    next
      case False
      with k have "um_find (by_relay am) k = Some p" by simp
      with inv obtain b where b: "store am p = Some b" "k = endpointKey (relayedAddr b)"
          "um_find (by_client am) (endpointKey (clientAddr b)) = Some p"
        by (rule tables_ok_relayD)
      with new(1) have "clientAddr b \<noteq> clientAddr a" by auto
      with b old show ?thesis by auto
    qed
  next
    fix q
    show "um_find (used_ports ?am) q = Some True \<longleftrightarrow>
        um_find (by_relay ?am) (endpointKey (relay_ep ?am q)) \<noteq> None"
      unfolding ep(1) using inv new(3) by (auto simp: ep(2) tables_ok_def)
  next
    fix p assume "next_ptr ?am \<le> p"
    then show "store ?am p = None"
      using inv by (simp add: tables_ok_def)
  qed (use inv in \<open>simp_all add: tables_ok_def\<close>)
qed

text \<open>Removing the allocation of a client.\<close>

lemma tables_ok_remove:
  assumes inv: "tables_ok io am" and p: "um_find (by_client am) (endpointKey client) = Some p"
    "store am p = Some a"
  shows "tables_ok io (am\<lparr>by_relay := um_erase (endpointKey (relayedAddr a)) (by_relay am),
            used_ports := um_erase (ep_port (relayedAddr a)) (used_ports am),
            by_client := um_erase (endpointKey client) (by_client am)\<rparr>)" (is "tables_ok io ?am")
proof -
  have a: "clientAddr a = client" "ep_address (relayedAddr a) = relay_address am"
    "um_find (by_relay am) (endpointKey (relayedAddr a)) = Some p"
    using tables_okD [OF inv p(1)] p(2) by auto
  have ep: "relay_ep ?am = relay_ep am" "relay_ep am q = relayedAddr a \<longleftrightarrow> q = ep_port (relayedAddr a)" for q
    using a(2) by (cases "relayedAddr a", auto simp: relay_ep_def fun_eq_iff)+
  show ?thesis
  proof (rule tables_okI)
    fix k q assume "um_find (by_client ?am) k = Some q"
    then have k: "um_find (by_client am) k = Some q" "k \<noteq> endpointKey client"
      by (auto split: if_splits)
    from inv k(1) obtain b where b: "store am q = Some b" "k = endpointKey (clientAddr b)" "allocation_ok io b"
        "ep_address (relayedAddr b) = relay_address am"
        "um_find (by_relay am) (endpointKey (relayedAddr b)) = Some q"
      by (rule tables_okD)
    have "relayedAddr b \<noteq> relayedAddr a"
      using b a k(2) p(2) by auto
    with b show "\<exists>b. store ?am q = Some b \<and> k = endpointKey (clientAddr b) \<and> allocation_ok io b
         \<and> ep_address (relayedAddr b) = relay_address ?am
         \<and> um_find (by_relay ?am) (endpointKey (relayedAddr b)) = Some q"
      by auto
  next
    fix k q assume "um_find (by_relay ?am) k = Some q"
    then have k: "um_find (by_relay am) k = Some q" "k \<noteq> endpointKey (relayedAddr a)"
      by (auto split: if_splits)
    from inv k(1) obtain b where b: "store am q = Some b" "k = endpointKey (relayedAddr b)"
        "um_find (by_client am) (endpointKey (clientAddr b)) = Some q"
      by (rule tables_ok_relayD)
    have "clientAddr b \<noteq> client"
      using b a k(2) p by auto
    with b show "\<exists>b. store ?am q = Some b \<and> k = endpointKey (relayedAddr b)
         \<and> um_find (by_client ?am) (endpointKey (clientAddr b)) = Some q"
      by auto
  next
    fix q
    show "um_find (used_ports ?am) q = Some True \<longleftrightarrow>
        um_find (by_relay ?am) (endpointKey (relay_ep ?am q)) \<noteq> None"
      unfolding ep(1) using inv by (auto simp: ep(2) tables_ok_def)
  qed (use inv in \<open>simp_all add: tables_ok_def\<close>)
qed

section \<open>The handlers keep the invariant\<close>

definition allocate_lifetime :: "TurnMessage \<Rightarrow> u32" where
  "allocate_lifetime msg = (if requestedLifetime msg = 0 then kDefaultLifetime else requestedLifetime msg)"

definition new_allocation ::
    "time_point \<Rightarrow> TurnMessage \<Rightarrow> Endpoint \<Rightarrow> string \<Rightarrow> string \<Rightarrow> u16 \<Rightarrow> AllocationManager \<Rightarrow> Allocation" where
  "new_allocation now msg client user realm port am =
     \<lparr>alloc_id = next_id am, clientAddr = client, relayedAddr = relay_ep am port,
      alloc_username = user, alloc_realm = realm,
      expiresAt = now + seconds (unat (allocate_lifetime msg)), permissions = [], channels = []\<rparr>"

definition insert_allocation :: "Allocation \<Rightarrow> u16 \<Rightarrow> AllocationManager \<Rightarrow> AllocationManager" where
  "insert_allocation a port am =
     put (next_ptr am) a (am\<lparr>used_ports := um_set port True (used_ports am)\<rparr>)
       \<lparr>next_id := next_id am + 1, next_ptr := next_ptr am + 1,
        by_client := um_set (endpointKey (clientAddr a)) (next_ptr am) (by_client am),
        by_relay := um_set (endpointKey (relayedAddr a)) (next_ptr am) (by_relay am)\<rparr>"

definition remove_allocation :: "Allocation \<Rightarrow> Endpoint \<Rightarrow> AllocationManager \<Rightarrow> AllocationManager" where
  "remove_allocation a client am =
     am\<lparr>by_relay := um_erase (endpointKey (relayedAddr a)) (by_relay am),
        used_ports := um_erase (ep_port (relayedAddr a)) (used_ports am),
        by_client := um_erase (endpointKey client) (by_client am)\<rparr>"

definition allocate_response :: "asio_ip \<Rightarrow> TurnMessage \<Rightarrow> Endpoint \<Rightarrow> u16 \<Rightarrow> AllocationManager \<Rightarrow> bytes" where
  "allocate_response io msg client port am =
     build (add_attrs
       [\<lparr>atype = Attr_XorRelayedAddress, avalue = xor_address_value (ip_or_zero io (relay_address am)) port\<rparr>,
        \<lparr>atype = Attr_XorMappedAddress, avalue = xor_address_value (ip_or_zero io (ep_address client)) (ep_port client)\<rparr>,
        \<lparr>atype = Attr_Lifetime, avalue = [byte32 24 (allocate_lifetime msg), byte32 16 (allocate_lifetime msg),
            byte32 8 (allocate_lifetime msg), byte32 0 (allocate_lifetime msg)]\<rparr>]
       (mk_builder Allocate SuccessResponse (transaction_id msg)))"

text \<open>The checks an Allocate request passes before a port is drawn, in the code's order.\<close>

definition allocate_refusal ::
    "TurnMessage \<Rightarrow> Endpoint \<Rightarrow> string \<Rightarrow> AllocationManager \<Rightarrow> (u16 \<times> string) option" where
  "allocate_refusal msg client user am =
     (if um_find (by_client am) (endpointKey client) \<noteq> None then Some (437, ''Allocation Mismatch'')
      else case findAttr msg Attr_RequestedTransport of
        None \<Rightarrow> Some (400, ''Bad Request'')
      | Some rt \<Rightarrow>
          if length (avalue rt) < 4 \<or> avalue rt ! 0 \<noteq> 17 then Some (442, ''Unsupported Transport Protocol'')
          else if user_count am user \<ge> max_alloc_per_user am then Some (486, ''Allocation Quota Reached'')
          else None)"

lemma handleAllocate_refused:
  "allocate_refusal msg client user am = Some (code, reason) \<Longrightarrow>
     handleAllocate io draw now msg client user realm am = (make_error (transaction_id msg) code reason, am)"
  by (auto simp: handleAllocate_def allocate_refusal_def Let_def split: option.splits if_splits)

lemma allocate_response_eq:
  "allocate_response io msg client port am =
     build (addLifetime (allocate_lifetime msg)
       (addXorMappedAddress (ip_or_zero io (ep_address client)) (ep_port client)
         (addXorRelayedAddress (ip_or_zero io (relay_address am)) port
           (mk_builder Allocate SuccessResponse (transaction_id msg)))))"
  by (simp add: allocate_response_def add_attrs_def addLifetime_def addXorMappedAddress_def
      addXorRelayedAddress_def appendXorAddress_def)

lemma handleAllocate_admitted:
  assumes "allocate_refusal msg client user am = None"
  shows "handleAllocate io draw now msg client user realm am =
     (case allocatePort draw am of
        (None, am1) \<Rightarrow> (make_error (transaction_id msg) 508 ''Insufficient Capacity'', am1)
      | (Some port, am1) \<Rightarrow>
          (allocate_response io msg client port am,
           insert_allocation (new_allocation now msg client user realm port am) port am))"
proof (cases "allocatePort draw am")
  case (Pair r am1)
  from Pair show ?thesis
  proof (cases rule: allocatePort_cases)
    case full
    with assms Pair show ?thesis
      by (auto simp: handleAllocate_def allocate_refusal_def Let_def split: option.splits if_splits)
  next
    case (port i)
    show ?thesis
      using assms Pair port
      by (auto simp: handleAllocate_def allocate_refusal_def Let_def allocate_lifetime_def allocate_response_eq
          insert_allocation_def new_allocation_def relay_ep_def split: option.splits if_splits)
  qed
qed

lemma handleAllocate_cases:
  assumes "handleAllocate io draw now msg client user realm am = (resp, am')"
  obtains (error) code reason where "resp = make_error (transaction_id msg) code reason" "am' = am"
      "allocate_refusal msg client user am = Some (code, reason) \<or> (code, reason) = (508, ''Insufficient Capacity'')"
  | (success) i port where "allocate_refusal msg client user am = None"
      "port = relay_port_min am + draw i" "um_find (used_ports am) port \<noteq> Some True"
      "am' = insert_allocation (new_allocation now msg client user realm port am) port am"
      "resp = allocate_response io msg client port am"
proof (cases "allocate_refusal msg client user am")
  case (Some cr)
  then obtain code reason where "allocate_refusal msg client user am = Some (code, reason)"
    by (cases cr) auto
  with assms show ?thesis
    by (intro error [of code reason]) (simp_all add: handleAllocate_refused)
next
  case None
  obtain r am1 where ap: "allocatePort draw am = (r, am1)"
    by fastforce
  then show ?thesis
  proof (cases rule: allocatePort_cases)
    case full
    with assms None ap show ?thesis
      by (intro error [of 508 "''Insufficient Capacity''"]) (simp_all add: handleAllocate_admitted)
  next
    case (port i)
    with assms None ap show ?thesis
      by (intro success [of "relay_port_min am + draw i" i]) (simp_all add: handleAllocate_admitted)
  qed
qed

lemma allocate_refusal_None:
  "allocate_refusal msg client user am = None \<Longrightarrow>
     um_find (by_client am) (endpointKey client) = None \<and> user_count am user < max_alloc_per_user am"
  by (auto simp: allocate_refusal_def split: option.splits if_splits)

lemma user_allocations_insert:
  assumes "tables_ok io am" "um_find (by_client am) (endpointKey (clientAddr a)) = None"
  shows "user_allocations (insert_allocation a port am) user =
           user_allocations am user + (if alloc_username a = user then 1 else 0)"
proof -
  have "p \<noteq> next_ptr am" if "(k, p) \<in> set (by_client am)" for k p
  proof -
    have "um_find (by_client am) k = Some p"
      using that assms(1) by (simp add: tables_ok_def map_of_eq_Some_iff)
    with assms(1) obtain b where "store am p = Some b" by (rule tables_okD)
    with assms(1) show ?thesis by (metis order_refl option.distinct(1) tables_ok_def)
  qed
  then have "filter (\<lambda>(k, p). map_option alloc_username (((store am)(next_ptr am := Some a)) p) = Some user)
        (by_client am) =
      filter (\<lambda>(k, p). map_option alloc_username (store am p) = Some user) (by_client am)"
    by (intro filter_cong) auto
  then show ?thesis
    using assms(2) by (simp add: user_allocations_def insert_allocation_def um_set_absent)
qed

lemma am_inv_insert:
  assumes inv: "am_inv io am" and d: "draws_ok draw am"
    and new: "um_find (by_client am) (endpointKey (clientAddr a)) = None"
      "user_count am (alloc_username a) < max_alloc_per_user am"
      "port = relay_port_min am + draw i" "um_find (used_ports am) port \<noteq> Some True"
      "relayedAddr a = relay_ep am port" "allocation_ok io a"
  shows "am_inv io (insert_allocation a port am)"
proof -
  have t: "tables_ok io am" and q: "quota_ok am" and p: "ports_ok am"
    using inv by (auto simp: am_inv_def)
  have n: "user_allocations am (alloc_username a) \<le> unat (max_alloc_per_user am)"
    using q by (simp add: quota_ok_def)
  also have "\<dots> < 2 ^ 32"
    using unsigned_less [of "max_alloc_per_user am"] by simp
  finally have "unat (user_count am (alloc_username a)) = user_allocations am (alloc_username a)"
    by (simp add: user_count_def unat_of_nat)
  then have "user_allocations am (alloc_username a) < unat (max_alloc_per_user am)"
    using new(2) by (simp add: word_less_nat_alt)
  then have quota: "quota_ok (insert_allocation a port am)"
    using q user_allocations_insert [OF t new(1)]
    by (auto simp: quota_ok_def insert_allocation_def less_eq_Suc_le)
  have ports: "ports_ok (insert_allocation a port am)"
    using p d new(3) by (auto simp: ports_ok_def insert_allocation_def draws_ok_def port_range_def)
  have "tables_ok io (insert_allocation a port am)"
    unfolding insert_allocation_def using t new by (intro tables_ok_insert) auto
  with quota ports show ?thesis by (simp add: am_inv_def)
qed

lemma am_inv_remove:
  assumes "am_inv io am" "um_find (by_client am) (endpointKey client) = Some p" "store am p = Some a"
  shows "am_inv io (remove_allocation a client am)"
proof -
  have "user_allocations (remove_allocation a client am) user \<le> user_allocations am user" for user
    unfolding user_allocations_def remove_allocation_def AList.delete_eq filter_filter
    by (simp add: length_filter_mono split: prod.splits)
  then show ?thesis
    using assms tables_ok_remove [of io am client p a]
    by (auto simp: am_inv_def remove_allocation_def quota_ok_def ports_ok_def port_range_def
        intro: order_trans split: if_splits)
qed

lemma handleAllocate_inv:
  assumes "am_inv io am" "draws_ok draw am"
    "handleAllocate io draw now msg client user realm am = (resp, am')"
  shows "am_inv io am'"
  using assms(3)
proof (cases rule: handleAllocate_cases)
  case (error code reason)
  with assms(1) show ?thesis by simp
next
  case (success i port)
  note ok = allocate_refusal_None [OF success(1)]
  show ?thesis
    unfolding success(4) using assms(1,2) ok success(2,3)
    by (intro am_inv_insert [of io am draw _ _ i]) (auto simp: new_allocation_def allocation_ok_fresh)
qed

text \<open>The other handlers find the client's allocation first.\<close>

lemma am_inv_owned:
  assumes "am_inv io am" "um_find (by_client am) (endpointKey client) = Some p"
  obtains a where "store am p = Some a" "clientAddr a = client" "allocation_ok io a"
    "ep_address (relayedAddr a) = relay_address am"
    "um_find (by_relay am) (endpointKey (relayedAddr a)) = Some p"
proof -
  have "tables_ok io am" using assms(1) by (simp add: am_inv_def)
  from tables_okD [OF this assms(2)] show ?thesis
    using that by (metis endpointKey_inject)
qed

lemma handleRefresh_cases:
  assumes "am_inv io am"
  obtains (no_allocation) "um_find (by_client am) (endpointKey client) = None"
      "handleRefresh now msg client user am =
         Some (make_error (transaction_id msg) 437 ''Allocation Mismatch'', am)"
  | (wrong_user) p a where "um_find (by_client am) (endpointKey client) = Some p" "store am p = Some a"
      "alloc_username a \<noteq> user"
      "handleRefresh now msg client user am =
         Some (make_error (transaction_id msg) 441 ''Wrong Credentials'', am)"
  | (deleted) p a where "um_find (by_client am) (endpointKey client) = Some p" "store am p = Some a"
      "alloc_username a = user" "requestedLifetime msg = 0"
      "handleRefresh now msg client user am =
         Some (build (addLifetime 0 (mk_builder Refresh SuccessResponse (transaction_id msg))),
               remove_allocation a client am)"
  | (extended) p a where "um_find (by_client am) (endpointKey client) = Some p" "store am p = Some a"
      "alloc_username a = user" "requestedLifetime msg \<noteq> 0"
      "handleRefresh now msg client user am =
         Some (build (addLifetime (requestedLifetime msg) (mk_builder Refresh SuccessResponse (transaction_id msg))),
               put p (a\<lparr>expiresAt := now + seconds (unat (requestedLifetime msg))\<rparr>) am)"
proof (cases "um_find (by_client am) (endpointKey client)")
  case None
  then show ?thesis by (intro no_allocation) (auto simp: handleRefresh_def)
next
  case (Some p)
  then obtain a where a: "store am p = Some a"
    using am_inv_owned [OF assms Some] by blast
  show ?thesis
  proof (cases "alloc_username a = user")
    case False
    with Some a show ?thesis by (intro wrong_user [of p a]) (auto simp: handleRefresh_def)
  next
    case user: True
    show ?thesis
    proof (cases "requestedLifetime msg = 0")
      case True
      with Some a user show ?thesis
        by (intro deleted [of p a])
          (auto simp: handleRefresh_def Let_def releasePort_def remove_allocation_def)
    next
      case False
      with Some a user show ?thesis
        by (intro extended [of p a]) (auto simp: handleRefresh_def Let_def)
    qed
  qed
qed

lemma handleRefresh_inv:
  assumes "am_inv io am"
  shows "\<exists>resp am'. handleRefresh now msg client user am = Some (resp, am') \<and> am_inv io am'"
  using assms
proof (cases rule: handleRefresh_cases [of io am client now msg user])
  case (deleted p a)
  with assms show ?thesis by (auto intro: am_inv_remove)
next
  case (extended p a)
  then have "am_inv io (put p (a\<lparr>expiresAt := now + seconds (unat (requestedLifetime msg))\<rparr>) am)"
    using assms am_inv_owned [OF assms extended(1)] by (intro am_inv_put) auto
  with extended show ?thesis by auto
qed (use assms in auto)

lemma permit_peers_ok:
  assumes "allocation_ok io a" "permit_peers io now attrs a found = (denied, a', found')"
  shows "allocation_ok io a' \<and> clientAddr a' = clientAddr a \<and> relayedAddr a' = relayedAddr a
     \<and> alloc_username a' = alloc_username a \<and> expiresAt a' = expiresAt a \<and> channels a' = channels a"
  using assms
proof (induction io now attrs a found rule: permit_peers.induct)
  case (2 io now attr attrs a found)
  then show ?case
    by (auto simp: Let_def allocation_ok_set_permission split: if_splits)
qed auto

text \<open>The addresses a list of attributes asks permissions for.\<close>

fun attr_peers :: "asio_ip \<Rightarrow> Attribute list \<Rightarrow> string list" where
  "attr_peers io [] = []"
| "attr_peers io (attr # attrs) =
     (if atype attr = Attr_XorPeerAddress \<and> 8 \<le> length (avalue attr)
      then v4_to_string io (xor_value_ip (avalue attr)) # attr_peers io attrs
      else attr_peers io attrs)"

lemma permit_peers_effect:
  assumes "permit_peers io now attrs a found = (False, a', found')"
  shows "(\<forall>addr t. hasPermission a' addr t =
      (if addr \<in> set (attr_peers io attrs) then t < now + seconds kPermissionTTL else hasPermission a addr t))
    \<and> (\<forall>addr \<in> set (attr_peers io attrs). \<not> isDeniedAddress io addr)"
  using assms
proof (induction io now attrs a found rule: permit_peers.induct)
  case (2 io now attr attrs a found)
  show ?case
  proof (cases "atype attr \<noteq> Attr_XorPeerAddress \<or> length (avalue attr) < 8")
    case True
    with 2 show ?thesis by (auto split: if_splits)
  next
    case False
    let ?addr = "v4_to_string io (xor_value_ip (avalue attr))"
    have nd: "\<not> isDeniedAddress io ?addr"
      and rec: "permit_peers io now attrs (set_permission ?addr (now + seconds kPermissionTTL) a) True = (False, a', found')"
      using "2.prems" False by (auto simp: Let_def split: if_splits)
    note IH = "2.IH"(3) [OF _ _ refl nd rec]
    show ?thesis
      using IH nd False by (simp add: hasPermission_set_permission not_less)
  qed
qed simp

lemma handleCreatePermission_Some:
  assumes "um_find (by_client am) (endpointKey client) = Some p" "store am p = Some a"
    "permit_peers io now (attributes msg) a False = (denied, a', found)"
  shows "handleCreatePermission io now msg client am =
     Some (if denied then make_error (transaction_id msg) 403 ''Forbidden''
           else if \<not> found then make_error (transaction_id msg) 400 ''Bad Request''
           else build (mk_builder CreatePermission SuccessResponse (transaction_id msg)), put p a' am)"
  using assms by (simp add: handleCreatePermission_def Let_def)

lemma handleCreatePermission_inv:
  assumes "am_inv io am"
  shows "\<exists>resp am'. handleCreatePermission io now msg client am = Some (resp, am') \<and> am_inv io am'"
proof (cases "um_find (by_client am) (endpointKey client)")
  case None
  with assms show ?thesis by (simp add: handleCreatePermission_def)
next
  case (Some p)
  obtain a where a: "store am p = Some a" "allocation_ok io a"
    using am_inv_owned [OF assms Some] by blast
  obtain denied a' found where loop: "permit_peers io now (attributes msg) a False = (denied, a', found)"
    by (metis prod_cases3)
  have "am_inv io (put p a' am)"
    using assms Some a permit_peers_ok [OF a(2) loop] by (intro am_inv_put) auto
  then show ?thesis
    using handleCreatePermission_Some [OF Some a(1) loop] by auto
qed

lemma channel_conflict_False:
  assumes "\<not> channel_conflict num peer a"
  shows "(\<forall>ch. um_find (channels a) num = Some ch \<longrightarrow> cb_peer ch = peer)
       \<and> (\<forall>num' ch. um_find (channels a) num' = Some ch \<longrightarrow> num' \<noteq> num \<longrightarrow> cb_peer ch \<noteq> peer)"
proof -
  have "cb_peer ch = peer" if "um_find (channels a) num = Some ch" for ch
    using that assms by (auto simp: channel_conflict_def intro: Endpoint.equality)
  moreover have "cb_peer ch \<noteq> peer" if "um_find (channels a) num' = Some ch" "num' \<noteq> num" for num' ch
    using that(2) map_of_SomeD [OF that(1)] assms by (force simp: channel_conflict_def list_ex_iff)
  ultimately show ?thesis by blast
qed

lemma handleChannelBind_cases:
  assumes "am_inv io am"
  obtains (refused) code reason where
      "handleChannelBind io now msg client am = Some (make_error (transaction_id msg) code reason, am)"
      "(code, reason) \<in> {(437, ''Allocation Mismatch''), (400, ''Bad Request''), (403, ''Forbidden'')}"
  | (bound) p a num peer where "um_find (by_client am) (endpointKey client) = Some p" "store am p = Some a"
      "allocation_ok io a" "0x4000 \<le> num" "num \<le> 0x4FFF" "\<not> isDeniedAddress io (ep_address peer)"
      "\<not> channel_conflict num peer a"
      "handleChannelBind io now msg client am =
         Some (build (mk_builder ChannelBind SuccessResponse (transaction_id msg)),
               put p (set_permission (ep_address peer) (now + seconds kPermissionTTL)
                       (set_channel num peer (now + seconds kChannelTTL) a)) am)"
proof (cases "um_find (by_client am) (endpointKey client)")
  case None
  then show ?thesis
    by (intro refused [of 437 "''Allocation Mismatch''"]) (simp_all add: handleChannelBind_def)
next
  case (Some p)
  obtain a where a: "store am p = Some a" "allocation_ok io a"
    using am_inv_owned [OF assms Some] by blast
  let ?bad = "Some (make_error (transaction_id msg) 400 ''Bad Request'', am)"
  show ?thesis
  proof (cases "findAttr msg Attr_ChannelNumber = None \<or> findAttr msg Attr_XorPeerAddress = None")
    case True
    then show ?thesis
      using Some a by (intro refused [of 400 "''Bad Request''"])
        (auto simp: handleChannelBind_def Let_def split: option.splits)
  next
    case False
    then obtain ca pa where at: "findAttr msg Attr_ChannelNumber = Some ca"
      "findAttr msg Attr_XorPeerAddress = Some pa" by auto
    let ?num = "be16 (avalue ca ! 0) (avalue ca ! 1)" and ?peer = "xor_value_peer io (avalue pa)"
    have eq: "handleChannelBind io now msg client am =
       (if length (avalue ca) < 2 \<or> length (avalue pa) < 8 then ?bad
        else if ?num < 0x4000 \<or> ?num > 0x4FFF then ?bad
        else if isDeniedAddress io (ep_address ?peer)
        then Some (make_error (transaction_id msg) 403 ''Forbidden'', am)
        else if channel_conflict ?num ?peer a then ?bad
        else Some (build (mk_builder ChannelBind SuccessResponse (transaction_id msg)),
               put p (set_permission (ep_address ?peer) (now + seconds kPermissionTTL)
                       (set_channel ?num ?peer (now + seconds kChannelTTL) a)) am))"
      using Some a(1) at by (simp add: handleChannelBind_def Let_def)
    show ?thesis
      using Some a eq refused [of 400 "''Bad Request''"] refused [of 403 "''Forbidden''"]
        bound [of p a ?num ?peer] by (auto simp: not_less split: if_splits)
  qed
qed

lemma handleChannelBind_inv:
  assumes "am_inv io am"
  shows "\<exists>resp am'. handleChannelBind io now msg client am = Some (resp, am') \<and> am_inv io am'"
  using assms
proof (cases rule: handleChannelBind_cases [of io am now msg client])
  case (bound p a num peer)
  have "allocation_ok io (set_permission (ep_address peer) (now + seconds kPermissionTTL)
      (set_channel num peer (now + seconds kChannelTTL) a))"
    using bound channel_conflict_False [OF bound(7)]
    by (intro allocation_ok_set_permission allocation_ok_set_channel) auto
  then have "am_inv io (put p (set_permission (ep_address peer) (now + seconds kPermissionTTL)
      (set_channel num peer (now + seconds kChannelTTL) a)) am)"
    using assms bound by (intro am_inv_put) auto
  with bound show ?thesis by auto
qed (use assms in auto)

section \<open>The clients' view\<close>

text \<open>How the building blocks change the map from clients to their allocations.\<close>

lemma owned_put:
  assumes "am_inv io am" "um_find (by_client am) (endpointKey client) = Some p"
  shows "owned (put p a' am) c = (if c = client then Some a' else owned am c)"
proof (cases "c = client")
  case True
  with assms show ?thesis by (simp add: owned_def findByClient_def)
next
  case False
  have "um_find (by_client am) (endpointKey c) \<noteq> Some p"
    using False am_inv_owned [OF assms] am_inv_owned [OF assms(1), of c p] by (metis option.inject)
  with False show ?thesis
    by (cases "um_find (by_client am) (endpointKey c)") (auto simp: owned_def findByClient_def)
qed

lemma owned_insert:
  assumes "am_inv io am"
  shows "owned (insert_allocation a port am) c = (if c = clientAddr a then Some a else owned am c)"
proof (cases "c = clientAddr a")
  case True
  then show ?thesis by (simp add: owned_def findByClient_def insert_allocation_def)
next
  case False
  have "p \<noteq> next_ptr am" if "um_find (by_client am) (endpointKey c) = Some p" for p
    using am_inv_owned [OF assms that] assms
    by (metis am_inv_def order_refl option.distinct(1) tables_ok_def)
  with False show ?thesis
    by (cases "um_find (by_client am) (endpointKey c)")
      (auto simp: owned_def findByClient_def insert_allocation_def)
qed

lemma owned_remove:
  "owned (remove_allocation a client am) c = (if c = client then None else owned am c)"
  by (auto simp: owned_def findByClient_def remove_allocation_def)

lemma owned_Some:
  "owned am client = Some a \<longleftrightarrow>
     (\<exists>p. um_find (by_client am) (endpointKey client) = Some p \<and> store am p = Some a)"
  by (auto simp: owned_def findByClient_def bind_eq_Some_conv)

lemma relayed_Some:
  "relayed am relay = Some a \<longleftrightarrow>
     (\<exists>p. um_find (by_relay am) (endpointKey relay) = Some p \<and> store am p = Some a)"
  by (auto simp: relayed_def findByRelay_def bind_eq_Some_conv)

text \<open>Every allocation found by its relay address is the one its client owns.\<close>

lemma relayed_owned:
  assumes "am_inv io am" "relayed am relay = Some a"
  shows "relayedAddr a = relay \<and> owned am (clientAddr a) = Some a"
proof -
  obtain p where p: "um_find (by_relay am) (endpointKey relay) = Some p" "store am p = Some a"
    using assms(2) by (auto simp: relayed_Some)
  have "tables_ok io am" using assms(1) by (simp add: am_inv_def)
  from tables_ok_relayD [OF this p(1)] p show ?thesis
    by (auto simp: owned_Some)
qed

lemma owned_relayed:
  assumes "am_inv io am" "owned am client = Some a"
  shows "clientAddr a = client \<and> relayed am (relayedAddr a) = Some a \<and> allocation_ok io a
       \<and> ep_address (relayedAddr a) = relay_address am"
proof -
  obtain p where p: "um_find (by_client am) (endpointKey client) = Some p" "store am p = Some a"
    using assms(2) by (auto simp: owned_Some)
  from am_inv_owned [OF assms(1) p(1)] p show ?thesis
    by (auto simp: relayed_Some)
qed

lemma requestedLifetime_le: "requestedLifetime msg \<le> kMaxLifetime"
  by (auto simp: requestedLifetime_def Let_def kDefaultLifetime_def kMaxLifetime_def split: option.splits)

lemma allocate_lifetime_bounds: "0 < unat (allocate_lifetime msg) \<and> unat (allocate_lifetime msg) \<le> 3600"
proof -
  have "unat (requestedLifetime msg) \<le> 3600"
    using requestedLifetime_le [of msg] by (simp add: kMaxLifetime_def word_le_nat_alt)
  then show ?thesis
    by (auto simp: allocate_lifetime_def kDefaultLifetime_def unat_gt_0)
qed

lemma handleAllocate_frame:
  assumes "am_inv io am" "other \<noteq> client"
  shows "owned (snd (handleAllocate io draw now msg client user realm am)) other = owned am other"
proof -
  obtain resp am' where e: "handleAllocate io draw now msg client user realm am = (resp, am')"
    by fastforce
  then show ?thesis
  proof (cases rule: handleAllocate_cases)
    case (success i port)
    with e assms show ?thesis by (simp add: owned_insert new_allocation_def)
  qed (simp add: e)
qed

lemma handleRefresh_frame:
  assumes "am_inv io am" "other \<noteq> client"
  shows "map_option (\<lambda>r. owned (snd r) other) (handleRefresh now msg client user am) = Some (owned am other)"
  using assms(1)
  by (cases rule: handleRefresh_cases [of io am client now msg user])
    (use assms in \<open>auto simp: owned_remove owned_put\<close>)

lemma handleChannelBind_frame:
  assumes "am_inv io am" "other \<noteq> client"
  shows "map_option (\<lambda>r. owned (snd r) other) (handleChannelBind io now msg client am) = Some (owned am other)"
  using assms(1)
  by (cases rule: handleChannelBind_cases [of io am now msg client])
    (use assms in \<open>auto simp: owned_put\<close>)

lemma handleCreatePermission_frame:
  assumes "am_inv io am" "other \<noteq> client"
  shows "map_option (\<lambda>r. owned (snd r) other) (handleCreatePermission io now msg client am) = Some (owned am other)"
proof (cases "um_find (by_client am) (endpointKey client)")
  case None
  then show ?thesis by (simp add: handleCreatePermission_def)
next
  case (Some p)
  then obtain a where "store am p = Some a"
    using am_inv_owned [OF assms(1) Some] by blast
  then show ?thesis
    using assms Some handleCreatePermission_Some [OF Some, of a io now msg]
    by (cases "permit_peers io now (attributes msg) a False") (auto simp: owned_put)
qed

section \<open>What is relayed\<close>

text \<open>
  The contract of one relayed datagram: the sender owns an allocation with a live
  permission for the peer; a peer that is itself a relayed address of this server is
  reached at the client behind it, by a Data indication naming the sender's relayed
  address; any other peer gets the payload as it is.
\<close>

definition relays ::
    "asio_ip \<Rightarrow> time_point \<Rightarrow> Endpoint \<Rightarrow> AllocationManager \<Rightarrow> bytes \<Rightarrow> relay_out \<Rightarrow> bool" where
  "relays io now client am payload out \<longleftrightarrow>
     (\<exists>a peer. owned am client = Some a \<and> hasPermission a (ep_address peer) now
        \<and> \<not> isDeniedAddress io (ep_address peer)
        \<and> (case relayed am peer of
             None \<Rightarrow> out = PeerSend payload peer
           | Some b \<Rightarrow> out = ClientSend (make_data_indication zero_tid
               (ip_or_zero io (ep_address (relayedAddr a))) (ep_port (relayedAddr a)) payload) (clientAddr b)))"

lemma relay_table_total:
  assumes "am_inv io am" "um_find (by_relay am) k = Some p"
  obtains a where "store am p = Some a" "k = endpointKey (relayedAddr a)" "allocation_ok io a"
    "owned am (clientAddr a) = Some a"
proof -
  have "tables_ok io am" using assms(1) by (simp add: am_inv_def)
  from this assms(2) obtain a where "store am p = Some a" "k = endpointKey (relayedAddr a)"
      "um_find (by_client am) (endpointKey (clientAddr a)) = Some p" "allocation_ok io a"
    by (rule tables_ok_relayD)
  with that show ?thesis by (simp add: owned_Some)
qed

lemma handleSend_relays:
  assumes "am_inv io am"
  shows "\<exists>outs. handleSend io now msg client am = Some outs \<and> length outs \<le> 1
     \<and> (\<forall>out \<in> set outs. \<exists>d. findAttr msg Attr_Data = Some d \<and> relays io now client am (avalue d) out)"
proof (cases "um_find (by_client am) (endpointKey client)")
  case None
  then show ?thesis by (simp add: handleSend_def)
next
  case (Some p)
  obtain a where a: "store am p = Some a" "allocation_ok io a"
    using am_inv_owned [OF assms Some] by blast
  then have own: "owned am client = Some a" using Some by (auto simp: owned_Some)
  show ?thesis
  proof (cases "\<exists>pa d. findAttr msg Attr_XorPeerAddress = Some pa \<and> \<not> length (avalue pa) < 8
      \<and> hasPermission a (ep_address (xor_value_peer io (avalue pa))) now \<and> findAttr msg Attr_Data = Some d")
    case False
    with Some a(1) show ?thesis
      by (auto simp: handleSend_def Let_def split: option.splits)
  next
    case True
    then obtain pa d where at: "findAttr msg Attr_XorPeerAddress = Some pa" "\<not> length (avalue pa) < 8"
      "hasPermission a (ep_address (xor_value_peer io (avalue pa))) now" "findAttr msg Attr_Data = Some d"
      by blast
    let ?peer = "xor_value_peer io (avalue pa)"
    have nd: "\<not> isDeniedAddress io (ep_address ?peer)"
      using allocation_ok_permitted [OF a(2) at(3)] .
    show ?thesis
    proof (cases "um_find (by_relay am) (endpointKey ?peer)")
      case none: None
      then have "relayed am ?peer = None" by (simp add: relayed_def findByRelay_def)
      then have "relays io now client am (avalue d) (PeerSend (avalue d) ?peer)"
        using own at(3) nd unfolding relays_def by (intro exI [of _ a] exI [of _ ?peer]) simp
      with Some a(1) at none show ?thesis by (simp add: handleSend_def Let_def)
    next
      case q: (Some q)
      obtain b where b: "store am q = Some b"
        using relay_table_total [OF assms q] by blast
      then have "relayed am ?peer = Some b" using q by (auto simp: relayed_Some)
      then have "relays io now client am (avalue d) (ClientSend (make_data_indication zero_tid
          (ip_or_zero io (ep_address (relayedAddr a))) (ep_port (relayedAddr a)) (avalue d)) (clientAddr b))"
        using own at(3) nd unfolding relays_def by (intro exI [of _ a] exI [of _ ?peer]) simp
      with Some a(1) at q b show ?thesis by (simp add: handleSend_def Let_def)
    qed
  qed
qed

section \<open>The address attributes of a response\<close>

lemma xor_value_port_address [simp]: "xor_value_port (xor_address_value ip prt) = prt"
  using xor_port_xor_port [of prt]
  by (simp add: xor_value_port_def xor_address_value_def Let_def) (simp add: xor_port_def xor.assoc)

lemma xor_value_ip_address [simp]: "xor_value_ip (xor_address_value ip prt) = ip"
  using xor_addr_v4_xor_addr_v4 [of ip]
  by (simp add: xor_value_ip_def xor_address_value_def Let_def) (simp add: xor_addr_v4_def xor.assoc)

lemma allocate_response_parses:
  assumes "length (transaction_id msg) = 12"
  shows "\<exists>m relayed mapped lifetime. parse (allocate_response io msg client port am) (length (allocate_response io msg client port am)) out = Some (Ok, m)
     \<and> msg_class m = SuccessResponse \<and> method m = Allocate \<and> transaction_id m = transaction_id msg
     \<and> findAttr m Attr_XorRelayedAddress = Some relayed \<and> xor_value_port (avalue relayed) = port
     \<and> xor_value_ip (avalue relayed) = ip_or_zero io (relay_address am)
     \<and> findAttr m Attr_XorMappedAddress = Some mapped \<and> xor_value_port (avalue mapped) = ep_port client
     \<and> xor_value_ip (avalue mapped) = ip_or_zero io (ep_address client)
     \<and> findAttr m Attr_Lifetime = Some lifetime \<and> be32_value (avalue lifetime) = allocate_lifetime msg"
  unfolding allocate_response_def
  by (subst parse_build_append [OF assms, where post = "[]", unfolded append_Nil2])
    (simp_all add: attrs_fit_def length_attr_bytes pad4_def findAttr_def be32_value_def)

lemma mk_manager_inv [simp]: "am_inv io (mk_manager addr pmin pmax quota)"
  by (simp add: am_inv_def tables_ok_def quota_ok_def ports_ok_def mk_manager_def user_allocations_def)

section \<open>A small concrete relay\<close>

definition demo_client :: "u16 \<Rightarrow> Endpoint" where
  "demo_client prt = \<lparr>ep_address = ''wxyz'', ep_port = prt\<rparr>"

definition demo_request :: "Method \<Rightarrow> Attribute list \<Rightarrow> TurnMessage" where
  "demo_request m as =
     \<lparr>msg_class = Request, method = m, msg_length = 0, transaction_id = replicate 12 1, attributes = as\<rparr>"

definition demo_allocate :: TurnMessage where
  "demo_allocate = demo_request Allocate [\<lparr>atype = Attr_RequestedTransport, avalue = [17, 0, 0, 0]\<rparr>]"

definition demo_manager0 :: AllocationManager where
  "demo_manager0 = setPeerSendCallback (setClientSendCallback (mk_manager ''abcd'' 49152 65535 10))"

definition demo_manager :: AllocationManager where
  "demo_manager = snd (handleAllocate demo_asio (\<lambda>_. 3) 0 demo_allocate (demo_client 1000) ''9:u'' ''r'' demo_manager0)"

lemma callbacks_inv [simp]:
  "am_inv io (setClientSendCallback am) = am_inv io am"
  "am_inv io (setPeerSendCallback am) = am_inv io am"
  by (simp_all add: am_inv_def tables_ok_def quota_ok_def ports_ok_def user_allocations_def port_range_def
      relay_ep_def setClientSendCallback_def setPeerSendCallback_def)

lemma demo_manager0_inv: "am_inv io demo_manager0"
  by (simp add: demo_manager0_def)

lemma demo_draws: "draws_ok (\<lambda>_. 3) demo_manager0"
  by (simp add: draws_ok_def port_range_def demo_manager0_def mk_manager_def
      setClientSendCallback_def setPeerSendCallback_def)

lemma demo_manager_inv: "am_inv demo_asio demo_manager"
  unfolding demo_manager_def
  using handleAllocate_inv [OF demo_manager0_inv demo_draws surjective_pairing] .

lemma demo_manager_owned:
  "owned demo_manager (demo_client 1000) =
     Some \<lparr>alloc_id = 1, clientAddr = demo_client 1000, relayedAddr = \<lparr>ep_address = ''abcd'', ep_port = 49155\<rparr>,
           alloc_username = ''9:u'', alloc_realm = ''r'', expiresAt = 600000000000,
           permissions = [], channels = []\<rparr>"
  by (simp add: demo_manager_def demo_manager0_def handleAllocate_def demo_allocate_def demo_request_def
      mk_manager_def setClientSendCallback_def setPeerSendCallback_def findAttr_def user_count_def
      user_allocations_def allocatePort_def try_ports.simps requestedLifetime_def kDefaultLifetime_def
      seconds_def owned_def findByClient_def put_def Let_def)

section \<open>Properties\<close>

text \<open>
  Isolation between clients: no request handler changes, adds or removes the
  allocation of any client but the one that sent the request.
\<close>

lemma handlers_touch_only_requester:
  assumes "am_inv io am" "other \<noteq> client"
  shows "owned (snd (handleAllocate io draw now msg client user realm am)) other = owned am other
    \<and> map_option (\<lambda>r. owned (snd r) other) (handleRefresh now msg client user am) = Some (owned am other)
    \<and> map_option (\<lambda>r. owned (snd r) other) (handleCreatePermission io now msg client am) = Some (owned am other)
    \<and> map_option (\<lambda>r. owned (snd r) other) (handleChannelBind io now msg client am) = Some (owned am other)"
  using assms
  by (simp add: handleAllocate_frame handleRefresh_frame handleCreatePermission_frame handleChannelBind_frame)

text \<open>
  The relay's invariant: every request handler returns (none follows a dangling
  pointer) and keeps the tables consistent. In a consistent state both tables index the
  same allocations, a port is marked used exactly when an allocation relays on it and lies
  in the configured range, no user exceeds the quota, no permission or channel names a
  denied address, and channel numbers are in range and unique per peer.
\<close>

lemma handlers_keep_invariant:
  assumes "am_inv io am" "draws_ok draw am"
  shows "am_inv io (snd (handleAllocate io draw now msg client user realm am))
    \<and> (\<exists>r am'. handleRefresh now msg client user am = Some (r, am') \<and> am_inv io am')
    \<and> (\<exists>r am'. handleCreatePermission io now msg client am = Some (r, am') \<and> am_inv io am')
    \<and> (\<exists>r am'. handleChannelBind io now msg client am = Some (r, am') \<and> am_inv io am')"
  using assms handleAllocate_inv [OF assms surjective_pairing] handleRefresh_inv [OF assms(1)]
    handleCreatePermission_inv [OF assms(1)] handleChannelBind_inv [OF assms(1)] by simp

text \<open>
  C17. Success of Allocate: when a client without an allocation gets one, it relays on an
  address no other allocation uses, belongs to the authenticated user, starts with no
  permission and no channel, and lives between one second and one hour; the response
  parses as the success response to this request and tells the client its relayed
  address, its own address and exactly the lifetime that was set.
\<close>

theorem allocate_success:
  assumes "am_inv io am" "length (transaction_id msg) = 12" "owned am client = None"
    "handleAllocate io draw now msg client user realm am = (resp, am')" "owned am' client = Some a"
  shows "relayed am (relayedAddr a) = None \<and> relayed am' (relayedAddr a) = Some a
     \<and> alloc_username a = user \<and> permissions a = [] \<and> channels a = []
     \<and> now + seconds 1 \<le> expiresAt a \<and> expiresAt a \<le> now + seconds 3600
     \<and> (\<exists>m rel mapped lt. parse resp (length resp) out = Some (Ok, m)
          \<and> msg_class m = SuccessResponse \<and> method m = Allocate \<and> transaction_id m = transaction_id msg
          \<and> findAttr m Attr_XorRelayedAddress = Some rel \<and> xor_value_port (avalue rel) = ep_port (relayedAddr a)
          \<and> xor_value_ip (avalue rel) = ip_or_zero io (ep_address (relayedAddr a))
          \<and> findAttr m Attr_XorMappedAddress = Some mapped \<and> xor_value_port (avalue mapped) = ep_port client
          \<and> xor_value_ip (avalue mapped) = ip_or_zero io (ep_address client)
          \<and> findAttr m Attr_Lifetime = Some lt
          \<and> expiresAt a = now + seconds (unat (be32_value (avalue lt))))"
  using assms(4)
proof (cases rule: handleAllocate_cases)
  case (error code reason)
  with assms(3,5) show ?thesis by simp
next
  case (success i port)
  let ?a = "new_allocation now msg client user realm port am"
  have a: "a = ?a"
    using assms(5) owned_insert [OF assms(1), of ?a port client] by (simp add: success(4) new_allocation_def)
  have free: "relayed am (relay_ep am port) = None"
    using assms(1) success(3) by (simp add: am_inv_def tables_ok_def relayed_def findByRelay_def)
  have rel: "relayed am' (relay_ep am port) = Some a"
    by (simp add: success(4) a insert_allocation_def relayed_def findByRelay_def new_allocation_def)
  have "int 1 \<le> int (unat (allocate_lifetime msg))" "int (unat (allocate_lifetime msg)) \<le> int 3600"
    using allocate_lifetime_bounds [of msg] by (auto simp only: of_nat_le_iff)
  then have life: "1 \<le> uint (allocate_lifetime msg)" "uint (allocate_lifetime msg) \<le> 3600" by simp_all
  have p: "resp = allocate_response io msg client port am" by (rule success(5))
  show ?thesis
    using free rel life allocate_response_parses [OF assms(2), of io client port am out]
    unfolding p a by (auto simp: new_allocation_def relay_ep_def seconds_def)
qed

theorem allocate_success_witness:
  "relayed demo_manager (relayedAddr (the (owned demo_manager (demo_client 1000)))) \<noteq> None"
proof -
  have e: "handleAllocate demo_asio (\<lambda>_. 3) 0 demo_allocate (demo_client 1000) ''9:u'' ''r'' demo_manager0 =
      (fst (handleAllocate demo_asio (\<lambda>_. 3) 0 demo_allocate (demo_client 1000) ''9:u'' ''r'' demo_manager0), demo_manager)"
    by (simp add: demo_manager_def)
  have "owned demo_manager0 (demo_client 1000) = None"
    by (simp add: demo_manager0_def mk_manager_def owned_def findByClient_def setClientSendCallback_def setPeerSendCallback_def)
  with allocate_success [OF demo_manager0_inv _ _ e demo_manager_owned]
  show ?thesis by (simp add: demo_manager_owned demo_allocate_def demo_request_def)
qed

text \<open>
  Success of CreatePermission: after a success response every well-formed peer
  address of the request has a permission that is valid for exactly 300 seconds from
  now, no other address gained or lost one, and none of the addresses is denied.
\<close>

lemma create_permission_effect:
  assumes "am_inv io am" "owned am client = Some a"
    "permit_peers io now (attributes msg) a False = (False, a', True)"
  shows "\<exists>am'. handleCreatePermission io now msg client am =
       Some (build (mk_builder CreatePermission SuccessResponse (transaction_id msg)), am')
     \<and> owned am' client = Some a'
     \<and> (\<forall>addr t. hasPermission a' addr t =
          (if addr \<in> set (attr_peers io (attributes msg)) then t < now + seconds 300 else hasPermission a addr t))
     \<and> (\<forall>addr \<in> set (attr_peers io (attributes msg)). \<not> isDeniedAddress io addr)"
proof -
  obtain p where p: "um_find (by_client am) (endpointKey client) = Some p" "store am p = Some a"
    using assms(2) by (auto simp: owned_Some)
  have "handleCreatePermission io now msg client am =
     Some (build (mk_builder CreatePermission SuccessResponse (transaction_id msg)), put p a' am)"
    using handleCreatePermission_Some [OF p assms(3)] by simp
  moreover have "owned (put p a' am) client = Some a'"
    using owned_put [OF assms(1) p(1)] by simp
  ultimately show ?thesis
    using permit_peers_effect [OF assms(3)] by (auto simp: kPermissionTTL_def)
qed

end
