(* ===== verification/Turn_Dispatcher.thy ===== *)
theory Turn_Dispatcher
  imports Turn_Auth Allocation_Manager
begin

text \<open>
  \<open>core/turn_dispatcher.cpp\<close>: one packet, from a transport to the answer and the relayed
  data. \<open>main.cpp\<close> runs one \<open>io_context\<close> on one thread, so packets are processed one
  after the other. A transport is named by a number; what a packet makes the server send
  is a list of (transport, bytes, destination). The outside world during a packet (the
  third-party libraries, the random draws, the clocks) is the record \<open>world\<close>.
  Logging is left out; \<open>None\<close> is an escaped exception or undefined behaviour.
\<close>

section \<open>State\<close>

record world =
  w_io :: asio_ip
  w_ssl :: openssl
  w_draw :: "nat \<Rightarrow> u16"
  w_rnd :: "nat \<Rightarrow> bytes option"
  w_now :: time_point
  w_wall :: int

type_synonym transport_id = nat
type_synonym packet_out = "transport_id \<times> bytes \<times> Endpoint"

record TurnDispatcher =
  nonce_manager :: NonceManager
  hmac_validator :: HmacValidator
  td_realm :: string
  alloc_manager :: AllocationManager
  current_transport :: "transport_id option"

definition mk_dispatcher :: "string \<Rightarrow> string \<Rightarrow> string \<Rightarrow> u16 \<Rightarrow> u16 \<Rightarrow> TurnDispatcher" where
  "mk_dispatcher realm secret relay_addr port_min port_max =
     \<lparr>nonce_manager = mk_nonce_manager 3600, hmac_validator = \<lparr>shared_secret = secret\<rparr>, td_realm = realm,
      alloc_manager = setPeerSendCallback (setClientSendCallback (mk_manager relay_addr port_min port_max 10)),
      current_transport = None\<rparr>"

text \<open>Both callbacks send through the current transport, when there is one.\<close>

fun relay_send :: "transport_id option \<Rightarrow> relay_out \<Rightarrow> packet_out list" where
  "relay_send None out = []"
| "relay_send (Some t) (ClientSend data to_ep) = [(t, data, to_ep)]"
| "relay_send (Some t) (PeerSend data to_ep) = [(t, data, to_ep)]"

section \<open>signResponse\<close>

definition signResponse :: "openssl \<Rightarrow> string \<Rightarrow> bytes \<Rightarrow> string \<Rightarrow> string \<Rightarrow> bytes option" where
  "signResponse ssl realm resp username password =
     (if length resp < 20 then Some resp
      else if decodeClass (be16 (resp ! 0) (resp ! 1)) \<noteq> SuccessResponse then Some resp
      else do {
        let key = long_term_key_md5 ssl username realm password;
        let mi_pos = length resp;
        let adjusted_len = (word_of_nat (mi_pos - 20 + 4 + 20) :: u16);
        let buf = set_length_field adjusted_len (take mi_pos resp);
        mi \<leftarrow> hmac_sha1 ssl key (string_of_bytes buf);
        let result = set_length_field adjusted_len resp;
        Some (result @ [0x00, 0x08] @ [0x00, 0x14] @ mi) })"

section \<open>handleStun\<close>

text \<open>The three branches that answer with a fresh challenge differ in code and reason only.\<close>

definition send_challenge ::
    "world \<Rightarrow> TurnMessage \<Rightarrow> Endpoint \<Rightarrow> transport_id \<Rightarrow> u16 \<Rightarrow> string \<Rightarrow> TurnDispatcher
      \<Rightarrow> (packet_out list \<times> TurnDispatcher) option" where
  "send_challenge w msg src t code reason td = do {
     (ch, nm) \<leftarrow> makeChallenge (w_rnd w) (w_now w) (td_realm td) (nonce_manager td);
     let resp = build (addAttr Attr_Nonce (bytes_of_string (chal_nonce ch))
                  (addAttr Attr_Realm (bytes_of_string (chal_realm ch))
                    (addErrorCode code reason
                      (mk_builder (method msg) ErrorResponse (transaction_id msg)))));
     Some ([(t, resp, src)], td\<lparr>nonce_manager := nm\<rparr>) }"

definition run_method ::
    "world \<Rightarrow> TurnMessage \<Rightarrow> Endpoint \<Rightarrow> string \<Rightarrow> string \<Rightarrow> AllocationManager
      \<Rightarrow> (bytes \<times> AllocationManager) option" where
  "run_method w msg src username realm am =
     (case method msg of
        Allocate \<Rightarrow> Some (handleAllocate (w_io w) (w_draw w) (w_now w) msg src username realm am)
      | Refresh \<Rightarrow> handleRefresh (w_now w) msg src username am
      | CreatePermission \<Rightarrow> handleCreatePermission (w_io w) (w_now w) msg src am
      | ChannelBind \<Rightarrow> handleChannelBind (w_io w) (w_now w) msg src am
      | _ \<Rightarrow> Some (make_error (transaction_id msg) 400 ''Bad Request'', am))"

definition allocated_username :: "TurnMessage \<Rightarrow> Endpoint \<Rightarrow> AllocationManager \<Rightarrow> string option" where
  "allocated_username msg src am =
     (if method msg \<noteq> Allocate then
        (case findByClient am src of None \<Rightarrow> Some [] | Some p \<Rightarrow> map_option alloc_username (store am p))
      else Some [])"

definition message_username :: "TurnMessage \<Rightarrow> string" where
  "message_username msg =
     (case findAttr msg Attr_Username of None \<Rightarrow> [] | Some a \<Rightarrow> string_of_bytes (avalue a))"

definition handleStun ::
    "world \<Rightarrow> TurnMessage \<Rightarrow> bytes \<Rightarrow> nat \<Rightarrow> Endpoint \<Rightarrow> transport_id \<Rightarrow> TurnDispatcher
      \<Rightarrow> (packet_out list \<times> TurnDispatcher) option" where
  "handleStun w msg raw raw_len src t td0 = (
     let td = td0\<lparr>current_transport := Some t\<rparr> in
     if msg_class msg = Indication then
       (if method msg = Send then do {
          outs \<leftarrow> handleSend (w_io w) (w_now w) msg src (alloc_manager td);
          Some (concat (map (relay_send (current_transport td)) outs), td) }
        else Some ([], td))
     else do {
       allocated \<leftarrow> allocated_username msg src (alloc_manager td);
       auth_result \<leftarrow> authenticate (w_ssl w) (td_realm td) (nonce_manager td) (hmac_validator td)
                        (w_now w) (w_wall w) msg raw raw_len allocated;
       case auth_result of
         MissingCredentials \<Rightarrow> send_challenge w msg src t 401 ''Unauthorized'' td
       | StaleNonce \<Rightarrow> send_challenge w msg src t 438 ''Stale Nonce'' td
       | BadIntegrity \<Rightarrow> send_challenge w msg src t 401 ''Unauthorized'' td
       | CredentialsExpired \<Rightarrow> send_challenge w msg src t 401 ''Unauthorized'' td
       | WrongCredentials \<Rightarrow> Some ([(t, make_error (transaction_id msg) 441 ''Wrong Credentials'', src)], td)
       | AuthOk \<Rightarrow> do {
           let username = message_username msg;
           password \<leftarrow> getPassword (w_ssl w) (hmac_validator td) username;
           (resp, am) \<leftarrow> run_method w msg src username (td_realm td) (alloc_manager td);
           let td = td\<lparr>alloc_manager := am\<rparr>;
           if resp \<noteq> [] then do {
             signed \<leftarrow> signResponse (w_ssl w) (td_realm td) resp username password;
             Some ([(t, signed, src)], td) }
           else Some ([], td) } })"

section \<open>handleChannelData\<close>

text \<open>
  The search for the peer's channel: the first binding, in the order of the table, whose
  peer is the sender's relayed address; 0 when there is none. Its expiry is not looked at.
\<close>

definition peer_channel :: "Endpoint \<Rightarrow> (u16, ChannelBinding) umap \<Rightarrow> u16" where
  "peer_channel relay chs =
     (case find (\<lambda>(num, cb). ep_address (cb_peer cb) = ep_address relay
                             \<and> ep_port (cb_peer cb) = ep_port relay) chs of
        None \<Rightarrow> 0 | Some (num, cb) \<Rightarrow> num)"

definition handleChannelData ::
    "world \<Rightarrow> bytes \<Rightarrow> nat \<Rightarrow> Endpoint \<Rightarrow> transport_id \<Rightarrow> TurnDispatcher \<Rightarrow> packet_out list option" where
  "handleChannelData w data sz src t td = do {
     (r, ch) \<leftarrow> parse_channel_data data sz \<lparr>channel_number = 0, ch_data = []\<rparr>;
     if r \<noteq> ChOk then Some []
     else case findByClient (alloc_manager td) src of
       None \<Rightarrow> Some []
     | Some p \<Rightarrow> do {
         alloc \<leftarrow> store (alloc_manager td) p;
         case um_find (channels alloc) (channel_number ch) of
           None \<Rightarrow> Some []
         | Some binding \<Rightarrow>
             let peer = cb_peer binding
             in if \<not> hasPermission alloc (ep_address peer) (w_now w) then Some []
                else case findByRelay (alloc_manager td) peer of
                  Some q \<Rightarrow> do {
                    peer_alloc \<leftarrow> store (alloc_manager td) q;
                    let pch = peer_channel (relayedAddr alloc) (channels peer_alloc);
                    if pch \<noteq> 0
                    then Some [(t, make_channel_data pch (ch_data ch), clientAddr peer_alloc)]
                    else case make_address_v4 (w_io w) (ep_address (relayedAddr alloc)) of
                      None \<Rightarrow> Some []
                    | Some ip \<Rightarrow>
                        Some [(t, make_data_indication zero_tid ip (ep_port (relayedAddr alloc)) (ch_data ch),
                               clientAddr peer_alloc)] }
                | None \<Rightarrow> Some [(t, ch_data ch, peer)] } }"

section \<open>onPacket\<close>

definition default_message :: TurnMessage where
  "default_message = \<lparr>msg_class = Request, method = Unknown, msg_length = 0, transaction_id = replicate 12 0, attributes = []\<rparr>"

definition onPacket ::
    "world \<Rightarrow> bytes \<Rightarrow> nat \<Rightarrow> Endpoint \<Rightarrow> transport_id \<Rightarrow> TurnDispatcher
      \<Rightarrow> (packet_out list \<times> TurnDispatcher) option" where
  "onPacket w data sz src t td =
     (if sz = 0 then Some ([], td)
      else do {
        b0 \<leftarrow> rd data 0;
        if b0 AND 0xC0 = 0x40 then do {
          outs \<leftarrow> handleChannelData w data sz src t td;
          Some (outs, td) }
        else if b0 AND 0xC0 = 0 then do {
          (result, msg) \<leftarrow> parse data sz default_message;
          if result \<noteq> Ok then Some ([], td)
          else handleStun w msg data sz src t td }
        else Some ([], td) })"

section \<open>Invariant and admissible surroundings\<close>

definition td_inv :: "asio_ip \<Rightarrow> TurnDispatcher \<Rightarrow> bool" where
  "td_inv io td \<longleftrightarrow> am_inv io (alloc_manager td) \<and> um_ok (nm_store (nonce_manager td))"

text \<open>
  What the surroundings promise during a packet: the libraries behave, the port draws lie
  in the range of the distribution, \<open>RAND_bytes\<close> yields 16 bytes and eventually a nonce
  that is not in use.
\<close>

definition world_ok :: "world \<Rightarrow> TurnDispatcher \<Rightarrow> bool" where
  "world_ok w td \<longleftrightarrow> openssl_ok (w_ssl w) \<and> asio_ok (w_io w) \<and> draws_ok (w_draw w) (alloc_manager td)
     \<and> (\<forall>i. \<exists>b. w_rnd w i = Some b \<and> length b = 16)
     \<and> (\<exists>k n. generateRandom (w_rnd w) k = Some n \<and> um_find (nm_store (nonce_manager td)) n = None)"

lemma makeChallenge_returns:
  assumes "world_ok w td"
  obtains nonce where
    "makeChallenge (w_rnd w) (w_now w) realm (nonce_manager td) =
       Some (\<lparr>chal_realm = realm, chal_nonce = nonce\<rparr>,
             (nonce_manager td)\<lparr>nm_store := um_set nonce (w_now w + nm_ttl (nonce_manager td)) (nm_store (nonce_manager td))\<rparr>)"
    "um_find (nm_store (nonce_manager td)) nonce = None" "length nonce = 32"
proof -
  obtain k n where "generateRandom (w_rnd w) k = Some n" "um_find (nm_store (nonce_manager td)) n = None"
    using assms by (auto simp: world_ok_def)
  then obtain nonce where l: "nonce_loop (w_rnd w) (nm_store (nonce_manager td)) 0 = Some nonce"
    using nonce_loop_returns [of 0 k "w_rnd w" n] assms by (force simp: world_ok_def)
  from nonce_loop_Some [OF this] obtain j where j: "generateRandom (w_rnd w) j = Some nonce"
    and f: "um_find (nm_store (nonce_manager td)) nonce = None" by blast
  obtain b where b: "w_rnd w j = Some b" "length b = 16"
    using assms by (auto simp: world_ok_def)
  have "length (concat (map hex_byte xs)) = 2 * length xs" for xs
    by (induction xs) (auto simp: hex_byte_def)
  with j b have "length nonce = 32" by (auto simp: generateRandom_def)
  with l f that show ?thesis by (auto simp: makeChallenge_def nonce_generate_def)
qed

lemma send_challenge_returns:
  assumes "world_ok w td"
  obtains nonce where
    "send_challenge w msg src t code reason td =
       Some ([(t, build (add_attrs
           [\<lparr>atype = Attr_ErrorCode, avalue = error_code_value code reason\<rparr>,
            \<lparr>atype = Attr_Realm, avalue = bytes_of_string (td_realm td)\<rparr>,
            \<lparr>atype = Attr_Nonce, avalue = bytes_of_string nonce\<rparr>]
           (mk_builder (method msg) ErrorResponse (transaction_id msg))), src)],
         td\<lparr>nonce_manager := (nonce_manager td)\<lparr>nm_store :=
              um_set nonce (w_now w + nm_ttl (nonce_manager td)) (nm_store (nonce_manager td))\<rparr>\<rparr>)"
    "um_find (nm_store (nonce_manager td)) nonce = None" "length nonce = 32"
  using makeChallenge_returns [OF assms, of "td_realm td"]
  by (force simp: send_challenge_def add_attrs_def addErrorCode_def Let_def)

lemma signResponse_success:
  "20 \<le> length resp \<Longrightarrow> decodeClass (be16 (resp ! 0) (resp ! 1)) = SuccessResponse \<Longrightarrow>
     signResponse ssl realm resp user pw = sign_md5 ssl realm user pw resp"
  by (simp add: signResponse_def sign_md5_def Let_def)

lemma signResponse_other:
  "length resp < 20 \<or> decodeClass (be16 (resp ! 0) (resp ! 1)) \<noteq> SuccessResponse \<Longrightarrow>
     signResponse ssl realm resp user pw = Some resp"
  by (auto simp: signResponse_def)

lemma signResponse_total: "openssl_ok ssl \<Longrightarrow> \<exists>s. signResponse ssl realm resp user pw = Some s"
  using signResponse_success signResponse_other sign_md5_total by (metis not_less)

lemma getPassword_total: "openssl_ok ssl \<Longrightarrow> \<exists>p. getPassword ssl hv u = Some p"
  using computeHmac_ok [of ssl hv u] by (auto simp: getPassword_def)

lemma run_method_inv:
  assumes "am_inv (w_io w) am" "draws_ok (w_draw w) am"
  shows "\<exists>resp am'. run_method w msg src user realm am = Some (resp, am') \<and> am_inv (w_io w) am'"
proof (cases "method msg")
  case Allocate
  then show ?thesis
    using handleAllocate_inv [OF assms surjective_pairing] by (auto simp: run_method_def) (metis prod.collapse)
next
  case Refresh
  then show ?thesis using handleRefresh_inv [OF assms(1)] by (simp add: run_method_def)
next
  case CreatePermission
  then show ?thesis using handleCreatePermission_inv [OF assms(1)] by (simp add: run_method_def)
next
  case ChannelBind
  then show ?thesis using handleChannelBind_inv [OF assms(1)] by (simp add: run_method_def)
qed (use assms in \<open>auto simp: run_method_def\<close>)

lemma run_method_frame:
  assumes "am_inv (w_io w) am" "run_method w msg src user realm am = Some (resp, am')" "other \<noteq> src"
  shows "owned am' other = owned am other"
proof (cases "method msg")
  case Allocate
  then show ?thesis
    using assms(2) handleAllocate_frame [OF assms(1,3)] by (auto simp: run_method_def) (metis snd_conv)
next
  case Refresh
  then show ?thesis using assms(2) handleRefresh_frame [OF assms(1,3), of "w_now w" msg user] by (auto simp: run_method_def)
next
  case CreatePermission
  then show ?thesis using assms(2) handleCreatePermission_frame [OF assms(1,3), of "w_now w" msg] by (auto simp: run_method_def)
next
  case ChannelBind
  then show ?thesis using assms(2) handleChannelBind_frame [OF assms(1,3), of "w_now w" msg] by (auto simp: run_method_def)
qed (use assms in \<open>auto simp: run_method_def\<close>)

lemma allocated_username_total:
  assumes "am_inv io am"
  shows "\<exists>u. allocated_username msg src am = Some u"
proof (cases "um_find (by_client am) (endpointKey src)")
  case None
  then show ?thesis by (simp add: allocated_username_def findByClient_def)
next
  case (Some p)
  then show ?thesis
    using am_inv_owned [OF assms Some] by (auto simp: allocated_username_def findByClient_def)
qed

section \<open>Every packet is processed, and the invariant kept\<close>

lemma td_inv_simps [simp]:
  "td_inv io (td\<lparr>current_transport := ct\<rparr>) = td_inv io td"
  by (simp add: td_inv_def)

lemma world_ok_simps [simp]: "world_ok w (td\<lparr>current_transport := ct\<rparr>) = world_ok w td"
  by (simp add: world_ok_def)

lemma send_challenge_inv:
  assumes "td_inv (w_io w) td" "world_ok w td"
  shows "\<exists>outs td'. send_challenge w msg src t code reason td = Some (outs, td')
     \<and> td_inv (w_io w) td' \<and> alloc_manager td' = alloc_manager td"
proof (rule send_challenge_returns [OF assms(2), of msg src t code reason])
qed (use assms(1) in \<open>simp add: td_inv_def\<close>)

text \<open>The accepted request.\<close>

definition serve ::
    "world \<Rightarrow> TurnMessage \<Rightarrow> Endpoint \<Rightarrow> transport_id \<Rightarrow> TurnDispatcher \<Rightarrow> (packet_out list \<times> TurnDispatcher) option" where
  "serve w msg src t td = do {
     password \<leftarrow> getPassword (w_ssl w) (hmac_validator td) (message_username msg);
     (resp, am) \<leftarrow> run_method w msg src (message_username msg) (td_realm td) (alloc_manager td);
     if resp \<noteq> [] then do {
       signed \<leftarrow> signResponse (w_ssl w) (td_realm td) resp (message_username msg) password;
       Some ([(t, signed, src)], td\<lparr>alloc_manager := am\<rparr>) }
     else Some ([], td\<lparr>alloc_manager := am\<rparr>) }"

lemma serve_inv:
  assumes "td_inv (w_io w) td" "world_ok w td"
  shows "\<exists>outs td'. serve w msg src t td = Some (outs, td') \<and> td_inv (w_io w) td'"
proof -
  have ssl: "openssl_ok (w_ssl w)" and d: "draws_ok (w_draw w) (alloc_manager td)"
    and inv: "am_inv (w_io w) (alloc_manager td)"
    using assms by (auto simp: world_ok_def td_inv_def)
  obtain pw where pw: "getPassword (w_ssl w) (hmac_validator td) (message_username msg) = Some pw"
    using getPassword_total [OF ssl] by blast
  obtain resp am where rm: "run_method w msg src (message_username msg) (td_realm td) (alloc_manager td) = Some (resp, am)"
    "am_inv (w_io w) am"
    using run_method_inv [OF inv d] by blast
  obtain s where "signResponse (w_ssl w) (td_realm td) resp (message_username msg) pw = Some s"
    using signResponse_total [OF ssl] by blast
  with pw rm assms(1) show ?thesis by (auto simp: serve_def td_inv_def)
qed

lemma handleStun_request:
  assumes "td_inv (w_io w) td" "world_ok w td" "raw_len \<le> length raw" "msg_class msg \<noteq> Indication"
  obtains allocated r where "allocated_username msg src (alloc_manager td) = Some allocated"
    "authenticate (w_ssl w) (td_realm td) (nonce_manager td) (hmac_validator td) (w_now w) (w_wall w)
       msg raw raw_len allocated = Some r"
    "handleStun w msg raw raw_len src t td =
       (case r of
          AuthOk \<Rightarrow> serve w msg src t (td\<lparr>current_transport := Some t\<rparr>)
        | WrongCredentials \<Rightarrow> Some ([(t, make_error (transaction_id msg) 441 ''Wrong Credentials'', src)],
                               td\<lparr>current_transport := Some t\<rparr>)
        | StaleNonce \<Rightarrow> send_challenge w msg src t 438 ''Stale Nonce'' (td\<lparr>current_transport := Some t\<rparr>)
        | _ \<Rightarrow> send_challenge w msg src t 401 ''Unauthorized'' (td\<lparr>current_transport := Some t\<rparr>))"
proof -
  have inv: "am_inv (w_io w) (alloc_manager td)" and ssl: "openssl_ok (w_ssl w)"
    using assms(1,2) by (simp_all add: td_inv_def world_ok_def)
  obtain allocated where al: "allocated_username msg src (alloc_manager td) = Some allocated"
    using allocated_username_total [OF inv] by blast
  obtain r where r: "authenticate (w_ssl w) (td_realm td) (nonce_manager td) (hmac_validator td) (w_now w) (w_wall w)
       msg raw raw_len allocated = Some r"
    using authenticate_total [OF ssl assms(3)] by blast
  have "handleStun w msg raw raw_len src t td =
       (case r of
          AuthOk \<Rightarrow> serve w msg src t (td\<lparr>current_transport := Some t\<rparr>)
        | WrongCredentials \<Rightarrow> Some ([(t, make_error (transaction_id msg) 441 ''Wrong Credentials'', src)],
                               td\<lparr>current_transport := Some t\<rparr>)
        | StaleNonce \<Rightarrow> send_challenge w msg src t 438 ''Stale Nonce'' (td\<lparr>current_transport := Some t\<rparr>)
        | _ \<Rightarrow> send_challenge w msg src t 401 ''Unauthorized'' (td\<lparr>current_transport := Some t\<rparr>))"
    using al r assms(4) by (cases r) (simp_all add: handleStun_def Let_def serve_def cong: if_cong)
  with al r show ?thesis by (rule that)
qed

lemma handleStun_inv:
  assumes "td_inv (w_io w) td" "world_ok w td" "raw_len \<le> length raw"
  shows "\<exists>outs td'. handleStun w msg raw raw_len src t td = Some (outs, td') \<and> td_inv (w_io w) td'"
proof (cases "msg_class msg = Indication")
  case True
  have "am_inv (w_io w) (alloc_manager td)" using assms(1) by (simp add: td_inv_def)
  with True assms(1) handleSend_relays [OF this, of "w_now w" msg src] show ?thesis
    by (auto simp: handleStun_def Let_def)
next
  case False
  let ?td = "td\<lparr>current_transport := Some t\<rparr>"
  from assms False obtain allocated r where
    "handleStun w msg raw raw_len src t td =
       (case r of
          AuthOk \<Rightarrow> serve w msg src t ?td
        | WrongCredentials \<Rightarrow> Some ([(t, make_error (transaction_id msg) 441 ''Wrong Credentials'', src)], ?td)
        | StaleNonce \<Rightarrow> send_challenge w msg src t 438 ''Stale Nonce'' ?td
        | _ \<Rightarrow> send_challenge w msg src t 401 ''Unauthorized'' ?td)"
    by (rule handleStun_request)
  then show ?thesis
    using assms serve_inv [of w ?td msg src t] send_challenge_inv [of w ?td msg src t 401 "''Unauthorized''"]
      send_challenge_inv [of w ?td msg src t 438 "''Stale Nonce''"]
    by (cases r) auto
qed

lemma handleChannelData_total:
  assumes "am_inv (w_io w) (alloc_manager td)" "sz \<le> length data"
  shows "\<exists>outs. handleChannelData w data sz src t td = Some outs"
proof -
  obtain r ch where "parse_channel_data data sz \<lparr>channel_number = 0, ch_data = []\<rparr> = Some (r, ch)"
    using parse_channel_data_safe [OF assms(2)] by blast
  moreover have "\<exists>a. store (alloc_manager td) p = Some a"
    if "um_find (by_client (alloc_manager td)) (endpointKey src) = Some p" for p
    using am_inv_owned [OF assms(1) that] by blast
  moreover have "\<exists>a. store (alloc_manager td) q = Some a"
    if "um_find (by_relay (alloc_manager td)) (endpointKey peer) = Some q" for peer q
    using relay_table_total [OF assms(1) that] by blast
  ultimately show ?thesis
    by (fastforce simp: handleChannelData_def findByClient_def findByRelay_def Let_def split: option.splits)
qed

lemma onPacket_inv:
  assumes "td_inv (w_io w) td" "world_ok w td" "sz \<le> length data"
  shows "\<exists>outs td'. onPacket w data sz src t td = Some (outs, td') \<and> td_inv (w_io w) td'"
proof (cases "sz = 0")
  case True
  with assms show ?thesis by (simp add: onPacket_def)
next
  case False
  then have "rd data 0 = Some (data ! 0)" using assms(3) by (cases data) (auto simp: rd_def)
  moreover obtain outs where "handleChannelData w data sz src t td = Some outs"
    using handleChannelData_total [of w td sz data] assms by (auto simp: td_inv_def)
  moreover obtain r m where "parse data sz default_message = Some (r, m)"
    using parse_safe [OF assms(3)] by blast
  ultimately show ?thesis
    using False assms handleStun_inv [OF assms] by (simp add: onPacket_def)
qed

section \<open>Who can change what\<close>

lemma send_challenge_allocs:
  "send_challenge w msg src t code reason td = Some (outs, td') \<Longrightarrow>
     alloc_manager td' = alloc_manager td \<and> (\<exists>resp. outs = [(t, resp, src)])"
  by (auto simp: send_challenge_def bind_eq_Some_conv Let_def split: prod.splits)

lemma serve_frame:
  assumes "am_inv (w_io w) (alloc_manager td)" "serve w msg src t td = Some (outs, td')" "other \<noteq> src"
  shows "owned (alloc_manager td') other = owned (alloc_manager td) other"
  using assms(2) run_method_frame [OF assms(1) _ assms(3)]
  by (auto simp: serve_def bind_eq_Some_conv split: if_splits)

text \<open>The packet that changed an allocation was an accepted request of its client.\<close>

lemma onPacket_change:
  assumes "td_inv (w_io w) td" "world_ok w td" "sz \<le> length data"
    and run: "onPacket w data sz src t td = Some (outs, td')"
    and change: "owned (alloc_manager td') client \<noteq> owned (alloc_manager td) client"
  shows "client = src \<and> (\<exists>msg allocated. parse data sz default_message = Some (Ok, msg)
     \<and> msg_class msg \<noteq> Indication
     \<and> allocated_username msg src (alloc_manager td) = Some allocated
     \<and> authenticate (w_ssl w) (td_realm td) (nonce_manager td) (hmac_validator td) (w_now w) (w_wall w)
         msg data sz allocated = Some AuthOk)"
proof -
  obtain msg where p: "parse data sz default_message = Some (Ok, msg)"
    and h: "handleStun w msg data sz src t td = Some (outs, td')"
    using run change
    by (auto simp: onPacket_def bind_eq_Some_conv split: if_splits prod.splits)
  have req: "msg_class msg \<noteq> Indication"
    using h change by (auto simp: handleStun_def Let_def bind_eq_Some_conv split: if_splits)
  let ?td = "td\<lparr>current_transport := Some t\<rparr>"
  from assms(1-3) req obtain allocated r where al: "allocated_username msg src (alloc_manager td) = Some allocated"
    and au: "authenticate (w_ssl w) (td_realm td) (nonce_manager td) (hmac_validator td) (w_now w) (w_wall w)
       msg data sz allocated = Some r"
    and eq: "handleStun w msg data sz src t td =
       (case r of
          AuthOk \<Rightarrow> serve w msg src t ?td
        | WrongCredentials \<Rightarrow> Some ([(t, make_error (transaction_id msg) 441 ''Wrong Credentials'', src)], ?td)
        | StaleNonce \<Rightarrow> send_challenge w msg src t 438 ''Stale Nonce'' ?td
        | _ \<Rightarrow> send_challenge w msg src t 401 ''Unauthorized'' ?td)"
    by (rule handleStun_request)
  have "r = AuthOk"
    using h [unfolded eq] change by (cases r) (auto dest: send_challenge_allocs)
  moreover have "client = src"
    using h [unfolded eq] change serve_frame [of w ?td msg src t outs td' client] assms(1) \<open>r = AuthOk\<close>
    by (auto simp: td_inv_def)
  ultimately show ?thesis using p req al au by blast
qed

section \<open>Responses\<close>

text \<open>
  What a handler answers: a message assembled by the builder for the request's
  transaction, short and without an integrity attribute.
\<close>

definition plain_response :: "bytes \<Rightarrow> bytes \<Rightarrow> bool" where
  "plain_response tid resp \<longleftrightarrow>
     (\<exists>m c as. resp = build (add_attrs as (mk_builder m c tid)) \<and> length (attrs_bytes as) < 1000
        \<and> (\<forall>a \<in> set as. atype a \<noteq> Attr_MessageIntegrity))"

lemma plain_responseI:
  "length (attrs_bytes as) < 1000 \<Longrightarrow> (\<And>a. a \<in> set as \<Longrightarrow> atype a \<noteq> Attr_MessageIntegrity) \<Longrightarrow>
     plain_response tid (build (add_attrs as (mk_builder m c tid)))"
  unfolding plain_response_def by blast

lemma plain_make_error: "length reason < 100 \<Longrightarrow> plain_response tid (make_error tid code reason)"
  unfolding make_error_eq using pad4_le [of "length reason + 4"]
  by (intro plain_responseI) (auto simp: length_attr_bytes add.commute)

lemma plain_empty: "plain_response tid (build (mk_builder m c tid))"
  using plain_responseI [of "[]" tid m c] by (simp add: add_attrs_def)

lemma plain_lifetime: "plain_response tid (build (addLifetime lt (mk_builder m c tid)))"
  using plain_responseI [of "[\<lparr>atype = Attr_Lifetime, avalue = [byte32 24 lt, byte32 16 lt, byte32 8 lt, byte32 0 lt]\<rparr>]" tid m c]
  by (simp add: add_attrs_def addLifetime_def length_attr_bytes pad4_def)

lemma plain_allocate: "plain_response (transaction_id msg) (allocate_response io msg client port am)"
  unfolding allocate_response_def by (intro plain_responseI) (auto simp: length_attr_bytes pad4_def)

lemma allocate_refusal_reason: "allocate_refusal msg client user am = Some (code, reason) \<Longrightarrow> length reason < 100"
  by (auto simp: allocate_refusal_def split: option.splits if_splits)

lemmas plain_intros = plain_make_error plain_empty plain_lifetime plain_allocate

lemma handleAllocate_plain:
  assumes "handleAllocate io draw now msg client user realm am = (resp, am')"
  shows "plain_response (transaction_id msg) resp"
  using assms
proof (cases rule: handleAllocate_cases)
  case (error code reason)
  then have "length reason < 100" by (auto dest: allocate_refusal_reason)
  with error show ?thesis by (simp add: plain_make_error)
qed (simp add: plain_allocate)

lemma handleCreatePermission_plain:
  assumes "handleCreatePermission io now msg client am = Some (resp, am')"
  shows "plain_response (transaction_id msg) resp"
proof (cases "um_find (by_client am) (endpointKey client)")
  case None
  with assms show ?thesis by (auto simp: handleCreatePermission_def intro!: plain_intros)
next
  case (Some p)
  with assms obtain a where a: "store am p = Some a"
    by (auto simp: handleCreatePermission_def bind_eq_Some_conv)
  obtain denied a' found where "permit_peers io now (attributes msg) a False = (denied, a', found)"
    by (metis prod_cases3)
  from handleCreatePermission_Some [OF Some a this] assms show ?thesis
    by (auto intro!: plain_intros split: if_splits)
qed

lemma run_method_plain:
  assumes "am_inv (w_io w) am" "run_method w msg src user realm am = Some (resp, am')"
  shows "plain_response (transaction_id msg) resp"
proof (cases "method msg")
  case Allocate
  with assms show ?thesis by (auto simp: run_method_def intro: handleAllocate_plain)
next
  case Refresh
  with assms show ?thesis
    by (auto simp: run_method_def handleRefresh_def bind_eq_Some_conv Let_def
        intro!: plain_intros split: option.splits if_splits)
next
  case CreatePermission
  with assms show ?thesis by (auto simp: run_method_def intro: handleCreatePermission_plain)
next
  case ChannelBind
  from assms(1) show ?thesis
    by (cases rule: handleChannelBind_cases [of "w_io w" am "w_now w" msg src])
      (use assms(2) ChannelBind in \<open>auto simp: run_method_def intro!: plain_intros\<close>)
qed (use assms in \<open>auto simp: run_method_def intro!: plain_intros\<close>)

text \<open>Signing a plain response: unchanged, or a success response that verifies.\<close>

lemma signResponse_plain:
  assumes "openssl_ok ssl" "length tid = 12" "plain_response tid resp"
    "signResponse ssl realm resp user pw = Some sresp"
  shows "\<exists>m. parse sresp (length sresp) out = Some (Ok, m) \<and> transaction_id m = tid
     \<and> (msg_class m = SuccessResponse \<longrightarrow>
          verifyMessageIntegrityMd5 ssl realm sresp (length sresp) user pw = Some True)"
proof -
  obtain m c as where r: "resp = build (add_attrs as (mk_builder m c tid))" "length (attrs_bytes as) < 1000"
    "\<forall>a \<in> set as. atype a \<noteq> Attr_MessageIntegrity"
    using assms(3) by (auto simp: plain_response_def)
  have fit: "attrs_fit as" using r(2) by (simp add: attrs_fit_def)
  have hd: "20 \<le> length resp" "decodeClass (be16 (resp ! 0) (resp ! 1)) = c"
    using assms(2) by (simp_all add: r(1) build_layout add_attrs_eq [OF fit] mk_builder_def)
  show ?thesis
  proof (cases "c = SuccessResponse")
    case False
    then have "sresp = resp" using signResponse_other hd(2) assms(4) by (metis option.inject)
    then show ?thesis
      using parse_build_append [OF assms(2) fit, of m c "[]" out] False by (simp add: r(1))
  next
    case True
    then have s: "sign_md5 ssl realm user pw (build (add_attrs as (mk_builder m c tid))) = Some sresp"
      using signResponse_success [OF hd(1)] hd(2) assms(4) by (simp add: r(1))
    have "length (attrs_bytes as) + 24 < 65536" using r(2) by simp
    from assms(2) fit this s assms(1) obtain h where
      "sresp = build (add_attrs (as @ [integrity_attr h]) (mk_builder m c tid))" "attrs_fit (as @ [integrity_attr h])"
      by (rule sign_md5_build)
    then show ?thesis
      using parse_build_append [OF assms(2), of "as @ [integrity_attr h]" m c "[]" out]
        verify_signed [OF assms(2) fit _ r(3) assms(1) s] r(2) by simp
  qed
qed

section \<open>Channel data\<close>

lemma peer_channel_eq:
  assumes "allocation_ok io b" "um_find (channels b) num = Some ch" "cb_peer ch = relay"
  shows "peer_channel relay (channels b) = num \<and> num \<noteq> 0"
proof -
  let ?P = "\<lambda>(num :: u16, cb). ep_address (cb_peer cb) = ep_address relay \<and> ep_port (cb_peer cb) = ep_port relay"
  have ok: "um_ok (channels b)" and pos: "0x4000 \<le> num"
    and inj: "\<And>n c. um_find (channels b) n = Some c \<Longrightarrow> cb_peer c = relay \<Longrightarrow> n = num"
    using assms by (auto simp: allocation_ok_def)
  have mem: "(num, ch) \<in> set (channels b)" using assms(2) by (rule map_of_SomeD)
  then have "find ?P (channels b) \<noteq> None"
    using assms(3) by (auto simp: find_None_iff)
  then obtain n c where f: "find ?P (channels b) = Some (n, c)" by auto
  then have "(n, c) \<in> set (channels b)" "?P (n, c)"
    by (auto simp: find_Some_iff in_set_conv_nth)
  then have "um_find (channels b) n = Some c" "cb_peer c = relay"
    using ok by (auto simp: map_of_eq_Some_iff intro: Endpoint.equality)
  then have "n = num" by (rule inj)
  moreover have "num \<noteq> 0" using pos by auto
  ultimately show ?thesis using f by (simp add: peer_channel_def)
qed

lemma peer_channel_cases:
  assumes "allocation_ok io b"
  shows "peer_channel relay (channels b) = 0
     \<or> (0x4000 \<le> peer_channel relay (channels b) \<and> peer_channel relay (channels b) \<le> 0x4FFF)"
proof (cases "find (\<lambda>(num, cb). ep_address (cb_peer cb) = ep_address relay \<and> ep_port (cb_peer cb) = ep_port relay) (channels b)")
  case None
  then show ?thesis by (simp add: peer_channel_def)
next
  case (Some nc)
  obtain n c where nc: "nc = (n, c)" by (cases nc)
  have "(n, c) \<in> set (channels b)" using Some nc by (auto simp: find_Some_iff in_set_conv_nth)
  then have "um_find (channels b) n = Some c" using assms by (simp add: allocation_ok_def map_of_eq_Some_iff)
  then show ?thesis using assms Some nc by (auto simp: peer_channel_def allocation_ok_def)
qed

text \<open>Where relayed data may go.\<close>

definition may_send :: "world \<Rightarrow> Endpoint \<Rightarrow> AllocationManager \<Rightarrow> Endpoint \<Rightarrow> bool" where
  "may_send w src am dst \<longleftrightarrow>
     (\<exists>a peer. owned am src = Some a \<and> hasPermission a (ep_address peer) (w_now w)
        \<and> \<not> isDeniedAddress (w_io w) (ep_address peer)
        \<and> (case relayed am peer of None \<Rightarrow> dst = peer | Some b \<Rightarrow> dst = clientAddr b))"

lemma handleChannelData_outs:
  assumes inv: "am_inv (w_io w) (alloc_manager td)"
    and run: "handleChannelData w data sz src t td = Some outs" and out: "(t', bs, dst) \<in> set outs"
  shows "t' = t \<and> may_send w src (alloc_manager td) dst"
proof -
  let ?am = "alloc_manager td"
  obtain r ch where ch: "parse_channel_data data sz \<lparr>channel_number = 0, ch_data = []\<rparr> = Some (r, ch)"
    using run by (auto simp: handleChannelData_def bind_eq_Some_conv)
  have r: "r = ChOk" using run out ch by (auto simp: handleChannelData_def split: if_splits)
  obtain p where fc: "findByClient ?am src = Some p"
    using run out ch r by (cases "findByClient ?am src") (auto simp: handleChannelData_def)
  obtain a where a: "store ?am p = Some a"
    using run ch r fc by (auto simp: handleChannelData_def bind_eq_Some_conv)
  obtain binding where bi: "um_find (channels a) (channel_number ch) = Some binding"
    using run out ch r fc a by (cases "um_find (channels a) (channel_number ch)") (auto simp: handleChannelData_def)
  have perm: "hasPermission a (ep_address (cb_peer binding)) (w_now w)"
    using run out ch r fc a bi by (auto simp: handleChannelData_def Let_def split: if_splits)
  have rest: "case findByRelay ?am (cb_peer binding) of
           None \<Rightarrow> (t', dst) = (t, cb_peer binding)
         | Some q \<Rightarrow> \<exists>b. store ?am q = Some b \<and> (t', dst) = (t, clientAddr b)"
    using run out ch r fc a bi perm
    by (cases "findByRelay ?am (cb_peer binding)")
      (auto simp: handleChannelData_def Let_def bind_eq_Some_conv split: if_splits option.splits)
  note p = fc [unfolded findByClient_def] a bi perm
  have own: "owned ?am src = Some a" using p by (auto simp: owned_Some)
  then have "\<not> isDeniedAddress (w_io w) (ep_address (cb_peer binding))"
    using owned_relayed [OF inv own] allocation_ok_permitted p(4) by blast
  with own p(4) rest show ?thesis
    unfolding may_send_def relayed_def
    by (intro conjI exI [of _ a] exI [of _ "cb_peer binding"]) (auto split: option.splits)
qed

lemma handleSend_outs:
  assumes inv: "am_inv (w_io w) am" and run: "handleSend (w_io w) (w_now w) msg src am = Some outs"
    and out: "(t', bs, dst) \<in> set (concat (map (relay_send (Some t)) outs))"
  shows "t' = t \<and> may_send w src am dst"
proof -
  obtain out where o: "out \<in> set outs" "(t', bs, dst) \<in> set (relay_send (Some t) out)" using out by auto
  then obtain d where "relays (w_io w) (w_now w) src am d out"
    using handleSend_relays [OF inv, of "w_now w" msg src] run by fastforce
  with o(2) show ?thesis
    unfolding relays_def may_send_def by (fastforce split: option.splits)
qed

lemma serve_outs:
  "serve w msg src t td = Some (outs, td') \<Longrightarrow> (t', bs, dst) \<in> set outs \<Longrightarrow> t' = t \<and> dst = src"
  by (auto simp: serve_def bind_eq_Some_conv split: if_splits)

lemma serve_answers:
  assumes "am_inv (w_io w) (alloc_manager td)" "serve w msg src t td = Some (outs, td')"
  shows "outs \<noteq> []"
  using assms(2) run_method_plain [OF assms(1), of msg src "message_username msg" "td_realm td" "[]"]
  by (auto simp: serve_def bind_eq_Some_conv plain_response_def split: if_splits)
    (metis build_not_empty)

lemma onPacket_outs:
  assumes "td_inv (w_io w) td" "world_ok w td" "sz \<le> length data"
    and run: "onPacket w data sz src t td = Some (outs, td')" and out: "(t', bs, dst) \<in> set outs"
  shows "t' = t \<and> (dst = src \<or> may_send w src (alloc_manager td) dst)"
proof -
  have inv: "am_inv (w_io w) (alloc_manager td)" using assms(1) by (simp add: td_inv_def)
  have stun: ?thesis if h: "handleStun w msg data sz src t td = Some (outs, td')" for msg
  proof (cases "msg_class msg = Indication")
    case True
    with h out handleSend_outs [OF inv, of msg src] show ?thesis
      by (auto simp: handleStun_def Let_def bind_eq_Some_conv split: if_splits)
  next
    case False
    let ?td = "td\<lparr>current_transport := Some t\<rparr>"
    from assms(1-3) False obtain allocated r where
      "handleStun w msg data sz src t td =
       (case r of
          AuthOk \<Rightarrow> serve w msg src t ?td
        | WrongCredentials \<Rightarrow> Some ([(t, make_error (transaction_id msg) 441 ''Wrong Credentials'', src)], ?td)
        | StaleNonce \<Rightarrow> send_challenge w msg src t 438 ''Stale Nonce'' ?td
        | _ \<Rightarrow> send_challenge w msg src t 401 ''Unauthorized'' ?td)"
      by (rule handleStun_request)
    from h [unfolded this] out show ?thesis
      by (cases r) (auto dest: send_challenge_allocs serve_outs)
  qed
  from run out consider (ch) "handleChannelData w data sz src t td = Some outs"
    | (stun) msg where "handleStun w msg data sz src t td = Some (outs, td')"
    by (auto simp: onPacket_def bind_eq_Some_conv split: if_splits prod.splits)
  then show ?thesis
    using handleChannelData_outs [OF inv _ out] stun by cases auto
qed

section \<open>Configuration and reachable states\<close>

definition am_config :: "AllocationManager \<Rightarrow> string \<times> u16 \<times> u16 \<times> u32" where
  "am_config am = (relay_address am, relay_port_min am, relay_port_max am, max_alloc_per_user am)"

lemma am_config_put [simp]: "am_config (put p a am) = am_config am"
  by (simp add: am_config_def)

lemma am_config_insert [simp]: "am_config (insert_allocation a port am) = am_config am"
  by (simp add: am_config_def insert_allocation_def)

lemma am_config_remove [simp]: "am_config (remove_allocation a client am) = am_config am"
  by (simp add: am_config_def remove_allocation_def)

lemma run_method_config:
  assumes "am_inv (w_io w) am" "run_method w msg src user realm am = Some (resp, am')"
  shows "am_config am' = am_config am"
proof (cases "method msg")
  case Allocate
  then have "handleAllocate (w_io w) (w_draw w) (w_now w) msg src user realm am = (resp, am')"
    using assms(2) by (simp add: run_method_def)
  then show ?thesis by (cases rule: handleAllocate_cases) simp_all
next
  case Refresh
  from assms(1) show ?thesis
    by (cases rule: handleRefresh_cases [of "w_io w" am src "w_now w" msg user])
      (use assms(2) Refresh in \<open>auto simp: run_method_def\<close>)
next
  case CreatePermission
  show ?thesis
  proof (cases "um_find (by_client am) (endpointKey src)")
    case None
    with assms(2) CreatePermission show ?thesis by (auto simp: run_method_def handleCreatePermission_def)
  next
    case (Some p)
    obtain a where a: "store am p = Some a" using am_inv_owned [OF assms(1) Some] by blast
    obtain denied a' found where "permit_peers (w_io w) (w_now w) (attributes msg) a False = (denied, a', found)"
      by (metis prod_cases3)
    from handleCreatePermission_Some [OF Some a this] assms(2) CreatePermission show ?thesis
      by (auto simp: run_method_def)
  qed
next
  case ChannelBind
  from assms(1) show ?thesis
    by (cases rule: handleChannelBind_cases [of "w_io w" am "w_now w" msg src])
      (use assms(2) ChannelBind in \<open>auto simp: run_method_def\<close>)
qed (use assms in \<open>auto simp: run_method_def\<close>)

lemma onPacket_config:
  assumes "td_inv (w_io w) td" "world_ok w td" "sz \<le> length data" "onPacket w data sz src t td = Some (outs, td')"
  shows "am_config (alloc_manager td') = am_config (alloc_manager td)"
proof -
  have inv: "am_inv (w_io w) (alloc_manager td)" using assms(1) by (simp add: td_inv_def)
  have stun: ?thesis if h: "handleStun w msg data sz src t td = Some (outs, td')" for msg
  proof (cases "msg_class msg = Indication")
    case True
    with h show ?thesis by (auto simp: handleStun_def Let_def bind_eq_Some_conv split: if_splits)
  next
    case False
    let ?td = "td\<lparr>current_transport := Some t\<rparr>"
    from assms(1-3) False obtain allocated r where
      "handleStun w msg data sz src t td =
       (case r of
          AuthOk \<Rightarrow> serve w msg src t ?td
        | WrongCredentials \<Rightarrow> Some ([(t, make_error (transaction_id msg) 441 ''Wrong Credentials'', src)], ?td)
        | StaleNonce \<Rightarrow> send_challenge w msg src t 438 ''Stale Nonce'' ?td
        | _ \<Rightarrow> send_challenge w msg src t 401 ''Unauthorized'' ?td)"
      by (rule handleStun_request)
    from h [unfolded this] run_method_config [OF inv] show ?thesis
      by (cases r) (auto dest!: send_challenge_allocs simp: serve_def bind_eq_Some_conv split: if_splits)
  qed
  then show ?thesis
    using assms(4) by (auto simp: onPacket_def bind_eq_Some_conv split: if_splits prod.splits)
qed

text \<open>The server's transitions: one received packet each.\<close>

inductive packet_step :: "asio_ip \<Rightarrow> TurnDispatcher \<Rightarrow> TurnDispatcher \<Rightarrow> bool" for io where
  packet: "w_io w = io \<Longrightarrow> world_ok w td \<Longrightarrow> sz \<le> length data \<Longrightarrow>
     onPacket w data sz src t td = Some (outs, td') \<Longrightarrow> packet_step io td td'"

inductive_cases packet_stepE: "packet_step io td td'"

abbreviation reachable :: "asio_ip \<Rightarrow> TurnDispatcher \<Rightarrow> TurnDispatcher \<Rightarrow> bool" where
  "reachable io \<equiv> (packet_step io)\<^sup>*\<^sup>*"

lemma packet_step_inv:
  "packet_step io td td' \<Longrightarrow> td_inv io td \<Longrightarrow>
     td_inv io td' \<and> am_config (alloc_manager td') = am_config (alloc_manager td)"
  by (erule packet_stepE) (metis onPacket_inv onPacket_config option.inject prod.inject)

lemma reachable_inv:
  "reachable io td td' \<Longrightarrow> td_inv io td \<Longrightarrow>
     td_inv io td' \<and> am_config (alloc_manager td') = am_config (alloc_manager td)"
  by (induction rule: rtranclp_induct) (auto dest: packet_step_inv)

lemma mk_dispatcher_inv: "td_inv io (mk_dispatcher realm secret relay pmin pmax)"
  by (simp add: td_inv_def mk_dispatcher_def mk_nonce_manager_def)

lemma mk_dispatcher_config:
  "am_config (alloc_manager (mk_dispatcher realm secret relay pmin pmax)) = (relay, pmin, pmax, 10)"
  by (simp add: mk_dispatcher_def am_config_def mk_manager_def setClientSendCallback_def setPeerSendCallback_def)

lemma word_offset_le:
  assumes "(lo :: u16) \<le> hi" "x - lo \<le> hi - lo"
  shows "lo \<le> x \<and> x \<le> hi"
  using assms by uint_arith

lemma owned_port:
  assumes "am_inv io am" "am_config am = (relay, pmin, pmax, quota)" "pmin \<le> pmax" "owned am client = Some a"
  shows "ep_address (relayedAddr a) = relay \<and> pmin \<le> ep_port (relayedAddr a) \<and> ep_port (relayedAddr a) \<le> pmax"
proof -
  let ?port = "ep_port (relayedAddr a)"
  have cfg: "relay_address am = relay" "relay_port_min am = pmin" "relay_port_max am = pmax"
    using assms(2) by (auto simp: am_config_def)
  have a: "relayed am (relayedAddr a) = Some a" "ep_address (relayedAddr a) = relay"
    using owned_relayed [OF assms(1,4)] cfg by auto
  then have "relayedAddr a = relay_ep am ?port"
    using cfg by (simp add: relay_ep_def)
  then have "um_find (by_relay am) (endpointKey (relay_ep am ?port)) \<noteq> None"
    using a(1) by (auto simp: relayed_Some)
  then have "um_find (used_ports am) ?port = Some True"
    using assms(1) by (auto simp: am_inv_def tables_ok_def)
  then have "?port - pmin \<le> pmax - pmin"
    using assms(1) cfg by (auto simp: am_inv_def ports_ok_def port_range_def)
  with a(2) word_offset_le [OF assms(3)] show ?thesis by simp
qed

section \<open>A concrete server\<close>

lemma parse_Ok_head:
  assumes "parse data sz out = Some (Ok, msg)"
  shows "20 \<le> sz \<and> (\<exists>b. rd data 0 = Some b \<and> b AND 0xC0 = 0)"
  using assms by (auto simp: parse_def bind_eq_Some_conv Let_def split: if_splits)

lemma onPacket_parsed:
  assumes "parse data sz default_message = Some (Ok, msg)"
  shows "onPacket w data sz src t td = handleStun w msg data sz src t td"
proof -
  from parse_Ok_head [OF assms] obtain b where "20 \<le> sz" "rd data 0 = Some b" "b AND 0xC0 = 0" by blast
  then show ?thesis using assms by (simp add: onPacket_def)
qed

definition demo_td :: TurnDispatcher where
  "demo_td = \<lparr>nonce_manager = demo_nm, hmac_validator = demo_hv, td_realm = ''r'',
              alloc_manager = demo_manager0, current_transport = None\<rparr>"

definition demo_world :: world where
  "demo_world = \<lparr>w_io = demo_asio, w_ssl = demo_openssl, w_draw = (\<lambda>_. 3),
                 w_rnd = (\<lambda>i. Some (replicate 16 (word_of_nat i))), w_now = 5, w_wall = 50\<rparr>"

lemma demo_world_fields [simp]:
  "w_io demo_world = demo_asio" "w_ssl demo_world = demo_openssl" "w_now demo_world = 5" "w_wall demo_world = 50"
  by (simp_all add: demo_world_def)

lemma demo_td_inv: "td_inv demo_asio demo_td"
  by (simp add: td_inv_def demo_td_def demo_manager0_inv demo_nm_def)

lemma demo_world_ok: "world_ok demo_world demo_td"
proof -
  let ?n = "concat (map hex_byte (replicate 16 (0 :: u8)))"
  have "generateRandom (w_rnd demo_world) 0 = Some ?n"
    by (simp add: generateRandom_def demo_world_def)
  moreover have "um_find (nm_store demo_nm) ?n = None" by code_simp
  ultimately show ?thesis
    using demo_draws by (auto simp: world_ok_def demo_td_def) (auto simp: demo_world_def)
qed

definition demo_bind :: "u8 \<Rightarrow> u16 \<Rightarrow> TurnMessage" where
  "demo_bind num port = demo_request ChannelBind
     [\<lparr>atype = Attr_ChannelNumber, avalue = [0x40, num, 0, 0]\<rparr>,
      \<lparr>atype = Attr_XorPeerAddress, avalue = xor_address_value 0x61626364 port\<rparr>]"

text \<open>Two clients, each with a channel bound to the other's relayed address.\<close>

definition demo_two0 :: AllocationManager where
  "demo_two0 = snd (handleAllocate demo_asio (\<lambda>_. 4) 0 demo_allocate (demo_client 2000) ''9:v'' ''r'' demo_manager)"

definition demo_two1 :: AllocationManager where
  "demo_two1 = snd (the (handleChannelBind demo_asio 0 (demo_bind 1 49156) (demo_client 1000) demo_two0))"

definition demo_two :: AllocationManager where
  "demo_two = snd (the (handleChannelBind demo_asio 0 (demo_bind 2 49155) (demo_client 2000) demo_two1))"

abbreviation demo_alloc :: "u64 \<Rightarrow> u16 \<Rightarrow> u16 \<Rightarrow> string \<Rightarrow> (string, Permission) umap \<Rightarrow> (u16, ChannelBinding) umap \<Rightarrow> Allocation" where
  "demo_alloc i cport rport user perms chs \<equiv>
     \<lparr>alloc_id = i, clientAddr = demo_client cport, relayedAddr = \<lparr>ep_address = ''abcd'', ep_port = rport\<rparr>,
      alloc_username = user, alloc_realm = ''r'', expiresAt = 600000000000, permissions = perms, channels = chs\<rparr>"

definition demo_perm :: "(string, Permission) umap" where
  "demo_perm = [(''abcd'', \<lparr>perm_address = ''abcd'', perm_expiresAt = 300000000000\<rparr>)]"

definition demo_chan :: "u16 \<Rightarrow> u16 \<Rightarrow> (u16, ChannelBinding) umap" where
  "demo_chan num rport = [(num, \<lparr>channelNumber = num, cb_peer = \<lparr>ep_address = ''abcd'', ep_port = rport\<rparr>,
                                cb_expiresAt = 600000000000\<rparr>)]"

lemma demo_two0_eq:
  "owned demo_two0 (demo_client 1000) = Some (demo_alloc 1 1000 49155 ''9:u'' [] [])"
  "owned demo_two0 (demo_client 2000) = Some (demo_alloc 2 2000 49156 ''9:v'' [] [])"
  by (simp_all add: demo_two0_def demo_manager_def demo_manager0_def handleAllocate_def demo_allocate_def demo_request_def
      mk_manager_def setClientSendCallback_def setPeerSendCallback_def findAttr_def user_count_def
      user_allocations_def allocatePort_def try_ports.simps requestedLifetime_def kDefaultLifetime_def
      seconds_def owned_def findByClient_def put_def Let_def demo_client_def)

lemma demo_abcd: "v4_to_string demo_asio 0x61626364 = ''abcd''"
  by code_simp

lemma demo_not_denied: "\<not> isDeniedAddress demo_asio ''abcd''"
  by code_simp

lemma demo_bind_step:
  assumes "am_inv demo_asio am" "owned am client = Some (demo_alloc i cport rport user [] [])"
    and num: "num' = be16 0x40 num" "0x4000 \<le> num'" "num' \<le> 0x4FFF"
  shows "\<exists>resp am'. handleChannelBind demo_asio 0 (demo_bind num port) client am = Some (resp, am')
     \<and> am_inv demo_asio am'
     \<and> (\<forall>c. owned am' c = (if c = client then Some (demo_alloc i cport rport user demo_perm (demo_chan num' port)) else owned am c))"
proof -
  obtain p where p: "um_find (by_client am) (endpointKey client) = Some p"
    "store am p = Some (demo_alloc i cport rport user [] [])"
    using assms(2) by (auto simp: owned_Some)
  have peer: "xor_value_peer demo_asio (xor_address_value 0x61626364 port) = \<lparr>ep_address = ''abcd'', ep_port = port\<rparr>"
    by (simp add: xor_value_peer_def demo_abcd)
  have "handleChannelBind demo_asio 0 (demo_bind num port) client am =
      Some (build (mk_builder ChannelBind SuccessResponse (replicate 12 1)),
        put p (demo_alloc i cport rport user demo_perm (demo_chan num' port)) am)"
    using p num demo_not_denied
    by (auto simp: handleChannelBind_def demo_bind_def demo_request_def findAttr_def Let_def peer channel_conflict_def
        set_permission_def set_channel_def seconds_def kPermissionTTL_def kChannelTTL_def demo_perm_def demo_chan_def not_less)
  moreover obtain resp am' where "handleChannelBind demo_asio 0 (demo_bind num port) client am = Some (resp, am')"
    "am_inv demo_asio am'"
    using handleChannelBind_inv [OF assms(1)] by blast
  ultimately show ?thesis
    using owned_put [OF assms(1) p(1)] by auto
qed

lemma demo_two_facts:
  "am_inv demo_asio demo_two"
  "owned demo_two (demo_client 1000) = Some (demo_alloc 1 1000 49155 ''9:u'' demo_perm (demo_chan 0x4001 49156))"
  "owned demo_two (demo_client 2000) = Some (demo_alloc 2 2000 49156 ''9:v'' demo_perm (demo_chan 0x4002 49155))"
proof -
  have "draws_ok (\<lambda>_. 4) demo_manager"
    by (simp add: draws_ok_def port_range_def demo_manager_def demo_manager0_def handleAllocate_def demo_allocate_def
        demo_request_def mk_manager_def setClientSendCallback_def setPeerSendCallback_def findAttr_def user_count_def
        user_allocations_def allocatePort_def try_ports.simps put_def Let_def)
  then have inv0: "am_inv demo_asio demo_two0"
    unfolding demo_two0_def by (rule handleAllocate_inv [OF demo_manager_inv _ surjective_pairing])
  have c1: "(0x4001 :: u16) = be16 0x40 1" and c2: "(0x4002 :: u16) = be16 0x40 2" by (simp_all add: be16_def)
  have ne: "demo_client 1000 \<noteq> demo_client 2000" by (simp add: demo_client_def)
  have inv1: "am_inv demo_asio demo_two1"
    and own1: "\<forall>c. owned demo_two1 c = (if c = demo_client 1000
       then Some (demo_alloc 1 1000 49155 ''9:u'' demo_perm (demo_chan 0x4001 49156)) else owned demo_two0 c)"
    using demo_bind_step [OF inv0 demo_two0_eq(1) c1, of 49156] by (auto simp: demo_two1_def)
  have "owned demo_two1 (demo_client 2000) = Some (demo_alloc 2 2000 49156 ''9:v'' [] [])"
    using own1 ne demo_two0_eq(2) by auto
  from demo_bind_step [OF inv1 this c2, of 49155] own1 ne
  show "am_inv demo_asio demo_two"
    "owned demo_two (demo_client 1000) = Some (demo_alloc 1 1000 49155 ''9:u'' demo_perm (demo_chan 0x4001 49156))"
    "owned demo_two (demo_client 2000) = Some (demo_alloc 2 2000 49156 ''9:v'' demo_perm (demo_chan 0x4002 49155))"
    by (auto simp: demo_two_def)
qed

lemma demo_allocation_made:
  assumes "attributes msg = demo_body @ rest" "transaction_id msg = replicate 12 1"
  shows "owned (snd (handleAllocate demo_asio (\<lambda>_. 3) 5 msg (demo_client 1000) user realm demo_manager0)) (demo_client 1000) \<noteq> None"
  using assms
  by (simp add: demo_manager0_def handleAllocate_def mk_manager_def setClientSendCallback_def
      setPeerSendCallback_def findAttr_def demo_body_def user_count_def user_allocations_def allocatePort_def
      try_ports.simps owned_def findByClient_def put_def Let_def)

lemma demo_onPacket:
  "\<exists>outs td'. onPacket demo_world demo_raw (length demo_raw) (demo_client 1000) 0 demo_td = Some (outs, td')
     \<and> owned (alloc_manager td') (demo_client 1000) \<noteq> None \<and> outs \<noteq> []"
proof -
  obtain msg h where m: "parse demo_raw (length demo_raw) default_message = Some (Ok, msg)" "method msg = Allocate"
    "msg_class msg = Request" "transaction_id msg = replicate 12 1"
    "authenticate demo_openssl ''r'' demo_nm demo_hv 5 50 msg demo_raw (length demo_raw) [] = Some AuthOk"
    "attributes msg = demo_body @ credential_attrs ''99:u'' ''r'' ''n1'' @ [integrity_attr h]"
    using demo_signed_request [of default_message] by blast
  let ?td = "demo_td\<lparr>current_transport := Some 0\<rparr>"
  let ?r = "handleAllocate demo_asio (\<lambda>_. 3) 5 msg (demo_client 1000) (message_username msg) ''r'' demo_manager0"
  have "handleStun demo_world msg demo_raw (length demo_raw) (demo_client 1000) 0 demo_td
      = serve demo_world msg (demo_client 1000) 0 ?td"
    using m(2,3,5) by (simp add: handleStun_def Let_def serve_def allocated_username_def demo_td_def cong: if_cong)
  moreover obtain outs td' where sv: "serve demo_world msg (demo_client 1000) 0 ?td = Some (outs, td')"
    using serve_inv [of demo_world ?td msg "demo_client 1000" 0] demo_td_inv demo_world_ok by auto
  moreover have "run_method demo_world msg (demo_client 1000) (message_username msg) ''r'' demo_manager0 = Some ?r"
    using m(2) by (simp add: run_method_def demo_world_def)
  then have "alloc_manager td' = snd ?r"
    using sv by (cases ?r) (auto simp: serve_def demo_td_def bind_eq_Some_conv split: if_splits)
  ultimately show ?thesis
    using onPacket_parsed [OF m(1)] demo_allocation_made [OF m(6,4)] serve_answers [OF _ sv] demo_td_inv
    by (auto simp: td_inv_def)
qed

text \<open>Channel data between two clients whose channels are bound to each other.\<close>

lemma channel_relay:
  assumes "td_inv (w_io w) td"
    "owned (alloc_manager td) A = Some a" "owned (alloc_manager td) B = Some b"
    "um_find (channels a) num = Some ch" "cb_peer ch = relayedAddr b"
    "um_find (channels b) num' = Some ch'" "cb_peer ch' = relayedAddr a"
    "hasPermission a (ep_address (relayedAddr b)) (w_now w)" "length payload < 65536" "4 + length payload \<le> sz"
  shows "onPacket w (make_channel_data num payload) sz A t td =
     Some ([(t, make_channel_data num' payload, B)], td)"
proof -
  have inv: "am_inv (w_io w) (alloc_manager td)" using assms(1) by (simp add: td_inv_def)
  obtain p where p: "findByClient (alloc_manager td) A = Some p" "store (alloc_manager td) p = Some a"
    using assms(2) by (auto simp: owned_def bind_eq_Some_conv)
  have b: "clientAddr b = B" "relayed (alloc_manager td) (relayedAddr b) = Some b" "allocation_ok (w_io w) b"
    and ok: "allocation_ok (w_io w) a"
    using owned_relayed [OF inv assms(3)] owned_relayed [OF inv assms(2)] by auto
  then obtain q where q: "findByRelay (alloc_manager td) (relayedAddr b) = Some q" "store (alloc_manager td) q = Some b"
    by (auto simp: relayed_def bind_eq_Some_conv)
  have num: "0x4000 \<le> num" "num \<le> 0x4FFF" using ok assms(4) by (auto simp: allocation_ok_def)
  have parse: "parse_channel_data (make_channel_data num payload) sz
      \<lparr>channel_number = 0, ch_data = []\<rparr> = Some (ChOk, \<lparr>channel_number = num, ch_data = payload\<rparr>)"
    using parse_make_channel_data [OF num assms(9,10), of "[]"] by simp
  have hd: "rd (make_channel_data num payload) 0 = Some (byte16 8 num)" "make_channel_data num payload \<noteq> []"
    by (simp_all add: rd_def make_channel_data_def Let_def)
  show ?thesis
    using peer_channel_eq [OF b(3) assms(6,7)] p q assms(4,5,8) b(1) channel_top_bits [OF num] hd assms(10)
    by (simp add: onPacket_def handleChannelData_def parse Let_def)
qed

section \<open>Properties\<close>

text \<open>
  C2. Only authenticated requests of a client change its allocation: whenever a packet
  adds, changes or removes the allocation of some client, that client sent the packet,
  the packet parses as a STUN message that is not an indication, it names an unexpired
  user and a valid nonce, and carries an integrity attribute whose value is the HMAC of
  the message under that user's key; an existing allocation is changed only by the user
  who owns it.
\<close>

theorem only_authenticated_requests_change_allocations:
  assumes "td_inv (w_io w) td" "world_ok w td" "sz \<le> length data"
    "onPacket w data sz src t td = Some (outs, td')"
    "owned (alloc_manager td') client \<noteq> owned (alloc_manager td) client"
  shows "client = src \<and> (\<exists>msg username password pos. parse data sz default_message = Some (Ok, msg)
     \<and> msg_class msg \<noteq> Indication
     \<and> credentials_current (nonce_manager td) (w_now w) (w_wall w) msg username
     \<and> computeHmac (w_ssl w) (hmac_validator td) username = Some password
     \<and> 20 \<le> pos \<and> pos + 24 \<le> sz
     \<and> (if findAttr msg Attr_MessageIntegritySha256 \<noteq> None
        then integrity_sha256 (w_ssl w) (td_realm td) username password data pos
        else integrity_sha1 (w_ssl w) (td_realm td) username password data pos)
     \<and> (\<forall>a. owned (alloc_manager td) client = Some a \<longrightarrow> method msg \<noteq> Allocate \<longrightarrow>
          alloc_username a = [] \<or> alloc_username a = username))"
proof -
  have ssl: "openssl_ok (w_ssl w)" using assms(2) by (simp add: world_ok_def)
  obtain msg allocated where c: "client = src" and m: "parse data sz default_message = Some (Ok, msg)"
    "msg_class msg \<noteq> Indication" "allocated_username msg src (alloc_manager td) = Some allocated"
    "authenticate (w_ssl w) (td_realm td) (nonce_manager td) (hmac_validator td) (w_now w) (w_wall w)
         msg data sz allocated = Some AuthOk"
    using onPacket_change [OF assms] by blast
  have "alloc_username a = allocated" if "owned (alloc_manager td) client = Some a" "method msg \<noteq> Allocate" for a
    using that m(3) by (auto simp: c allocated_username_def owned_def bind_eq_Some_conv)
  with authenticate_sound_ok [OF ssl assms(3) m(2,4)] c m(1,2) show ?thesis by metis
qed

theorem only_authenticated_requests_change_allocations_witness:
  "\<exists>msg username. parse demo_raw (length demo_raw) default_message = Some (Ok, msg)
     \<and> credentials_current demo_nm 5 50 msg username"
proof -
  obtain outs td' where run: "onPacket demo_world demo_raw (length demo_raw) (demo_client 1000) 0 demo_td = Some (outs, td')"
    "owned (alloc_manager td') (demo_client 1000) \<noteq> None"
    using demo_onPacket by blast
  have "owned (alloc_manager demo_td) (demo_client 1000) = None"
    by (simp add: demo_td_def demo_manager0_def mk_manager_def owned_def findByClient_def
        setClientSendCallback_def setPeerSendCallback_def)
  with run(2) have "owned (alloc_manager td') (demo_client 1000) \<noteq> owned (alloc_manager demo_td) (demo_client 1000)"
    by simp
  from only_authenticated_requests_change_allocations [OF _ demo_world_ok order_refl run(1) this] demo_td_inv
  show ?thesis by (auto simp: demo_td_def)
qed

text \<open>
  C3. The server in every reachable state: started with a port range that is not empty
  and after any sequence of packets, of any content, it processes the next packet without
  undefined behaviour or an escaped exception; every allocation relays on the configured
  address and a port of the range, two clients never share a relayed address, no user
  holds more than ten allocations, and no permission and no channel names a denied
  address.
\<close>

theorem reachable_server_safe:
  assumes "reachable io (mk_dispatcher realm secret relay pmin pmax) td" "pmin \<le> pmax"
    "w_io w = io" "world_ok w td" "sz \<le> length data"
  shows "(\<exists>outs td'. onPacket w data sz src t td = Some (outs, td'))
     \<and> (\<forall>user. user_allocations (alloc_manager td) user \<le> 10)
     \<and> (\<forall>client a. owned (alloc_manager td) client = Some a \<longrightarrow>
          ep_address (relayedAddr a) = relay
        \<and> pmin \<le> ep_port (relayedAddr a) \<and> ep_port (relayedAddr a) \<le> pmax
        \<and> (\<forall>addr now. hasPermission a addr now \<longrightarrow> \<not> isDeniedAddress io addr)
        \<and> (\<forall>num ch. um_find (channels a) num = Some ch \<longrightarrow>
             0x4000 \<le> num \<and> num \<le> 0x4FFF \<and> \<not> isDeniedAddress io (ep_address (cb_peer ch)))
        \<and> (\<forall>other b. owned (alloc_manager td) other = Some b \<longrightarrow> relayedAddr b = relayedAddr a \<longrightarrow> other = client))"
proof -
  have inv: "td_inv io td" and cfg: "am_config (alloc_manager td) = (relay, pmin, pmax, 10)"
    using reachable_inv [OF assms(1) mk_dispatcher_inv] by (simp_all add: mk_dispatcher_config)
  then have am: "am_inv io (alloc_manager td)" by (simp add: td_inv_def)
  have step: "\<exists>outs td'. onPacket w data sz src t td = Some (outs, td')"
    using onPacket_inv [OF _ assms(4,5)] inv assms(3) by blast
  have quota: "user_allocations (alloc_manager td) user \<le> 10" for user
    using am cfg by (auto simp: am_inv_def quota_ok_def am_config_def dest: spec [of _ user])
  have ok: "allocation_ok io a" if "owned (alloc_manager td) client = Some a" for client a
    using owned_relayed [OF am that] by blast
  have uniq: "other = client" if "owned (alloc_manager td) client = Some a"
    "owned (alloc_manager td) other = Some b" "relayedAddr b = relayedAddr a" for client other a b
    using owned_relayed [OF am that(1)] owned_relayed [OF am that(2)] that(3) by (metis option.inject)
  show ?thesis
    using step quota owned_port [OF am cfg assms(2)] uniq allocation_ok_permitted [OF ok]
    by (auto dest: ok simp: allocation_ok_def)
qed

theorem reachable_server_safe_witness:
  "\<exists>td outs td'. reachable demo_asio (mk_dispatcher ''r'' ''s'' ''abcd'' 49152 65535) td
     \<and> onPacket demo_world (replicate 30 0) 30 (demo_client 7) 1 td = Some (outs, td')"
proof -
  let ?td = "mk_dispatcher ''r'' ''s'' ''abcd'' 49152 65535"
  have "generateRandom (w_rnd demo_world) 0 = Some (concat (map hex_byte (replicate 16 0)))"
    by (simp add: generateRandom_def demo_world_def)
  then have "world_ok demo_world ?td"
    by (auto simp: world_ok_def mk_dispatcher_def mk_nonce_manager_def draws_ok_def port_range_def mk_manager_def
        setClientSendCallback_def setPeerSendCallback_def) (auto simp: demo_world_def)
  then show ?thesis
    using reachable_server_safe [of demo_asio "''r''" "''s''" "''abcd''" 49152 65535 ?td demo_world 30 "replicate 30 0" "demo_client 7" 1]
    by auto
qed

text \<open>
  C4. Confinement of traffic: whatever packet arrives, the server sends only on the
  transport it arrived on, and only back to the sender or, when the sender owns an
  allocation, to a peer for which that allocation holds an unexpired permission: to the
  client behind the peer's relayed address when the peer is one of this server's, to the
  peer itself otherwise, and never towards an address of the denied ranges.
\<close>

theorem traffic_confined:
  assumes "td_inv (w_io w) td" "world_ok w td" "sz \<le> length data"
    "onPacket w data sz src t td = Some (outs, td')" "(t', bs, dst) \<in> set outs"
  shows "t' = t \<and> (dst = src \<or>
     (\<exists>a peer. owned (alloc_manager td) src = Some a \<and> hasPermission a (ep_address peer) (w_now w)
        \<and> \<not> isDeniedAddress (w_io w) (ep_address peer)
        \<and> (case relayed (alloc_manager td) peer of None \<Rightarrow> dst = peer | Some b \<Rightarrow> dst = clientAddr b)))"
  using onPacket_outs [OF assms] unfolding may_send_def .

theorem traffic_confined_witness:
  "\<exists>outs td'. onPacket demo_world demo_raw (length demo_raw) (demo_client 1000) 0 demo_td = Some (outs, td')
     \<and> outs \<noteq> [] \<and> (\<forall>(t, bs, dst) \<in> set outs. t = 0)"
proof -
  obtain outs td' where run: "onPacket demo_world demo_raw (length demo_raw) (demo_client 1000) 0 demo_td = Some (outs, td')"
      "outs \<noteq> []"
    using demo_onPacket by blast
  moreover have "t = 0" if "(t, bs, dst) \<in> set outs" for t bs dst
    using traffic_confined [OF _ demo_world_ok order_refl run(1) that] demo_td_inv by simp
  ultimately show ?thesis by blast
qed

text \<open>
  C10. Responses are authenticated: every accepted request gets exactly one answer, which
  parses as a message of the same transaction; if it is a success response it carries a
  MESSAGE-INTEGRITY that verifies under the key of the requesting user.
\<close>

theorem responses_verify:
  assumes "td_inv (w_io w) td" "world_ok w td" "sz \<le> length data"
    and m: "parse data sz default_message = Some (Ok, msg)" "msg_class msg \<noteq> Indication"
      "allocated_username msg src (alloc_manager td) = Some allocated"
      "authenticate (w_ssl w) (td_realm td) (nonce_manager td) (hmac_validator td) (w_now w) (w_wall w)
         msg data sz allocated = Some AuthOk"
  shows "\<exists>resp td' rm pw. onPacket w data sz src t td = Some ([(t, resp, src)], td')
     \<and> getPassword (w_ssl w) (hmac_validator td) (message_username msg) = Some pw
     \<and> parse resp (length resp) out = Some (Ok, rm) \<and> transaction_id rm = transaction_id msg
     \<and> (msg_class rm = SuccessResponse \<longrightarrow>
          verifyMessageIntegrityMd5 (w_ssl w) (td_realm td) resp (length resp) (message_username msg) pw = Some True)"
proof -
  let ?td = "td\<lparr>current_transport := Some t\<rparr>"
  have inv: "am_inv (w_io w) (alloc_manager td)" and ssl: "openssl_ok (w_ssl w)"
    and d: "draws_ok (w_draw w) (alloc_manager td)"
    using assms(1,2) by (simp_all add: td_inv_def world_ok_def)
  have tid: "length (transaction_id msg) = 12"
    using parse_safe [OF assms(3), of default_message] m(1) by auto
  obtain pw where pw: "getPassword (w_ssl w) (hmac_validator td) (message_username msg) = Some pw"
    using getPassword_total [OF ssl] by blast
  obtain r am where r: "run_method w msg src (message_username msg) (td_realm td) (alloc_manager td) = Some (r, am)"
    using run_method_inv [OF inv d] by blast
  note plain = run_method_plain [OF inv r]
  obtain resp where sr: "signResponse (w_ssl w) (td_realm td) r (message_username msg) pw = Some resp"
    using signResponse_total [OF ssl] by blast
  have "r \<noteq> []" using plain by (auto simp: plain_response_def)
  then have "handleStun w msg data sz src t td = Some ([(t, resp, src)], ?td\<lparr>alloc_manager := am\<rparr>)"
    using m(2-4) pw r sr by (simp add: handleStun_def Let_def)
  with onPacket_parsed [OF m(1)] signResponse_plain [OF ssl tid plain sr, of out] pw show ?thesis
    by auto
qed

theorem responses_verify_witness:
  "\<exists>resp td' rm. onPacket demo_world demo_raw (length demo_raw) (demo_client 1000) 0 demo_td
        = Some ([(0, resp, demo_client 1000)], td')
     \<and> parse resp (length resp) default_message = Some (Ok, rm) \<and> transaction_id rm = replicate 12 1"
proof -
  obtain msg where m: "parse demo_raw (length demo_raw) default_message = Some (Ok, msg)" "method msg = Allocate"
    "msg_class msg = Request" "transaction_id msg = replicate 12 1"
    "authenticate demo_openssl ''r'' demo_nm demo_hv 5 50 msg demo_raw (length demo_raw) [] = Some AuthOk"
    using demo_signed_request [of default_message] by blast
  then have "msg_class msg \<noteq> Indication" "allocated_username msg (demo_client 1000) (alloc_manager demo_td) = Some []"
    by (simp_all add: allocated_username_def)
  from responses_verify [OF _ demo_world_ok order_refl m(1) this, of 0 default_message] m(4,5) demo_td_inv
  show ?thesis by (auto simp: demo_td_def)
qed

text \<open>
  C9. Relaying between two clients of the server: when each has bound a channel to the
  other's relayed address and the sender holds a live permission, ChannelData sent by
  the first client reaches the second as ChannelData on the second's own channel, with
  the payload unchanged, and nothing else is sent or changed.
\<close>

theorem channel_data_forwarded:
  assumes "td_inv (w_io w) td"
    "owned (alloc_manager td) A = Some a" "owned (alloc_manager td) B = Some b"
    "um_find (channels a) num = Some ch" "cb_peer ch = relayedAddr b"
    "um_find (channels b) num' = Some ch'" "cb_peer ch' = relayedAddr a"
    "hasPermission a (ep_address (relayedAddr b)) (w_now w)" "length payload < 65536"
  shows "onPacket w (make_channel_data num payload) (length (make_channel_data num payload)) A t td =
     Some ([(t, make_channel_data num' payload, B)], td)"
  by (rule channel_relay [OF assms]) (use assms(9) in \<open>simp add: length_make_channel_data\<close>)

theorem channel_data_forwarded_witness:
  "onPacket demo_world (make_channel_data 0x4001 [1, 2, 3]) (length (make_channel_data 0x4001 [1, 2, 3]))
     (demo_client 1000) 0 (demo_td\<lparr>alloc_manager := demo_two\<rparr>) =
   Some ([(0, make_channel_data 0x4002 [1, 2, 3], demo_client 2000)], demo_td\<lparr>alloc_manager := demo_two\<rparr>)"
proof -
  have "td_inv (w_io demo_world) (demo_td\<lparr>alloc_manager := demo_two\<rparr>)"
    using demo_td_inv demo_two_facts(1) by (simp add: td_inv_def)
  from channel_data_forwarded [OF this, where num = "0x4001" and num' = "0x4002" and payload = "[1, 2, 3]" and t = 0]
  show ?thesis using demo_two_facts(2,3) by (simp add: hasPermission_def demo_perm_def demo_chan_def)
qed

end
