(* ===== verification/Stream_Transport.thy ===== *)
theory Stream_Transport
  imports Allocation
begin

text \<open>
  \<open>transport/tcp_transport.cpp\<close> and \<open>transport/tls_transport.cpp\<close>: cutting a byte stream
  into STUN messages and ChannelData messages, and the tables of sessions.
  A session is a chain of \<open>async_read\<close> calls, each of which completes when its buffer is
  full; the state is the pending read and the bytes that arrived for it. A delivery is what
  \<open>on_receive_\<close> is called with: the object the pointer points to, and the claimed size.
  The TLS session reads with the same code after its handshake.
\<close>

section \<open>TcpSession\<close>

datatype phase = FirstByte | StunHeader | StunBody bytes | ChannelHeader | ChannelBody u16 u16

record StreamSession =
  ss_phase :: phase
  pending :: bytes
  first_byte :: u8
  chan_header_buf :: bytes

definition run_session :: StreamSession where
  "run_session = \<lparr>ss_phase = FirstByte, pending = [], first_byte = 0, chan_header_buf = [0, 0, 0]\<rparr>"

text \<open>The size of the buffer of the pending read.\<close>

definition attrs_len_of :: "bytes \<Rightarrow> u16" where
  "attrs_len_of header = be16 (header ! 2) (header ! 3)"

fun need :: "phase \<Rightarrow> nat" where
  "need FirstByte = 1"
| "need StunHeader = 19"
| "need (StunBody header) = unat (attrs_len_of header)"
| "need ChannelHeader = 3"
| "need (ChannelBody data_len padded_len) = unat padded_len"

definition read_first_byte :: "StreamSession \<Rightarrow> StreamSession" where
  "read_first_byte s =
     (let b = pending s ! 0; top2 = drop_bit 6 b AND 0x03
      in s\<lparr>first_byte := b, pending := [],
           ss_phase := (if top2 = 0x01 then ChannelHeader else StunHeader)\<rparr>)"

definition read_stun_header :: "StreamSession \<Rightarrow> StreamSession" where
  "read_stun_header s = s\<lparr>ss_phase := StunBody (first_byte s # pending s), pending := []\<rparr>"

definition read_stun_body :: "bytes \<Rightarrow> StreamSession \<Rightarrow> (bytes \<times> nat) \<times> StreamSession" where
  "read_stun_body header s =
     ((header @ pending s, 20 + unat (attrs_len_of header)), s\<lparr>ss_phase := FirstByte, pending := []\<rparr>)"

text \<open>The padded length is a \<open>uint16_t\<close> and wraps around.\<close>

definition padded_len :: "u16 \<Rightarrow> u16" where
  "padded_len data_len = data_len + (if data_len mod 4 \<noteq> 0 then 4 - data_len mod 4 else 0)"

definition read_channel_header :: "StreamSession \<Rightarrow> StreamSession" where
  "read_channel_header s =
     (let data_len = be16 (pending s ! 1) (pending s ! 2)
      in s\<lparr>ss_phase := ChannelBody data_len (padded_len data_len), chan_header_buf := pending s, pending := []\<rparr>)"

definition read_channel_body :: "u16 \<Rightarrow> StreamSession \<Rightarrow> (bytes \<times> nat) \<times> StreamSession" where
  "read_channel_body data_len s =
     (let buf = [first_byte s, chan_header_buf s ! 0, chan_header_buf s ! 1, chan_header_buf s ! 2] @ pending s
      in ((buf, 4 + unat data_len), s\<lparr>ss_phase := FirstByte, pending := []\<rparr>))"

text \<open>The completion handler of the pending read.\<close>

definition on_complete :: "StreamSession \<Rightarrow> (bytes \<times> nat) list \<times> StreamSession" where
  "on_complete s =
     (case ss_phase s of
        FirstByte \<Rightarrow> ([], read_first_byte s)
      | StunHeader \<Rightarrow> ([], read_stun_header s)
      | StunBody header \<Rightarrow> (case read_stun_body header s of (d, s) \<Rightarrow> ([d], s))
      | ChannelHeader \<Rightarrow> ([], read_channel_header s)
      | ChannelBody data_len pl \<Rightarrow> (case read_channel_body data_len s of (d, s) \<Rightarrow> ([d], s)))"

text \<open>
  A read that is complete runs its handler; a read of an empty body completes at once.
  After a body the next read needs one byte, so there are at most two completions.
\<close>

definition settle :: "StreamSession \<Rightarrow> (bytes \<times> nat) list \<times> StreamSession" where
  "settle s =
     (if length (pending s) = need (ss_phase s) then
        (case on_complete s of (ds, s1) \<Rightarrow>
           if length (pending s1) = need (ss_phase s1) then
             (case on_complete s1 of (ds1, s2) \<Rightarrow> (ds @ ds1, s2))
           else (ds, s1))
      else ([], s))"

definition feed_byte :: "u8 \<Rightarrow> StreamSession \<Rightarrow> (bytes \<times> nat) list \<times> StreamSession" where
  "feed_byte b s = settle (s\<lparr>pending := pending s @ [b]\<rparr>)"

fun feed :: "bytes \<Rightarrow> StreamSession \<Rightarrow> (bytes \<times> nat) list \<times> StreamSession" where
  "feed [] s = ([], s)"
| "feed (b # bs) s =
     (case feed_byte b s of (ds, s1) \<Rightarrow> case feed bs s1 of (ds1, s2) \<Rightarrow> (ds @ ds1, s2))"

section \<open>Connections\<close>

text \<open>
  A session object is kept by the handlers of its pending operations, not by the table: a
  session whose entry is gone, after a failed write or because its entry was taken over,
  goes on reading and delivering. \<open>sessions_\<close> decides only where \<open>send\<close> goes. A session is
  named by its number in the order of acceptance; \<open>key_\<close> is the text of \<open>from_\<close>. It waits for
  its TLS handshake, has a pending read, or has seen an error, after which it reads no more.
\<close>

datatype conn_state = Handshaking | Reading StreamSession | Ended

fun is_reading :: "conn_state \<Rightarrow> bool" where
  "is_reading (Reading s) = True"
| "is_reading _ = False"

record Connection =
  conn_from :: Endpoint
  conn_state :: conn_state

definition conn_key :: "Connection \<Rightarrow> string" where
  "conn_key c = endpointKey (conn_from c)"

record StreamTransport =
  st_sessions :: "(string, nat) umap"
  st_conns :: "Connection list"

text \<open>Bytes that arrive on a session's socket; the deliveries carry the session's endpoint.\<close>

definition conn_receive :: "bytes \<Rightarrow> Connection \<Rightarrow> (bytes \<times> nat \<times> Endpoint) list \<times> Connection" where
  "conn_receive bs c =
     (case conn_state c of
        Reading s \<Rightarrow> (case feed bs s of (ds, s') \<Rightarrow>
           (map (\<lambda>(obj, sz). (obj, sz, conn_from c)) ds, c\<lparr>conn_state := Reading s'\<rparr>))
      | _ \<Rightarrow> ([], c))"

section \<open>TcpTransport\<close>

text \<open>The session's constructor, its entry in the table, and \<open>run\<close>.\<close>

definition tcp_accept :: "Endpoint \<Rightarrow> StreamTransport \<Rightarrow> StreamTransport" where
  "tcp_accept remote tr =
     tr\<lparr>st_conns := st_conns tr @ [\<lparr>conn_from = remote, conn_state = Reading run_session\<rparr>],
        st_sessions := um_set (endpointKey remote) (length (st_conns tr)) (st_sessions tr)\<rparr>"

definition tcp_removeSession :: "string \<Rightarrow> StreamTransport \<Rightarrow> StreamTransport" where
  "tcp_removeSession key tr = tr\<lparr>st_sessions := um_erase key (st_sessions tr)\<rparr>"

text \<open>The session that gets the data, if the endpoint has one.\<close>

definition tcp_send :: "bytes \<Rightarrow> Endpoint \<Rightarrow> StreamTransport \<Rightarrow> (nat \<times> bytes) option" where
  "tcp_send data to_ep tr = map_option (\<lambda>i. (i, data)) (um_find (st_sessions tr) (endpointKey to_ep))"

definition tcp_receive :: "nat \<Rightarrow> bytes \<Rightarrow> StreamTransport \<Rightarrow> (bytes \<times> nat \<times> Endpoint) list \<times> StreamTransport" where
  "tcp_receive i bs tr =
     (if i < length (st_conns tr) then
        (case conn_receive bs (st_conns tr ! i) of (ds, c) \<Rightarrow> (ds, tr\<lparr>st_conns := (st_conns tr)[i := c]\<rparr>))
      else ([], tr))"

text \<open>
  The handlers of a failed read and of a failed write: both erase the entry of the session's
  key, whichever session it is; only the read ends the reading.
\<close>

definition tcp_read_error :: "nat \<Rightarrow> StreamTransport \<Rightarrow> StreamTransport" where
  "tcp_read_error i tr =
     (if i < length (st_conns tr) \<and> is_reading (conn_state (st_conns tr ! i))
      then tcp_removeSession (conn_key (st_conns tr ! i)) (tr\<lparr>st_conns := (st_conns tr)[i := (st_conns tr ! i)\<lparr>conn_state := Ended\<rparr>]\<rparr>)
      else tr)"

definition tcp_write_error :: "nat \<Rightarrow> StreamTransport \<Rightarrow> StreamTransport" where
  "tcp_write_error i tr = (if i < length (st_conns tr) then tcp_removeSession (conn_key (st_conns tr ! i)) tr else tr)"

section \<open>TlsTransport\<close>

text \<open>A TLS session reads only once its handshake has succeeded; the rest is the code above again.\<close>

definition tls_accept :: "Endpoint \<Rightarrow> StreamTransport \<Rightarrow> StreamTransport" where
  "tls_accept remote tr =
     tr\<lparr>st_conns := st_conns tr @ [\<lparr>conn_from = remote, conn_state = Handshaking\<rparr>],
        st_sessions := um_set (endpointKey remote) (length (st_conns tr)) (st_sessions tr)\<rparr>"

definition tls_removeSession :: "string \<Rightarrow> StreamTransport \<Rightarrow> StreamTransport" where
  "tls_removeSession key tr = tr\<lparr>st_sessions := um_erase key (st_sessions tr)\<rparr>"

text \<open>The outcome of \<open>async_handshake\<close>.\<close>

definition tls_handshake :: "nat \<Rightarrow> bool \<Rightarrow> StreamTransport \<Rightarrow> StreamTransport" where
  "tls_handshake i ok tr =
     (if i < length (st_conns tr) \<and> conn_state (st_conns tr ! i) = Handshaking then
        if ok then tr\<lparr>st_conns := (st_conns tr)[i := (st_conns tr ! i)\<lparr>conn_state := Reading run_session\<rparr>]\<rparr>
        else tls_removeSession (conn_key (st_conns tr ! i)) (tr\<lparr>st_conns := (st_conns tr)[i := (st_conns tr ! i)\<lparr>conn_state := Ended\<rparr>]\<rparr>)
      else tr)"

definition tls_send :: "bytes \<Rightarrow> Endpoint \<Rightarrow> StreamTransport \<Rightarrow> (nat \<times> bytes) option" where
  "tls_send data to_ep tr = map_option (\<lambda>i. (i, data)) (um_find (st_sessions tr) (endpointKey to_ep))"

definition tls_receive :: "nat \<Rightarrow> bytes \<Rightarrow> StreamTransport \<Rightarrow> (bytes \<times> nat \<times> Endpoint) list \<times> StreamTransport" where
  "tls_receive i bs tr =
     (if i < length (st_conns tr) then
        (case conn_receive bs (st_conns tr ! i) of (ds, c) \<Rightarrow> (ds, tr\<lparr>st_conns := (st_conns tr)[i := c]\<rparr>))
      else ([], tr))"

definition tls_read_error :: "nat \<Rightarrow> StreamTransport \<Rightarrow> StreamTransport" where
  "tls_read_error i tr =
     (if i < length (st_conns tr) \<and> is_reading (conn_state (st_conns tr ! i))
      then tls_removeSession (conn_key (st_conns tr ! i)) (tr\<lparr>st_conns := (st_conns tr)[i := (st_conns tr ! i)\<lparr>conn_state := Ended\<rparr>]\<rparr>)
      else tr)"

definition tls_write_error :: "nat \<Rightarrow> StreamTransport \<Rightarrow> StreamTransport" where
  "tls_write_error i tr = (if i < length (st_conns tr) then tls_removeSession (conn_key (st_conns tr ! i)) tr else tr)"

lemma tls_as_tcp:
  "tls_removeSession = tcp_removeSession" "tls_send = tcp_send" "tls_receive = tcp_receive"
  "tls_read_error = tcp_read_error" "tls_write_error = tcp_write_error"
  by (simp_all add: fun_eq_iff tls_removeSession_def tcp_removeSession_def tls_send_def tcp_send_def tls_receive_def tcp_receive_def
      tls_read_error_def tcp_read_error_def tls_write_error_def tcp_write_error_def)

section \<open>UdpTransport\<close>

text \<open>
  One datagram: the object is the receive buffer of \<open>kMaxPacketSize\<close> bytes, of which the
  first bytes are the datagram. A receive error ends the chain of receives for good.
\<close>

definition kMaxPacketSize :: nat where "kMaxPacketSize = 65536"

record UdpTransport =
  udp_receiving :: bool
  udp_recv_buf :: bytes

definition mk_udp :: UdpTransport where
  "mk_udp = \<lparr>udp_receiving = True, udp_recv_buf = replicate kMaxPacketSize 0\<rparr>"

text \<open>\<open>Inl ()\<close> is an error code, \<open>Inr datagram\<close> a datagram, cut to the buffer's size.\<close>

definition udp_receive ::
    "Endpoint \<Rightarrow> unit + bytes \<Rightarrow> UdpTransport \<Rightarrow> (bytes \<times> nat \<times> Endpoint) list \<times> UdpTransport" where
  "udp_receive remote ev tr =
     (if \<not> udp_receiving tr then ([], tr)
      else case ev of
        Inl _ \<Rightarrow> ([], tr\<lparr>udp_receiving := False\<rparr>)
      | Inr datagram \<Rightarrow>
          let d = take (length (udp_recv_buf tr)) datagram;
              buf = d @ drop (length d) (udp_recv_buf tr)
          in (if length d > 0 then [(buf, length d, remote)] else [], tr\<lparr>udp_recv_buf := buf\<rparr>))"

section \<open>The session tables are registries\<close>

interpretation tcpreg: registry
  "\<lambda>tr key. um_find (st_sessions tr) key"
  "\<lambda>key i tr. tr\<lparr>st_sessions := um_set key i (st_sessions tr)\<rparr>" tcp_removeSession
  by unfold_locales (auto simp: tcp_removeSession_def)

section \<open>Sessions that read\<close>

text \<open>The endpoint of session \<open>i\<close> and where its stream is, while it has a pending read.\<close>

definition reading :: "StreamTransport \<Rightarrow> nat \<Rightarrow> (Endpoint \<times> StreamSession) option" where
  "reading tr i =
     (if i < length (st_conns tr) then
        (case conn_state (st_conns tr ! i) of Reading s \<Rightarrow> Some (conn_from (st_conns tr ! i), s) | _ \<Rightarrow> None)
      else None)"

definition set_stream :: "nat \<Rightarrow> StreamSession \<Rightarrow> StreamTransport \<Rightarrow> StreamTransport" where
  "set_stream i s tr = tr\<lparr>st_conns := (st_conns tr)[i := (st_conns tr ! i)\<lparr>conn_state := Reading s\<rparr>]\<rparr>"

lemma reading_lt: "reading tr i = Some x \<Longrightarrow> i < length (st_conns tr)"
  by (auto simp: reading_def split: if_splits)

lemma tcp_receive_reading:
  "tcp_receive i bs tr =
     (case reading tr i of
        None \<Rightarrow> ([], tr)
      | Some (A, s) \<Rightarrow> (case feed bs s of (ds, s') \<Rightarrow> (map (\<lambda>(obj, sz). (obj, sz, A)) ds, set_stream i s' tr)))"
  by (auto simp: tcp_receive_def reading_def conn_receive_def set_stream_def split: conn_state.splits prod.splits)

lemma st_sessions_set_stream [simp]: "st_sessions (set_stream i s tr) = st_sessions tr"
  by (simp add: set_stream_def)

lemma reading_set_stream: "reading tr i = Some (A, s) \<Longrightarrow> reading (set_stream i s' tr) j = (if j = i then Some (A, s') else reading tr j)"
  by (auto simp: reading_def set_stream_def split: if_splits conn_state.splits)

text \<open>What the other operations do to the sessions that read.\<close>

lemma reading_removeSession [simp]: "reading (tcp_removeSession key tr) i = reading tr i"
  by (simp add: reading_def tcp_removeSession_def cong: conn_state.case_cong)

lemma reading_write_error [simp]: "reading (tcp_write_error i tr) j = reading tr j"
  by (simp add: tcp_write_error_def)

lemma reading_read_error [simp]: "reading (tcp_read_error i tr) j = (if j = i then None else reading tr j)"
  by (auto simp: reading_def tcp_read_error_def tcp_removeSession_def nth_list_update split: conn_state.split)

lemma reading_accept:
  "reading (tcp_accept remote tr) j = (if j = length (st_conns tr) then Some (remote, run_session) else reading tr j)"
  "reading (tls_accept remote tr) j = reading tr j"
  by (auto simp: reading_def tcp_accept_def tls_accept_def nth_append split: conn_state.split)

lemma reading_handshake:
  "reading (tls_handshake i ok tr) j = Some (A, s) \<Longrightarrow> reading tr j = Some (A, s) \<or> s = run_session"
  by (auto simp: reading_def tls_handshake_def tls_removeSession_def nth_list_update split: if_splits conn_state.splits)

text \<open>
  An old session unregisters a new one: when a client has reconnected from the same port
  before the read of its old connection fails, the failure erases the entry of the new
  connection, which goes on reading but is sent nothing.
\<close>

lemma stale_error_unregisters:
  assumes "reading tr i = Some (remote, s)" "um_find (st_sessions tr) (endpointKey remote) = Some i"
  shows "let tr' = tcp_read_error i (tcp_accept remote tr)
    in reading tr' (length (st_conns tr)) = Some (remote, run_session) \<and> tcp_send data remote tr' = None"
proof -
  have "i < length (st_conns tr)" using reading_lt [OF assms(1)] .
  moreover have "conn_key (st_conns tr ! i) = endpointKey remote" "is_reading (conn_state (st_conns tr ! i))"
    using assms(1) by (auto simp: reading_def conn_key_def split: if_splits conn_state.splits)
  ultimately show ?thesis
    by (simp add: Let_def reading_accept(1)) (simp add: tcp_read_error_def tcp_accept_def nth_append tcp_send_def tcp_removeSession_def)
qed

section \<open>Reading a whole buffer\<close>

lemma feed_append:
  "feed (xs @ ys) s = (case feed xs s of (ds, s1) \<Rightarrow> case feed ys s1 of (ds1, s2) \<Rightarrow> (ds @ ds1, s2))"
  by (induction xs arbitrary: s) (auto split: prod.splits)

text \<open>As long as the pending read is not full, bytes are only collected.\<close>

lemma feed_collect:
  "length (pending s) + length bs < need (ss_phase s) \<Longrightarrow>
     feed bs s = ([], s\<lparr>pending := pending s @ bs\<rparr>)"
proof (induction bs arbitrary: s)
  case (Cons b bs)
  have "feed_byte b s = ([], s\<lparr>pending := pending s @ [b]\<rparr>)"
    using Cons.prems by (simp add: feed_byte_def settle_def)
  moreover have "feed bs (s\<lparr>pending := pending s @ [b]\<rparr>) = ([], s\<lparr>pending := pending s @ b # bs\<rparr>)"
    using Cons.IH [of "s\<lparr>pending := pending s @ [b]\<rparr>"] Cons.prems by simp
  ultimately show ?case by simp
qed simp

text \<open>A read that gets exactly the bytes it waits for completes.\<close>

lemma feed_fill:
  assumes "pending s = []" "length bs = need (ss_phase s)" "bs \<noteq> []"
  shows "feed bs s = settle (s\<lparr>pending := bs\<rparr>)"
proof -
  have bs: "bs = butlast bs @ [last bs]" using assms(3) by simp
  have len: "length (butlast bs) < need (ss_phase s)"
    using assms(2,3) by (cases bs) auto
  have "feed (butlast bs) s = ([], s\<lparr>pending := butlast bs\<rparr>)"
    using feed_collect [of s "butlast bs"] assms(1) len by simp
  moreover have "feed [last bs] (s\<lparr>pending := butlast bs\<rparr>) = settle (s\<lparr>pending := bs\<rparr>)"
    using bs by (simp add: feed_byte_def split: prod.splits)
  ultimately show ?thesis
    using feed_append [of "butlast bs" "[last bs]" s] bs by (simp split: prod.splits)
qed

section \<open>Frames\<close>

text \<open>
  The format of the stream (RFC 8656, section 12.5): a STUN message has its length in bytes
  2 and 3, a ChannelData message its data length, and is padded to a multiple of 4.
\<close>

definition is_channel :: "u8 \<Rightarrow> bool" where
  "is_channel b = (drop_bit 6 b AND 0x03 = 0x01)"

definition frame_ok :: "bytes \<Rightarrow> bool" where
  "frame_ok f =
     (4 \<le> length f \<and>
      (if is_channel (f ! 0) then length f = 4 + unat (padded_len (attrs_len_of f))
       else length f = 20 + unat (attrs_len_of f)))"

definition frame_size :: "bytes \<Rightarrow> nat" where
  "frame_size f = (if is_channel (f ! 0) then 4 + unat (attrs_len_of f) else length f)"

text \<open>A session between two frames.\<close>

definition idle :: "StreamSession \<Rightarrow> bool" where
  "idle s = (ss_phase s = FirstByte \<and> pending s = [])"

lemma idle_run_session [simp]: "idle run_session"
  by (simp add: idle_def run_session_def)

lemma feed_first_byte:
  assumes "idle s"
  shows "feed [b] s =
    ([], s\<lparr>first_byte := b, pending := [], ss_phase := (if is_channel b then ChannelHeader else StunHeader)\<rparr>)"
  using assms
  by (simp add: idle_def feed_byte_def settle_def on_complete_def read_first_byte_def Let_def is_channel_def)

lemma feed_stun_body:
  assumes "ss_phase s = StunHeader" "pending s = []" "length h = 19"
    "length body = unat (attrs_len_of (first_byte s # h))"
  shows "\<exists>s'. idle s' \<and> feed (h @ body) s
    = ([(first_byte s # h @ body, 20 + unat (attrs_len_of (first_byte s # h)))], s')"
proof -
  let ?H = "first_byte s # h" and ?s1 = "s\<lparr>pending := [], ss_phase := StunBody (first_byte s # h)\<rparr>"
  have h: "feed h s = settle (s\<lparr>pending := h\<rparr>)"
    using assms(1-3) by (intro feed_fill) auto
  show ?thesis
  proof (cases "body = []")
    case True
    then have "unat (attrs_len_of ?H) = 0" using assms(4) by simp
    then have "settle (s\<lparr>pending := h\<rparr>) = ([(?H, 20)], ?s1\<lparr>ss_phase := FirstByte\<rparr>)"
      using assms(1,3)
      by (simp add: settle_def on_complete_def read_stun_header_def read_stun_body_def)
    then show ?thesis using True h assms(4)
      by (intro exI [of _ "?s1\<lparr>ss_phase := FirstByte\<rparr>"]) (simp add: idle_def)
  next
    case False
    then have pos: "unat (attrs_len_of ?H) \<noteq> 0" using assms(4) by (metis length_0_conv)
    have "settle (s\<lparr>pending := h\<rparr>) = ([], ?s1)"
      using assms(1,3) pos by (simp add: settle_def on_complete_def read_stun_header_def)
    moreover have "feed body ?s1 = settle (?s1\<lparr>pending := body\<rparr>)"
      using feed_fill [of ?s1 body] assms(4) False by simp
    moreover have "settle (?s1\<lparr>pending := body\<rparr>)
      = ([(?H @ body, 20 + unat (attrs_len_of ?H))], ?s1\<lparr>ss_phase := FirstByte\<rparr>)"
      using assms(4) by (simp add: settle_def on_complete_def read_stun_body_def)
    ultimately show ?thesis using h
      by (intro exI [of _ "?s1\<lparr>ss_phase := FirstByte\<rparr>"]) (simp add: idle_def feed_append)
  qed
qed

lemma feed_channel_body:
  assumes "ss_phase s = ChannelHeader" "pending s = []"
    "length body = unat (padded_len (be16 y z))"
  shows "\<exists>s'. idle s' \<and> feed ([x, y, z] @ body) s
    = ([([first_byte s, x, y, z] @ body, 4 + unat (be16 y z))], s')"
proof -
  let ?l = "be16 y z"
  let ?s1 = "s\<lparr>pending := [], chan_header_buf := [x, y, z], ss_phase := ChannelBody ?l (padded_len ?l)\<rparr>"
  have h: "feed [x, y, z] s = settle (s\<lparr>pending := [x, y, z]\<rparr>)"
    using feed_fill [of s "[x, y, z]"] assms(1,2) by simp
  show ?thesis
  proof (cases "body = []")
    case True
    then have "unat (padded_len ?l) = 0" using assms(3) by simp
    then have "settle (s\<lparr>pending := [x, y, z]\<rparr>)
      = ([([first_byte s, x, y, z], 4 + unat ?l)], ?s1\<lparr>ss_phase := FirstByte\<rparr>)"
      using assms(1)
      by (simp add: settle_def on_complete_def read_channel_header_def read_channel_body_def Let_def)
    then show ?thesis using True h
      by (intro exI [of _ "?s1\<lparr>ss_phase := FirstByte\<rparr>"]) (simp add: idle_def del: feed.simps)
  next
    case False
    then have pos: "unat (padded_len ?l) \<noteq> 0" using assms(3) by (metis length_0_conv)
    have "settle (s\<lparr>pending := [x, y, z]\<rparr>) = ([], ?s1)"
      using assms(1) pos by (simp add: settle_def on_complete_def read_channel_header_def Let_def)
    moreover have "feed body ?s1 = settle (?s1\<lparr>pending := body\<rparr>)"
      using feed_fill [of ?s1 body] assms(3) False by simp
    moreover have "settle (?s1\<lparr>pending := body\<rparr>)
      = ([([first_byte s, x, y, z] @ body, 4 + unat ?l)], ?s1\<lparr>ss_phase := FirstByte\<rparr>)"
      using assms(3) by (simp add: settle_def on_complete_def read_channel_body_def Let_def)
    ultimately show ?thesis using h feed_append [of "[x, y, z]" body s]
      by (intro exI [of _ "?s1\<lparr>ss_phase := FirstByte\<rparr>"]) (simp add: idle_def del: feed.simps)
  qed
qed

lemma attrs_len_of_prefix [simp]: "attrs_len_of (a # b # c # d # xs) = be16 c d"
  by (simp add: attrs_len_of_def)

lemma feed_frame:
  assumes "idle s" "frame_ok f"
  shows "\<exists>s'. idle s' \<and> feed f s = ([(f, frame_size f)], s')"
proof -
  have len: "4 \<le> length f" using assms(2) by (simp add: frame_ok_def)
  then obtain a b c d r where f: "f = a # b # c # d # r"
    by (auto simp: numeral_eq_Suc Suc_le_length_iff)
  let ?s1 = "s\<lparr>first_byte := a, pending := [], ss_phase := (if is_channel a then ChannelHeader else StunHeader)\<rparr>"
  have first: "feed [a] s = ([], ?s1)" by (rule feed_first_byte [OF assms(1)])
  have split: "feed f s = feed (tl f) ?s1"
    using feed_append [of "[a]" "tl f" s] first f by (simp split: prod.splits del: feed.simps)
  show ?thesis
  proof (cases "is_channel a")
    case True
    then obtain s' where "idle s'" "feed ([b, c, d] @ r) ?s1 = ([([first_byte ?s1, b, c, d] @ r, 4 + unat (be16 c d))], s')"
      using feed_channel_body [of ?s1 r c d b] assms(2) f by (auto simp: frame_ok_def)
    then show ?thesis using True f split by (simp add: frame_size_def del: feed.simps)
  next
    case False
    then have l: "length f = 20 + unat (be16 c d)" using assms(2) f by (simp add: frame_ok_def)
    let ?h = "take 19 (tl f)" and ?body = "drop 19 (tl f)"
    have h4: "attrs_len_of (a # ?h) = be16 c d" using f by (simp add: attrs_len_of_def)
    then have "\<exists>s'. idle s' \<and> feed (?h @ ?body) ?s1
      = ([(first_byte ?s1 # ?h @ ?body, 20 + unat (attrs_len_of (first_byte ?s1 # ?h)))], s')"
      using False l f by (intro feed_stun_body) auto
    then show ?thesis using False split h4 l f by (simp add: frame_size_def del: feed.simps)
  qed
qed

lemma feed_frames:
  "idle s \<Longrightarrow> list_all frame_ok fs \<Longrightarrow>
     \<exists>s'. idle s' \<and> feed (concat fs) s = (map (\<lambda>f. (f, frame_size f)) fs, s')"
proof (induction fs arbitrary: s)
  case (Cons f fs)
  then obtain s1 where s1: "idle s1" "feed f s = ([(f, frame_size f)], s1)"
    using feed_frame by fastforce
  from Cons.IH [OF s1(1)] Cons.prems(2) obtain s' where
    "idle s'" "feed (concat fs) s1 = (map (\<lambda>f. (f, frame_size f)) fs, s')" by auto
  then show ?case using s1 by (simp add: feed_append)
qed simp

section \<open>Framing over TCP and TLS\<close>

text \<open>The segments of a stream arrive one after the other, cut anywhere.\<close>

fun tcp_receives :: "nat \<Rightarrow> bytes list \<Rightarrow> StreamTransport \<Rightarrow> (bytes \<times> nat \<times> Endpoint) list \<times> StreamTransport" where
  "tcp_receives i [] tr = ([], tr)"
| "tcp_receives i (bs # bss) tr =
     (case tcp_receive i bs tr of (ds, tr1) \<Rightarrow>
        case tcp_receives i bss tr1 of (ds1, tr2) \<Rightarrow> (ds @ ds1, tr2))"

lemma tcp_receives_feed:
  "reading tr i = Some (A, s) \<Longrightarrow> feed (concat bss) s = (ds, s') \<Longrightarrow>
     fst (tcp_receives i bss tr) = map (\<lambda>(f, n). (f, n, A)) ds \<and> reading (snd (tcp_receives i bss tr)) i = Some (A, s')"
proof (induction bss arbitrary: tr s ds)
  case (Cons bs bss)
  obtain ds1 s1 ds2 where f: "feed bs s = (ds1, s1)" "feed (concat bss) s1 = (ds2, s')" "ds = ds1 @ ds2"
    using Cons.prems(2) by (auto simp: feed_append split: prod.splits)
  have "tcp_receive i bs tr = (map (\<lambda>(f, n). (f, n, A)) ds1, set_stream i s1 tr)"
    using Cons.prems(1) f(1) by (simp add: tcp_receive_reading)
  then show ?case using Cons.IH [of "set_stream i s1 tr" s1 ds2] f Cons.prems(1)
    by (auto simp: reading_set_stream split: prod.splits)
qed simp

lemma tcp_receives_silent: "reading tr i = None \<Longrightarrow> tcp_receives i bss tr = ([], tr)"
  by (induction bss) (simp_all add: tcp_receive_reading)

section \<open>Bounds of what is delivered\<close>

lemma unat_padded_len:
  "unat (padded_len n) = (unat n + (4 - unat n mod 4) mod 4) mod 65536"
proof -
  have m: "unat (n mod 4) = unat n mod 4" by (simp add: unat_mod)
  have z: "n mod 4 = 0 \<longleftrightarrow> unat n mod 4 = 0"
    by (metis m unat_eq_zero)
  have "n mod 4 \<le> 4" using m by (simp add: word_le_nat_alt)
  then have "unat (4 - n mod 4) = 4 - unat n mod 4"
    using m by (simp add: unat_sub)
  then show ?thesis using z
    by (simp add: padded_len_def unat_word_ariths)
qed

text \<open>Every delivery has its bytes in the object, except at the end of the range of lengths.\<close>

definition in_bounds :: "bytes \<times> nat \<Rightarrow> bool" where
  "in_bounds d = (4 \<le> length (fst d) \<and>
     (if is_channel (fst d ! 0) \<and> 65533 \<le> unat (attrs_len_of (fst d))
      then length (fst d) = 4 \<and> snd d = 4 + unat (attrs_len_of (fst d))
      else snd d \<le> length (fst d)))"

lemma padded_len_bound: "unat n < 65533 \<Longrightarrow> unat n \<le> unat (padded_len n)"
  by (simp add: unat_padded_len)

lemma padded_len_wraps: "65533 \<le> unat n \<Longrightarrow> unat (padded_len n) = 0"
proof -
  assume "65533 \<le> unat n"
  then have "unat n = 65533 \<or> unat n = 65534 \<or> unat n = 65535" using unat_be16_less [of n] by arith
  then show ?thesis by (auto simp: unat_padded_len)
qed

text \<open>What holds between two bytes of the stream, and so of every buffer that is handed on.\<close>

fun phase_ok :: "phase \<Rightarrow> StreamSession \<Rightarrow> bool" where
  "phase_ok StunHeader s = (\<not> is_channel (first_byte s))"
| "phase_ok (StunBody header) s = (length header = 20 \<and> \<not> is_channel (header ! 0))"
| "phase_ok ChannelHeader s = is_channel (first_byte s)"
| "phase_ok (ChannelBody data_len pl) s =
     (pl = padded_len data_len \<and> is_channel (first_byte s) \<and> length (chan_header_buf s) = 3 \<and>
      be16 (chan_header_buf s ! 1) (chan_header_buf s ! 2) = data_len)"
| "phase_ok p s = True"

definition session_ok :: "StreamSession \<Rightarrow> bool" where
  "session_ok s = (phase_ok (ss_phase s) s \<and> length (pending s) < need (ss_phase s))"

lemma session_ok_run [simp]: "session_ok run_session"
  by (simp add: session_ok_def run_session_def)

lemma phase_ok_pending [simp]: "phase_ok p (s\<lparr>pending := bs\<rparr>) = phase_ok p s"
  by (cases p) auto

lemma on_complete_ok:
  assumes "phase_ok (ss_phase s) s" "length (pending s) = need (ss_phase s)"
    "on_complete s = (ds, s')"
  shows "phase_ok (ss_phase s') s' \<and> pending s' = [] \<and> list_all in_bounds ds \<and>
    (ss_phase s = FirstByte \<or> ss_phase s = StunHeader \<or> ss_phase s = ChannelHeader \<or> ss_phase s' = FirstByte) \<and>
    (ss_phase s = FirstByte \<longrightarrow> 0 < need (ss_phase s'))"
proof (cases "ss_phase s")
  case FirstByte
  then show ?thesis using assms
    by (auto simp: on_complete_def read_first_byte_def Let_def is_channel_def)
next
  case StunHeader
  then show ?thesis using assms by (auto simp: on_complete_def read_stun_header_def)
next
  case (StunBody h)
  then have "\<not> is_channel ((h @ pending s) ! 0)" using assms(1) by (cases h) auto
  then show ?thesis using StunBody assms by (auto simp: on_complete_def read_stun_body_def in_bounds_def)
next
  case ChannelHeader
  then show ?thesis using assms by (auto simp: on_complete_def read_channel_header_def Let_def)
next
  case (ChannelBody n pl)
  let ?d = "([first_byte s, chan_header_buf s ! 0, chan_header_buf s ! 1, chan_header_buf s ! 2] @ pending s, 4 + unat n)"
  have "in_bounds ?d"
    using ChannelBody assms(1,2) padded_len_bound [of n] padded_len_wraps [of n]
    by (cases "unat n < 65533") (auto simp: in_bounds_def attrs_len_of_def)
  then show ?thesis using ChannelBody assms
    by (auto simp: on_complete_def read_channel_body_def Let_def)
qed

lemma settle_ok:
  assumes "phase_ok (ss_phase s) s" "length (pending s) \<le> need (ss_phase s)" "settle s = (ds, s')"
  shows "session_ok s' \<and> list_all in_bounds ds"
proof (cases "length (pending s) = need (ss_phase s)")
  case False
  then show ?thesis using assms by (auto simp: settle_def session_ok_def)
next
  case full: True
  obtain ds1 s1 where 1: "on_complete s = (ds1, s1)" by force
  note ok1 = on_complete_ok [OF assms(1) full 1]
  show ?thesis
  proof (cases "need (ss_phase s1) = 0")
    case False
    then show ?thesis using assms(3) full 1 ok1 by (auto simp: settle_def session_ok_def)
  next
    case True
    obtain ds2 s2 where 2: "on_complete s1 = (ds2, s2)" by force
    have ok2: "phase_ok (ss_phase s2) s2 \<and> pending s2 = [] \<and> list_all in_bounds ds2"
      using on_complete_ok [OF _ _ 2] ok1 True by simp
    have "need (ss_phase s2) \<noteq> 0"
      using True 2 by (cases "ss_phase s1") (auto simp: on_complete_def read_stun_body_def read_channel_body_def Let_def)
    then show ?thesis using assms(3) full 1 2 ok1 ok2 True by (auto simp: settle_def session_ok_def)
  qed
qed

lemma feed_ok:
  "session_ok s \<Longrightarrow> session_ok (snd (feed bs s)) \<and> list_all in_bounds (fst (feed bs s))"
proof (induction bs arbitrary: s)
  case (Cons b bs)
  obtain ds1 s1 where 1: "feed_byte b s = (ds1, s1)" by force
  then have "session_ok s1 \<and> list_all in_bounds ds1"
    using settle_ok [of "s\<lparr>pending := pending s @ [b]\<rparr>" ds1 s1] Cons.prems
    by (simp add: feed_byte_def session_ok_def)
  then show ?case using 1 Cons.IH [of s1] by (auto split: prod.splits)
qed simp

section \<open>Properties\<close>

text \<open>
  Framing: when a client whose session is between two frames sends a sequence of STUN
  messages and padded ChannelData messages, cut into segments anywhere (\<open>chunks\<close>), the
  transport hands on exactly these frames, in order, each with the size its header
  declares and with the client's endpoint, and is between two frames again.
\<close>

lemma tcp_framing:
  assumes "reading tr i = Some (A, s)" "idle s" "list_all frame_ok frames" "concat chunks = concat frames"
  shows "fst (tcp_receives i chunks tr) = map (\<lambda>f. (f, frame_size f, A)) frames \<and>
    (\<exists>s'. reading (snd (tcp_receives i chunks tr)) i = Some (A, s') \<and> idle s')"
proof -
  obtain s' where "idle s'" "feed (concat chunks) s = (map (\<lambda>f. (f, frame_size f)) frames, s')"
    using feed_frames [OF assms(2,3)] assms(4) by auto
  with tcp_receives_feed [OF assms(1)] show ?thesis by auto
qed

text \<open>Over TLS nothing is read before the handshake has succeeded; then the stream starts between two frames.\<close>

lemma tls_silent_before_handshake:
  "fst (tcp_receives (length (st_conns tr)) chunks (tls_accept remote tr)) = []"
  "reading (tls_handshake (length (st_conns tr)) True (tls_accept remote tr)) (length (st_conns tr)) = Some (remote, run_session)"
proof -
  have "reading tr (length (st_conns tr)) = None" by (simp add: reading_def)
  then show "fst (tcp_receives (length (st_conns tr)) chunks (tls_accept remote tr)) = []"
    by (simp add: tcp_receives_silent reading_accept(2))
  show "reading (tls_handshake (length (st_conns tr)) True (tls_accept remote tr)) (length (st_conns tr)) = Some (remote, run_session)"
    by (simp add: tls_handshake_def tls_accept_def reading_def nth_append)
qed

definition demo_remote :: Endpoint where
  "demo_remote = \<lparr>ep_address = ''10.0.0.7'', ep_port = 5000\<rparr>"

end
