(* ===== verification/Dtls_Transport.thy ===== *)
theory Dtls_Transport
  imports Allocation
begin

text \<open>
  \<open>transport/dtls_transport.cpp\<close>: one DTLS session per remote endpoint, the handshake, and
  the delivery of what OpenSSL decrypts. OpenSSL is a parameter: what \<open>SSL_do_handshake\<close>,
  \<open>SSL_read\<close> and \<open>SSL_write\<close> do to the memory BIO that is read, to the one that is written
  and to their own state. The server runs on one thread, so that a mutex found locked is
  locked by the thread itself. For \<open>std::mutex\<close> the C++ standard leaves it undefined what
  locking one the thread already owns does (it may wait for ever or throw): the outcome is
  \<open>Relocked\<close>, and the model says nothing about what follows. A callback that reads
  outside its buffer (\<open>None\<close>) has the outcome \<open>BadRead\<close>.
  Endpoints carry addresses as \<open>to_string\<close> printed them, so that parsing one and printing
  it again, as \<open>DtlsTransport::send\<close> does for its key, gives the same text.
\<close>

section \<open>State\<close>

datatype handshake_result = HandshakeDone | WantReadWrite | HandshakeError int

record 'ssl ssl_engine =
  SSL_new :: "'ssl"
  SSL_do_handshake :: "bytes \<Rightarrow> 'ssl \<Rightarrow> handshake_result \<times> bytes \<times> bytes \<times> 'ssl"
  SSL_read :: "nat \<Rightarrow> bytes \<Rightarrow> 'ssl \<Rightarrow> bytes \<times> bytes \<times> bytes \<times> 'ssl"
  SSL_write :: "bytes \<Rightarrow> 'ssl \<Rightarrow> bytes \<times> 'ssl"

datatype 'a outcome = Done 'a | Relocked | BadRead

record 'ssl DtlsSession =
  peer_endpoint :: Endpoint
  dtls_ssl :: "'ssl"
  rbio :: bytes
  wbio :: bytes
  handshake_done :: bool
  mutex_locked :: bool

definition mk_session :: "'ssl ssl_engine \<Rightarrow> Endpoint \<Rightarrow> 'ssl DtlsSession" where
  "mk_session eng remote =
     \<lparr>peer_endpoint = remote, dtls_ssl = SSL_new eng, rbio = [], wbio = [], handshake_done = False, mutex_locked = False\<rparr>"

record 'ssl DtlsTransport =
  dtls_sessions :: "(string, 'ssl DtlsSession) umap"
  dtls_receiving :: bool

type_synonym datagram = "bytes \<times> Endpoint"

definition kMaxPacket :: nat where "kMaxPacket = 65536"

section \<open>DtlsSession\<close>

text \<open>The loop of \<open>flush_write\<close>: the BIO is read out in pieces, each sent to the peer.\<close>

function drain :: "bytes \<Rightarrow> bytes list" where
  "drain bio = (if bio = [] then [] else take kMaxPacket bio # drain (drop kMaxPacket bio))"
  by auto
termination by (relation "measure length") (auto simp: kMaxPacket_def)

declare drain.simps [simp del]

definition flush_write :: "'ssl DtlsSession \<Rightarrow> datagram list \<times> 'ssl DtlsSession" where
  "flush_write s = (map (\<lambda>d. (d, peer_endpoint s)) (drain (wbio s)), s\<lparr>wbio := []\<rparr>)"

definition session_send :: "'ssl ssl_engine \<Rightarrow> bytes \<Rightarrow> 'ssl DtlsSession \<Rightarrow> (datagram list \<times> 'ssl DtlsSession) outcome" where
  "session_send eng data s =
     (if mutex_locked s then Relocked
      else if \<not> handshake_done s then Done ([], s)
      else case SSL_write eng data (dtls_ssl s) of (out, ssl') \<Rightarrow>
        Done (flush_write (s\<lparr>dtls_ssl := ssl', wbio := wbio s @ out\<rparr>)))"

text \<open>The part of \<open>feed\<close> before the handshake is done.\<close>

definition feed_handshake :: "'ssl ssl_engine \<Rightarrow> 'ssl DtlsSession \<Rightarrow> datagram list \<times> 'ssl DtlsSession" where
  "feed_handshake eng s =
     (case SSL_do_handshake eng (rbio s) (dtls_ssl s) of (ret, rest, out, ssl') \<Rightarrow>
        let s = s\<lparr>rbio := rest, wbio := wbio s @ out, dtls_ssl := ssl'\<rparr>
        in case ret of
          HandshakeDone \<Rightarrow> flush_write (s\<lparr>handshake_done := True\<rparr>)
        | WantReadWrite \<Rightarrow> flush_write s
        | HandshakeError err \<Rightarrow> flush_write s)"

text \<open>The part of \<open>feed\<close> that reads: the plain text, empty when there is none.\<close>

definition feed_read :: "'ssl ssl_engine \<Rightarrow> 'ssl DtlsSession \<Rightarrow> bytes \<times> 'ssl DtlsSession" where
  "feed_read eng s =
     (case SSL_read eng kMaxPacket (rbio s) (dtls_ssl s) of (buf, rest, out, ssl') \<Rightarrow>
        (buf, s\<lparr>rbio := rest, wbio := wbio s @ out, dtls_ssl := ssl'\<rparr>))"

section \<open>DtlsTransport\<close>

definition put_session :: "string \<Rightarrow> 'ssl DtlsSession \<Rightarrow> 'ssl DtlsTransport \<Rightarrow> 'ssl DtlsTransport" where
  "put_session key s tr = tr\<lparr>dtls_sessions := um_set key s (dtls_sessions tr)\<rparr>"

definition dtls_send ::
    "'ssl ssl_engine \<Rightarrow> bytes \<Rightarrow> Endpoint \<Rightarrow> 'ssl DtlsTransport \<Rightarrow> (datagram list \<times> 'ssl DtlsTransport) outcome" where
  "dtls_send eng data to_ep tr =
     (case um_find (dtls_sessions tr) (endpointKey to_ep) of
        None \<Rightarrow> Done ([], tr)
      | Some s \<Rightarrow>
          (case session_send eng data s of
             Relocked \<Rightarrow> Relocked
           | BadRead \<Rightarrow> BadRead
           | Done (outs, s') \<Rightarrow> Done (outs, put_session (endpointKey to_ep) s' tr)))"

text \<open>The calls of \<open>send\<close> that a receive callback makes before it returns.\<close>

fun dtls_sends ::
    "'ssl ssl_engine \<Rightarrow> datagram list \<Rightarrow> 'ssl DtlsTransport \<Rightarrow> (datagram list \<times> 'ssl DtlsTransport) outcome" where
  "dtls_sends eng [] tr = Done ([], tr)"
| "dtls_sends eng ((data, to_ep) # sends) tr =
     (case dtls_send eng data to_ep tr of
        Relocked \<Rightarrow> Relocked
      | BadRead \<Rightarrow> BadRead
      | Done (outs, tr1) \<Rightarrow>
          (case dtls_sends eng sends tr1 of
             Relocked \<Rightarrow> Relocked
           | BadRead \<Rightarrow> BadRead
           | Done (outs1, tr2) \<Rightarrow> Done (outs @ outs1, tr2)))"

definition unlock_flush :: "string \<Rightarrow> 'ssl DtlsTransport \<Rightarrow> datagram list \<times> 'ssl DtlsTransport" where
  "unlock_flush key tr =
     (case um_find (dtls_sessions tr) key of
        None \<Rightarrow> ([], tr)
      | Some s \<Rightarrow> (case flush_write s of (outs, s') \<Rightarrow> (outs, put_session key (s'\<lparr>mutex_locked := False\<rparr>) tr)))"

text \<open>\<open>DtlsSession::feed\<close>; \<open>on_receive\<close> gives the sends of the callback and its new state.\<close>

definition dtls_feed ::
    "'ssl ssl_engine \<Rightarrow> (bytes \<Rightarrow> Endpoint \<Rightarrow> 'w \<Rightarrow> (datagram list \<times> 'w) option) \<Rightarrow> bytes \<Rightarrow> string \<Rightarrow> 'ssl DtlsSession
      \<Rightarrow> 'ssl DtlsTransport \<Rightarrow> 'w \<Rightarrow> (datagram list \<times> 'ssl DtlsTransport \<times> 'w) outcome" where
  "dtls_feed eng on_receive data key s tr w =
     (if mutex_locked s then Relocked
      else
        let s = s\<lparr>mutex_locked := True, rbio := rbio s @ data\<rparr>
        in if \<not> handshake_done s then
             (case feed_handshake eng s of (outs, s') \<Rightarrow>
                Done (outs, put_session key (s'\<lparr>mutex_locked := False\<rparr>) tr, w))
           else
             (case feed_read eng s of (buf, s') \<Rightarrow>
                let tr1 = put_session key s' tr in
                if buf = [] then
                  (case unlock_flush key tr1 of (outs, tr2) \<Rightarrow> Done (outs, tr2, w))
                else
                  (case on_receive buf (peer_endpoint s') w of
                     None \<Rightarrow> BadRead
                   | Some (sends, w') \<Rightarrow>
                       (case dtls_sends eng sends tr1 of
                          Relocked \<Rightarrow> Relocked
                        | BadRead \<Rightarrow> BadRead
                        | Done (outs, tr2) \<Rightarrow>
                            (case unlock_flush key tr2 of (outs1, tr3) \<Rightarrow> Done (outs @ outs1, tr3, w'))))))"

text \<open>The completion handler of \<open>receive\<close>: an error code, or a datagram cut to the buffer.\<close>

definition dtls_receive ::
    "'ssl ssl_engine \<Rightarrow> (bytes \<Rightarrow> Endpoint \<Rightarrow> 'w \<Rightarrow> (datagram list \<times> 'w) option) \<Rightarrow> Endpoint \<Rightarrow> unit + bytes
      \<Rightarrow> 'ssl DtlsTransport \<Rightarrow> 'w \<Rightarrow> (datagram list \<times> 'ssl DtlsTransport \<times> 'w) outcome" where
  "dtls_receive eng on_receive remote ev tr w =
     (if \<not> dtls_receiving tr then Done ([], tr, w)
      else case ev of
        Inl _ \<Rightarrow> Done ([], tr\<lparr>dtls_receiving := False\<rparr>, w)
      | Inr datagram \<Rightarrow>
          let d = take 65536 datagram; key = endpointKey remote
          in if d = [] then Done ([], tr, w)
             else case um_find (dtls_sessions tr) key of
               None \<Rightarrow>
                 let s = mk_session eng remote
                 in dtls_feed eng on_receive d key s (put_session key s tr) w
             | Some s \<Rightarrow> dtls_feed eng on_receive d key s tr w)"

section \<open>Laws\<close>

lemma put_find [simp]:
  "um_find (dtls_sessions (put_session k s tr)) k' = (if k' = k then Some s else um_find (dtls_sessions tr) k')"
  by (simp add: put_session_def)

lemma put_receiving [simp]: "dtls_receiving (put_session k s tr) = dtls_receiving tr"
  by (simp add: put_session_def)

text \<open>\<open>flush_write\<close> sends everything, in order, in datagrams of bounded size.\<close>

lemma concat_drain [simp]: "concat (drain bio) = bio"
  by (induction bio rule: drain.induct) (subst drain.simps, simp)

lemma drain_bounds: "d \<in> set (drain bio) \<Longrightarrow> d \<noteq> [] \<and> length d \<le> kMaxPacket"
  by (induction bio rule: drain.induct)
    (subst (asm) (2) drain.simps, auto simp: kMaxPacket_def split: if_splits)

lemma flush_write_simps [simp]:
  "flush_write s = (ds, s') \<Longrightarrow> mutex_locked s' = mutex_locked s \<and> handshake_done s' = handshake_done s \<and>
     peer_endpoint s' = peer_endpoint s \<and> wbio s' = [] \<and> concat (map fst ds) = wbio s \<and>
     (\<forall>d\<in>set ds. snd d = peer_endpoint s)"
  by (auto simp: flush_write_def comp_def)

text \<open>A session between two events: its mutex is free and nothing is left to be sent.\<close>

definition at_rest :: "'ssl DtlsTransport \<Rightarrow> bool" where
  "at_rest tr = (\<forall>k s. um_find (dtls_sessions tr) k = Some s \<longrightarrow>
     \<not> mutex_locked s \<and> wbio s = [] \<and> endpointKey (peer_endpoint s) = k)"

text \<open>Only the session \<open>key\<close> is being fed.\<close>

definition feeding :: "string \<Rightarrow> 'ssl DtlsTransport \<Rightarrow> bool" where
  "feeding key tr = (\<forall>k s. um_find (dtls_sessions tr) k = Some s \<longrightarrow>
     mutex_locked s = (k = key) \<and> (k \<noteq> key \<longrightarrow> wbio s = []) \<and> endpointKey (peer_endpoint s) = k)"

lemma dtls_send_self:
  "um_find (dtls_sessions tr) (endpointKey to_ep) = Some s \<Longrightarrow> mutex_locked s \<Longrightarrow> dtls_send eng data to_ep tr = Relocked"
  by (simp add: dtls_send_def session_send_def)

lemma session_send_done:
  assumes "\<not> mutex_locked s" "wbio s = []"
  obtains outs s' where "session_send eng data s = Done (outs, s')" "\<not> mutex_locked s'" "wbio s' = []"
    "peer_endpoint s' = peer_endpoint s"
proof (cases "handshake_done s")
  case True
  obtain out ssl' where w: "SSL_write eng data (dtls_ssl s) = (out, ssl')" by force
  obtain outs s' where f: "flush_write (s\<lparr>dtls_ssl := ssl', wbio := wbio s @ out\<rparr>) = (outs, s')" by force
  have "session_send eng data s = Done (outs, s')"
    using assms(1) True w f by (simp add: session_send_def)
  then show ?thesis using that flush_write_simps [OF f] assms by simp
next
  case False
  then show ?thesis using that [of "[]" s] assms by (simp add: session_send_def)
qed

lemma dtls_send_other:
  assumes "feeding key tr" "endpointKey to_ep \<noteq> key"
  obtains outs tr' where "dtls_send eng data to_ep tr = Done (outs, tr')" "feeding key tr'"
    "um_find (dtls_sessions tr') key = um_find (dtls_sessions tr) key"
proof (cases "um_find (dtls_sessions tr) (endpointKey to_ep)")
  case None
  then show ?thesis using that [of "[]" tr] assms by (simp add: dtls_send_def)
next
  case (Some s)
  then have s: "\<not> mutex_locked s" "wbio s = []" "endpointKey (peer_endpoint s) = endpointKey to_ep"
    using assms by (auto simp: feeding_def)
  obtain outs s' where s': "session_send eng data s = Done (outs, s')" "\<not> mutex_locked s'" "wbio s' = []"
    "peer_endpoint s' = peer_endpoint s" using session_send_done [OF s(1,2)] by metis
  let ?tr' = "put_session (endpointKey to_ep) s' tr"
  have "feeding key ?tr'" using assms s s' by (simp add: feeding_def)
  then show ?thesis using that [of outs ?tr'] Some s' assms(2) by (simp add: dtls_send_def)
qed

text \<open>The sends of a callback return exactly when none of them goes back to the session being fed.\<close>

lemma dtls_sends_done:
  assumes "feeding key tr" "\<forall>(data, to_ep) \<in> set sends. endpointKey to_ep \<noteq> key"
  shows "\<exists>outs tr'. dtls_sends eng sends tr = Done (outs, tr') \<and> feeding key tr' \<and>
    um_find (dtls_sessions tr') key = um_find (dtls_sessions tr) key"
  using assms
proof (induction sends arbitrary: tr)
  case (Cons x sends)
  obtain data to_ep where x: "x = (data, to_ep)" by force
  have ne: "endpointKey to_ep \<noteq> key" using Cons.prems(2) x by auto
  obtain outs tr1 where 1: "dtls_send eng data to_ep tr = Done (outs, tr1)" "feeding key tr1"
    "um_find (dtls_sessions tr1) key = um_find (dtls_sessions tr) key"
    using dtls_send_other [OF Cons.prems(1) ne] by metis
  obtain outs2 tr2 where "dtls_sends eng sends tr1 = Done (outs2, tr2)" "feeding key tr2"
    "um_find (dtls_sessions tr2) key = um_find (dtls_sessions tr1) key"
    using Cons.IH [OF 1(2)] Cons.prems(2) by auto
  then show ?case using 1 x by simp
qed simp

lemma dtls_sends_relocked:
  assumes "feeding key tr" "um_find (dtls_sessions tr) key = Some s"
    "\<exists>(data, to_ep) \<in> set sends. endpointKey to_ep = key"
  shows "dtls_sends eng sends tr = Relocked"
  using assms
proof (induction sends arbitrary: tr)
  case (Cons x sends)
  obtain data to_ep where x: "x = (data, to_ep)" by force
  show ?case
  proof (cases "endpointKey to_ep = key")
    case True
    then have "dtls_send eng data to_ep tr = Relocked"
      using dtls_send_self [of tr to_ep s] Cons.prems(1,2) by (auto simp: feeding_def)
    then show ?thesis using x by simp
  next
    case False
    obtain outs tr1 where 1: "dtls_send eng data to_ep tr = Done (outs, tr1)" "feeding key tr1"
      "um_find (dtls_sessions tr1) key = um_find (dtls_sessions tr) key"
      using dtls_send_other [OF Cons.prems(1) False] by metis
    then have "dtls_sends eng sends tr1 = Relocked"
      using Cons.IH [OF 1(2)] Cons.prems False x by auto
    then show ?thesis using 1 x by simp
  qed
qed simp

section \<open>One datagram\<close>

text \<open>What a datagram makes \<open>SSL_read\<close> return.\<close>

definition plain_text :: "'ssl ssl_engine \<Rightarrow> Endpoint \<Rightarrow> bytes \<Rightarrow> 'ssl DtlsTransport \<Rightarrow> bytes" where
  "plain_text eng remote d tr =
     (case um_find (dtls_sessions tr) (endpointKey remote) of
        None \<Rightarrow> []
      | Some s \<Rightarrow> if handshake_done s then fst (SSL_read eng kMaxPacket (rbio s @ d) (dtls_ssl s)) else [])"

lemma feed_handshake_rest:
  assumes "feed_handshake eng s = (outs, s')"
  shows "wbio s' = [] \<and> peer_endpoint s' = peer_endpoint s"
proof -
  obtain ret rest out ssl' where h: "SSL_do_handshake eng (rbio s) (dtls_ssl s) = (ret, rest, out, ssl')"
    by (metis prod_cases4)
  let ?s = "s\<lparr>rbio := rest, wbio := wbio s @ out, dtls_ssl := ssl'\<rparr>"
  have "flush_write ?s = (outs, s') \<or> flush_write (?s\<lparr>handshake_done := True\<rparr>) = (outs, s')"
    using assms h by (cases ret) (auto simp: feed_handshake_def)
  then show ?thesis using flush_write_simps by force
qed

lemma unlock_flush_rest:
  assumes "feeding key tr" "unlock_flush key tr = (outs, tr')" "um_find (dtls_sessions tr) key = Some s"
  shows "at_rest tr'"
proof -
  obtain os s' where f: "flush_write s = (os, s')" by force
  have "endpointKey (peer_endpoint s) = key" using assms(1,3) by (simp add: feeding_def)
  moreover have "tr' = put_session key (s'\<lparr>mutex_locked := False\<rparr>) tr"
    using assms(2,3) f by (simp add: unlock_flush_def)
  ultimately show ?thesis using assms(1) flush_write_simps [OF f]
    by (auto simp: at_rest_def feeding_def)
qed

lemma dtls_feed_handshake:
  assumes "at_rest tr" "\<not> mutex_locked s" "\<not> handshake_done s" "endpointKey (peer_endpoint s) = key"
  shows "\<exists>outs tr'. dtls_feed eng cb d key s tr w = Done (outs, tr', w) \<and> at_rest tr'"
proof -
  obtain outs s' where h: "feed_handshake eng (s\<lparr>mutex_locked := True, rbio := rbio s @ d\<rparr>) = (outs, s')" by force
  have "at_rest (put_session key (s'\<lparr>mutex_locked := False\<rparr>) tr)"
    using assms feed_handshake_rest [OF h] by (auto simp: at_rest_def)
  then show ?thesis using assms h by (simp add: dtls_feed_def)
qed

lemma dtls_feed_established:
  assumes "at_rest tr" "um_find (dtls_sessions tr) key = Some s" "handshake_done s"
    and buf: "buf = fst (SSL_read eng kMaxPacket (rbio s @ d) (dtls_ssl s))"
    and cb: "buf \<noteq> [] \<Longrightarrow> cb buf (peer_endpoint s) w = Some (sends, w')"
  shows "(if buf \<noteq> [] \<and> (\<exists>(data, to_ep) \<in> set sends. endpointKey to_ep = key)
    then dtls_feed eng cb d key s tr w = Relocked
    else \<exists>outs tr'. dtls_feed eng cb d key s tr w = Done (outs, tr', if buf = [] then w else w') \<and> at_rest tr')"
proof -
  have s: "\<not> mutex_locked s" "endpointKey (peer_endpoint s) = key" using assms(1,2) by (auto simp: at_rest_def)
  obtain b rest out ssl' where r: "SSL_read eng kMaxPacket (rbio s @ d) (dtls_ssl s) = (b, rest, out, ssl')"
    by (metis prod_cases4)
  let ?s1 = "s\<lparr>mutex_locked := True, rbio := rest, wbio := wbio s @ out, dtls_ssl := ssl'\<rparr>"
  let ?tr1 = "put_session key ?s1 tr"
  have rd: "feed_read eng (s\<lparr>mutex_locked := True, rbio := rbio s @ d\<rparr>) = (buf, ?s1)"
    using r buf by (simp add: feed_read_def)
  have f1: "feeding key ?tr1" using assms(1) s by (auto simp: feeding_def at_rest_def)
  have k1: "um_find (dtls_sessions ?tr1) key = Some ?s1" by simp
  show ?thesis
  proof (cases "buf = []")
    case True
    obtain outs tr2 where u: "unlock_flush key ?tr1 = (outs, tr2)" by force
    then show ?thesis using True s assms(3) rd unlock_flush_rest [OF f1 u k1]
      by (simp add: dtls_feed_def)
  next
    case False
    show ?thesis
    proof (cases "\<exists>(data, to_ep) \<in> set sends. endpointKey to_ep = key")
      case True
      then show ?thesis using False s assms(3) rd cb dtls_sends_relocked [OF f1 k1 True]
        by (simp add: dtls_feed_def)
    next
      case ok: False
      then obtain outs tr2 where t2: "dtls_sends eng sends ?tr1 = Done (outs, tr2)" "feeding key tr2"
        "um_find (dtls_sessions tr2) key = um_find (dtls_sessions ?tr1) key"
        using dtls_sends_done [OF f1, of sends eng] by auto
      obtain outs3 tr3 where u: "unlock_flush key tr2 = (outs3, tr3)" by force
      have "dtls_feed eng cb d key s tr w = Done (outs @ outs3, tr3, w')"
        using False s assms(3) rd cb t2(1) u by (simp add: dtls_feed_def)
      then show ?thesis using ok False unlock_flush_rest [OF t2(2) u t2(3) [unfolded k1]] by auto
    qed
  qed
qed

text \<open>When the handler of a datagram returns, and that it leaves every session unlocked and flushed.\<close>

lemma dtls_receive_cases:
  assumes "at_rest tr" "dtls_receiving tr" "d \<noteq> []" "length d \<le> 65536"
    and "plain = plain_text eng remote d tr" "plain \<noteq> [] \<Longrightarrow> cb plain remote w = Some (sends, w')"
  shows "(if plain \<noteq> [] \<and> (\<exists>data. (data, remote) \<in> set sends)
    then dtls_receive eng cb remote (Inr d) tr w = Relocked
    else \<exists>outs tr'. dtls_receive eng cb remote (Inr d) tr w = Done (outs, tr', if plain = [] then w else w') \<and> at_rest tr')"
proof (cases "um_find (dtls_sessions tr) (endpointKey remote)")
  case None
  let ?s = "mk_session eng remote"
  have "at_rest (put_session (endpointKey remote) ?s tr)"
    using assms(1) by (simp add: at_rest_def mk_session_def)
  then show ?thesis
    using dtls_feed_handshake [of "put_session (endpointKey remote) ?s tr" ?s "endpointKey remote" eng cb d w] None assms
    by (simp add: dtls_receive_def plain_text_def mk_session_def Let_def)
next
  case (Some s)
  then have "\<not> mutex_locked s \<and> endpointKey (peer_endpoint s) = endpointKey remote"
    using assms(1) by (simp add: at_rest_def)
  then have s: "\<not> mutex_locked s" "peer_endpoint s = remote" by simp_all
  have eq: "dtls_receive eng cb remote (Inr d) tr w = dtls_feed eng cb d (endpointKey remote) s tr w"
    using Some assms(2-4) by (simp add: dtls_receive_def Let_def)
  show ?thesis
  proof (cases "handshake_done s")
    case False
    then show ?thesis using dtls_feed_handshake [OF assms(1) s(1) False, of "endpointKey remote" eng cb d w] s(2) eq Some assms(5)
      by (simp add: plain_text_def)
  next
    case True
    have p: "plain = fst (SSL_read eng kMaxPacket (rbio s @ d) (dtls_ssl s))"
      using True Some assms(5) by (simp add: plain_text_def)
    have "(\<exists>(data, to_ep) \<in> set sends. endpointKey to_ep = endpointKey remote) \<longleftrightarrow> (\<exists>data. (data, remote) \<in> set sends)"
      by auto
    then show ?thesis
      using dtls_feed_established [OF assms(1) Some True p, of cb w sends w'] s(2) assms(6) eq by simp
  qed
qed

section \<open>Properties\<close>

text \<open>
  Over DTLS the handler of a datagram returns exactly when the receive callback sends
  nothing back to the endpoint the datagram came from: otherwise \<open>DtlsSession::send\<close> locks
  the mutex \<open>DtlsSession::feed\<close> holds while it runs the callback. When it returns, every
  session is unlocked and has nothing left to send, and the callback ran exactly when
  OpenSSL had a plain text.
\<close>

lemma dtls_handler_returns:
  assumes "at_rest tr" "dtls_receiving tr" "d \<noteq> []" "length d \<le> 65536"
    and "plain = plain_text eng remote d tr" "plain \<noteq> [] \<Longrightarrow> cb plain remote w = Some (sends, w')"
  shows "(dtls_receive eng cb remote (Inr d) tr w = Relocked
      \<longleftrightarrow> plain \<noteq> [] \<and> (\<exists>data. (data, remote) \<in> set sends)) \<and>
    (\<forall>outs tr' w2. dtls_receive eng cb remote (Inr d) tr w = Done (outs, tr', w2) \<longrightarrow>
       at_rest tr' \<and> w2 = (if plain = [] then w else w'))"
  using dtls_receive_cases [where cb = cb and w = w, OF assms] by (auto split: if_splits)

text \<open>An engine without cryptography: the handshake is one datagram, text is sent as it is.\<close>

definition demo_engine :: "unit ssl_engine" where
  "demo_engine = \<lparr>SSL_new = (), SSL_do_handshake = \<lambda>bio s. (HandshakeDone, [], [22], ()),
     SSL_read = \<lambda>n bio s. (take n bio, drop n bio, [], ()), SSL_write = \<lambda>d s. (d, ())\<rparr>"

definition demo_peer :: Endpoint where
  "demo_peer = \<lparr>ep_address = ''10.0.0.7'', ep_port = 5000\<rparr>"

definition demo_tr :: "unit DtlsTransport" where
  "demo_tr = \<lparr>dtls_sessions =
     [(endpointKey demo_peer, (mk_session demo_engine demo_peer)\<lparr>handshake_done := True\<rparr>)], dtls_receiving = True\<rparr>"

end
