(* ===== verification/Config.thy ===== *)
theory Config
  imports Prelude
begin

text \<open>
  \<open>shared/config/config.hpp\<close>: the environment files of the three programs. The
  configuration is the map the lines of a file build up, the last assignment of a key
  winning; \<open>Inl\<close> is the exception of a file that cannot be opened.
\<close>

section \<open>trim and getline\<close>

definition is_blank :: "char \<Rightarrow> bool" where
  "is_blank c = (c \<in> set [CHR '' '', CHR 0x09, CHR 0x0D, CHR 0x0A])"

definition trim :: "string \<Rightarrow> string" where
  "trim s = rev (dropWhile is_blank (rev (dropWhile is_blank s)))"

text \<open>The lines \<open>std::getline\<close> yields: a last line without a line feed counts when it is not empty.\<close>

fun getlines :: "string \<Rightarrow> string \<Rightarrow> string list" where
  "getlines acc [] = (if acc = [] then [] else [rev acc])"
| "getlines acc (c # cs) = (if c = CHR 0x0A then rev acc # getlines [] cs else getlines (c # acc) cs)"

section \<open>load\<close>

type_synonym config = "string \<rightharpoonup> string"

text \<open>A value in double quotes loses them.\<close>

definition unquote :: "string \<Rightarrow> string" where
  "unquote value =
     (if length value \<ge> 2 \<and> hd value = CHR 0x22 \<and> last value = CHR 0x22
      then take (length value - 2) (drop 1 value) else value)"

definition load_line :: "string \<Rightarrow> config \<Rightarrow> config" where
  "load_line line data =
     (if line = [] \<or> hd line = CHR ''#'' then data
      else if CHR ''='' \<notin> set line then data
      else
        let key = trim (takeWhile (\<lambda>c. c \<noteq> CHR ''='') line);
            value = trim (tl (dropWhile (\<lambda>c. c \<noteq> CHR ''='') line))
        in data(key \<mapsto> unquote value))"

definition load :: "string \<Rightarrow> string option \<Rightarrow> config \<Rightarrow> string + config" where
  "load path content data =
     (case content of
        None \<Rightarrow> Inl (''config: cannot open '' @ path)
      | Some txt \<Rightarrow> Inr (fold load_line (getlines [] txt) data))"

section \<open>get, getInt, getBool\<close>

definition cfg_get :: "string \<Rightarrow> string \<Rightarrow> config \<Rightarrow> string" where
  "cfg_get key default_val data = (case data key of Some v \<Rightarrow> v | None \<Rightarrow> default_val)"

definition getInt :: "string \<Rightarrow> int \<Rightarrow> config \<Rightarrow> int" where
  "getInt key default_val data =
     (case data key of
        None \<Rightarrow> default_val
      | Some v \<Rightarrow> (case stoi v of Some i \<Rightarrow> i | None \<Rightarrow> default_val))"

definition getBool :: "string \<Rightarrow> bool \<Rightarrow> config \<Rightarrow> bool" where
  "getBool key default_val data =
     (let val = cfg_get key [] data
      in if val = ''true'' \<or> val = ''1'' \<or> val = ''yes'' then True
         else if val = ''false'' \<or> val = ''0'' \<or> val = ''no'' then False
         else default_val)"

section \<open>Lemmas\<close>

lemma getlines_line:
  "CHR 0x0A \<notin> set l \<Longrightarrow> getlines acc (l @ CHR 0x0A # cs) = (rev acc @ l) # getlines [] cs"
  by (induction l arbitrary: acc) auto

lemma getlines_unlines:
  "list_all (\<lambda>l. CHR 0x0A \<notin> set l) ls \<Longrightarrow> getlines [] (concat (map (\<lambda>l. l @ [CHR 0x0A]) ls)) = ls"
  by (induction ls) (auto simp: getlines_line)

lemma trim_id:
  assumes "s = [] \<or> \<not> is_blank (hd s) \<and> \<not> is_blank (last s)"
  shows "trim s = s"
proof (cases s)
  case (Cons c cs)
  have "dropWhile is_blank s = s" using assms Cons by simp
  moreover have "dropWhile is_blank (rev s) = rev s"
  proof -
    obtain ys y where "s = ys @ [y]" using Cons by (metis rev_exhaust list.distinct(1))
    then show ?thesis using assms by simp
  qed
  ultimately show ?thesis by (simp add: trim_def)
qed (simp add: trim_def)

text \<open>A line \<open>key=value\<close> in canonical form.\<close>

definition plain_entry :: "string \<times> string \<Rightarrow> bool" where
  "plain_entry kv = (case kv of (k, v) \<Rightarrow>
     k \<noteq> [] \<and> hd k \<noteq> CHR ''#'' \<and> CHR ''='' \<notin> set k \<and> CHR 0x0A \<notin> set k \<and> CHR 0x0A \<notin> set v \<and>
     \<not> is_blank (hd k) \<and> \<not> is_blank (last k) \<and>
     (v = [] \<or> \<not> is_blank (hd v) \<and> \<not> is_blank (last v) \<and> hd v \<noteq> CHR 0x22))"

definition render :: "(string \<times> string) list \<Rightarrow> string" where
  "render kvs = concat (map (\<lambda>l. l @ [CHR 0x0A]) (map (\<lambda>(k, v). k @ CHR ''='' # v) kvs))"

lemma split_at_char:
  "x \<notin> set k \<Longrightarrow> takeWhile (\<lambda>c. c \<noteq> x) (k @ x # v) = k \<and> dropWhile (\<lambda>c. c \<noteq> x) (k @ x # v) = x # v"
  by (induction k) auto

lemma load_line_entry:
  assumes "plain_entry (k, v)"
  shows "load_line (k @ CHR ''='' # v) data = data(k \<mapsto> v)"
proof -
  have "takeWhile (\<lambda>c. c \<noteq> CHR ''='') (k @ CHR ''='' # v) = k \<and>
    dropWhile (\<lambda>c. c \<noteq> CHR ''='') (k @ CHR ''='' # v) = CHR ''='' # v"
    using assms by (intro split_at_char) (simp add: plain_entry_def)
  moreover have "trim k = k" "trim v = v" using assms by (auto simp: plain_entry_def intro!: trim_id)
  ultimately show ?thesis using assms by (auto simp: load_line_def plain_entry_def unquote_def Let_def)
qed

lemma fold_load_entries:
  "list_all plain_entry kvs \<Longrightarrow>
     fold load_line (map (\<lambda>(k, v). k @ CHR ''='' # v) kvs) data = data ++ map_of (rev kvs)"
proof (induction kvs arbitrary: data)
  case (Cons kv kvs)
  then show ?case by (cases kv) (simp add: load_line_entry map_add_def fun_eq_iff split: option.splits)
qed simp

section \<open>Properties\<close>

text \<open>
  A configuration file written as \<open>key=value\<close> lines is read back: after \<open>load\<close>, a key
  has the value of its last line, a key without a line keeps the value it had, and the
  default of \<open>get\<close> is used only for keys with neither.
\<close>

lemma config_roundtrip:
  assumes "list_all plain_entry kvs"
  shows "\<exists>data'. load path (Some (render kvs)) data = Inr data' \<and> data' = data ++ map_of (rev kvs) \<and>
    cfg_get key d data' = (case map_of (rev kvs) key of Some v \<Rightarrow> v | None \<Rightarrow> cfg_get key d data)"
proof -
  have "list_all (\<lambda>l. CHR 0x0A \<notin> set l) (map (\<lambda>(k, v). k @ CHR ''='' # v) kvs)"
    using assms by (auto simp: list_all_iff plain_entry_def)
  then have "getlines [] (render kvs) = map (\<lambda>(k, v). k @ CHR ''='' # v) kvs"
    unfolding render_def by (rule getlines_unlines)
  then have "load path (Some (render kvs)) data = Inr (data ++ map_of (rev kvs))"
    by (simp add: load_def fold_load_entries [OF assms])
  then show ?thesis by (auto simp: cfg_get_def map_add_def split: option.splits)
qed

end
