(* ===== verification/Turn_Server.thy ===== *)
theory Turn_Server
  imports Turn_Dispatcher Stream_Transport Dtls_Transport Config
begin

text \<open>
  \<open>turn_server/src/main.cpp\<close>: the dispatcher behind its transports. Each transport calls
  \<open>onPacket\<close> with itself as the transport to answer on; the event loop runs on one thread.
\<close>

section \<open>Wiring\<close>

text \<open>The dispatcher \<open>main\<close> constructs from the configuration.\<close>

definition mk_turn_server :: "config \<Rightarrow> TurnDispatcher" where
  "mk_turn_server cfg =
     mk_dispatcher (cfg_get ''REALM'' ''chat.example.com'' cfg) (cfg_get ''SHARED_SECRET'' ''turn_shared_secret'' cfg)
       (cfg_get ''RELAY_ADDR'' ''127.0.0.1'' cfg)
       (word_of_int (getInt ''PORT_MIN'' 49152 cfg)) (word_of_int (getInt ''PORT_MAX'' 65535 cfg))"

text \<open>The receive callback, for the deliveries of a stream transport, in order.\<close>

fun make_handler ::
    "world \<Rightarrow> transport_id \<Rightarrow> (bytes \<times> nat \<times> Endpoint) list \<Rightarrow> TurnDispatcher
      \<Rightarrow> (packet_out list \<times> TurnDispatcher) option" where
  "make_handler w t [] td = Some ([], td)"
| "make_handler w t ((data, sz, src) # ds) td = do {
     (outs, td1) \<leftarrow> onPacket w data sz src t td;
     (outs1, td2) \<leftarrow> make_handler w t ds td1;
     Some (outs @ outs1, td2) }"

text \<open>The same callback for DTLS: the sends it makes while the session's mutex is held.\<close>

definition dtls_handler ::
    "world \<Rightarrow> transport_id \<Rightarrow> bytes \<Rightarrow> Endpoint \<Rightarrow> TurnDispatcher \<Rightarrow> (datagram list \<times> TurnDispatcher) option" where
  "dtls_handler w t buf src td = do {
     (outs, td') \<leftarrow> onPacket w buf (length buf) src t td;
     Some (map (\<lambda>(t, data, dst). (data, dst)) outs, td') }"

section \<open>Every request is answered\<close>

lemma request_answered:
  assumes "td_inv (w_io w) td" "world_ok w td"
    "parse data (length data) default_message = Some (Ok, msg)" "msg_class msg \<noteq> Indication"
  obtains outs td' resp where "onPacket w data (length data) src t td = Some (outs, td')" "(t, resp, src) \<in> set outs"
proof -
  let ?td = "td\<lparr>current_transport := Some t\<rparr>"
  obtain outs td' where run: "onPacket w data (length data) src t td = Some (outs, td')"
    using onPacket_inv [OF assms(1,2) order_refl] by blast
  have inv: "am_inv (w_io w) (alloc_manager td)" using assms(1) by (simp add: td_inv_def)
  from assms(1,2) order_refl assms(4) obtain allocated r where
    "handleStun w msg data (length data) src t td =
       (case r of
          AuthOk \<Rightarrow> serve w msg src t ?td
        | WrongCredentials \<Rightarrow> Some ([(t, make_error (transaction_id msg) 441 ''Wrong Credentials'', src)], ?td)
        | StaleNonce \<Rightarrow> send_challenge w msg src t 438 ''Stale Nonce'' ?td
        | _ \<Rightarrow> send_challenge w msg src t 401 ''Unauthorized'' ?td)"
    by (rule handleStun_request)
  note h = run [unfolded onPacket_parsed [OF assms(3)] this]
  have "\<exists>resp. (t, resp, src) \<in> set outs"
  proof (cases r)
    case AuthOk
    then have s: "serve w msg src t ?td = Some (outs, td')" using h by simp
    then have "outs \<noteq> []" using serve_answers [of w ?td] inv by simp
    then obtain t' resp dst where "(t', resp, dst) \<in> set outs" by (cases outs) auto
    with serve_outs [OF s this] show ?thesis by blast
  qed (use h in \<open>auto dest: send_challenge_allocs\<close>)
  with run that show ?thesis by blast
qed

section \<open>Answers over DTLS\<close>

text \<open>The callback sends something to the endpoint it was called for.\<close>

definition answers_sender :: "world \<Rightarrow> transport_id \<Rightarrow> bytes \<Rightarrow> Endpoint \<Rightarrow> TurnDispatcher \<Rightarrow> bool" where
  "answers_sender w t buf src td =
     (case onPacket w buf (length buf) src t td of
        None \<Rightarrow> False
      | Some (outs, td') \<Rightarrow> list_ex (\<lambda>(t, data, dst). dst = src) outs)"

lemma dtls_receive_answers:
  assumes "at_rest tr" "dtls_receiving tr" "d \<noteq> []" "length d \<le> 65536" "td_inv (w_io w) td" "world_ok w td"
    and plain: "plain = plain_text eng remote d tr"
  shows "if plain \<noteq> [] \<and> answers_sender w t plain remote td
    then dtls_receive eng (dtls_handler w t) remote (Inr d) tr td = Relocked
    else \<exists>outs tr' td'. dtls_receive eng (dtls_handler w t) remote (Inr d) tr td = Done (outs, tr', td') \<and> at_rest tr' \<and> td_inv (w_io w) td'"
proof -
  obtain outs td' where p: "onPacket w plain (length plain) remote t td = Some (outs, td')" "td_inv (w_io w) td'"
    using onPacket_inv [OF assms(5,6) order_refl] by blast
  have h: "dtls_handler w t plain remote td = Some (map (\<lambda>(t, data, dst). (data, dst)) outs, td')"
    using p(1) by (simp add: dtls_handler_def)
  have a: "answers_sender w t plain remote td \<longleftrightarrow> (\<exists>data. (data, remote) \<in> set (map (\<lambda>(t, data, dst). (data, dst)) outs))"
    using p(1) by (force simp: answers_sender_def list_ex_iff)
  from dtls_receive_cases [where cb = "dtls_handler w t" and eng = eng and w = td, OF assms(1-4) plain h] show ?thesis
    unfolding a using p(2) assms(5) by (auto split: if_splits simp del: set_map)
qed

section \<open>Properties\<close>

text \<open>
  C27. DTLS and the mutex of its sessions: the handler of a datagram locks a mutex its thread
  already owns exactly when the dispatcher answers the client the datagram came from, because
  the answer is sent from inside \<open>feed\<close>. Every datagram that decrypts to a STUN request,
  authenticated or not, is answered; so no DTLS client can be served without behaviour that
  the C++ standard leaves undefined. Otherwise the handler returns and leaves every session
  unlocked and flushed.
\<close>

theorem dtls_request_relocks_mutex:
  assumes "at_rest tr" "dtls_receiving tr" "d \<noteq> []" "length d \<le> 65536" "td_inv (w_io w) td" "world_ok w td"
    and "plain = plain_text eng remote d tr"
  shows "(dtls_receive eng (dtls_handler w t) remote (Inr d) tr td = Relocked \<longleftrightarrow> plain \<noteq> [] \<and> answers_sender w t plain remote td)
    \<and> (\<forall>msg. parse plain (length plain) default_message = Some (Ok, msg) \<and> msg_class msg \<noteq> Indication \<longrightarrow>
         dtls_receive eng (dtls_handler w t) remote (Inr d) tr td = Relocked)
    \<and> (dtls_receive eng (dtls_handler w t) remote (Inr d) tr td \<noteq> Relocked \<longrightarrow>
         (\<exists>outs tr' td'. dtls_receive eng (dtls_handler w t) remote (Inr d) tr td = Done (outs, tr', td') \<and> at_rest tr'))"
proof -
  note c = dtls_receive_answers [where eng = eng and t = t, OF assms]
  have "plain \<noteq> [] \<and> answers_sender w t plain remote td"
    if m: "parse plain (length plain) default_message = Some (Ok, msg)" "msg_class msg \<noteq> Indication" for msg
  proof -
    obtain outs td' resp where "onPacket w plain (length plain) remote t td = Some (outs, td')" "(t, resp, remote) \<in> set outs"
      using request_answered [OF assms(5,6) m] by metis
    then show ?thesis using parse_Ok_head [OF m(1)] by (force simp: answers_sender_def list_ex_iff)
  qed
  with c show ?thesis by (auto split: if_splits)
qed

definition demo_allocate_request :: bytes where
  "demo_allocate_request = [0, 3, 0, 0, 0x21, 0x12, 0xA4, 0x42] @ replicate 12 7"

theorem dtls_request_relocks_mutex_witness:
  "dtls_receive demo_engine (dtls_handler demo_world 3) demo_peer (Inr demo_allocate_request) demo_tr demo_td = Relocked"
proof -
  have m: "parse demo_allocate_request (length demo_allocate_request) default_message
    = Some (Ok, \<lparr>msg_class = Request, method = Allocate, msg_length = 0, transaction_id = replicate 12 7, attributes = []\<rparr>)"
    by code_simp
  have p: "demo_allocate_request = plain_text demo_engine demo_peer demo_allocate_request demo_tr"
    by (simp add: plain_text_def demo_tr_def mk_session_def demo_engine_def kMaxPacket_def demo_allocate_request_def)
  have r: "at_rest demo_tr" "dtls_receiving demo_tr" "demo_allocate_request \<noteq> []" "length demo_allocate_request \<le> 65536"
    by (auto simp: at_rest_def demo_tr_def mk_session_def demo_allocate_request_def split: if_splits)
  have "td_inv (w_io demo_world) demo_td" using demo_td_inv by simp
  from dtls_request_relocks_mutex [where t = 3, OF r this demo_world_ok p] m show ?thesis by auto
qed

text \<open>
  A client that never authenticates can make the server read outside a buffer: the four
  bytes of a ChannelData header that declares 65533 to 65535 bytes, sent over a new TCP
  connection, are handed to the dispatcher as a message of that length, whose data the
  parser then copies from beyond the 4 bytes that exist.
\<close>

lemma channel_header_overread:
  assumes "65533 \<le> unat (be16 c d)"
  shows "fst (tcp_receives (length (st_conns tr)) [[0x40, b, c, d]] (tcp_accept remote tr)) = [([0x40, b, c, d], 4 + unat (be16 c d), remote)]
    \<and> make_handler w t (fst (tcp_receives (length (st_conns tr)) [[0x40, b, c, d]] (tcp_accept remote tr))) td = None"
proof -
  let ?f = "[0x40, b, c, d] :: bytes"
  have ch: "is_channel 0x40" by (simp add: is_channel_def)
  have f: "frame_ok ?f" "frame_size ?f = 4 + unat (be16 c d)"
    using ch padded_len_wraps [OF assms] by (simp_all add: frame_ok_def frame_size_def)
  obtain s' where "feed ?f run_session = ([(?f, 4 + unat (be16 c d))], s')"
    using feed_frame [OF idle_run_session f(1)] f(2) by auto
  then have d: "fst (tcp_receives (length (st_conns tr)) [?f] (tcp_accept remote tr)) = [(?f, 4 + unat (be16 c d), remote)]"
    using tcp_receives_feed [of "tcp_accept remote tr" "length (st_conns tr)" remote run_session "[?f]"] by (simp add: reading_accept(1))
  have "parse_channel_data ?f (4 + unat (be16 c d)) out = None" for out
  proof -
    have "\<not> be16 0x40 b < 0x4000" "\<not> be16 0x40 b > 0x4FFF"
      using unsigned_less [of b, where 'a = nat] by (simp_all add: word_less_nat_alt unat_be16)
    then show ?thesis using assms by (simp add: parse_channel_data_def rd16_def rd_def rd_range_def)
  qed
  then have "onPacket w ?f (4 + unat (be16 c d)) remote t td = None"
    by (simp add: onPacket_def rd_def handleChannelData_def)
  then show ?thesis using d by simp
qed

end
