(* ===== verification/Backend_Auth.thy ===== *)
theory Backend_Auth
  imports Crypto
begin

text \<open>
  \<open>backend/auth\<close>: the user table, the JSON web tokens and the authentication service.
  SQLite executes the three statements of \<open>user_store.cpp\<close> on a table whose primary key is
  the user id; each of its calls may fail, which the environment decides. The token
  library jwt-cpp is a parameter. An exception is \<open>Inl\<close> of the thrown object.
\<close>

section \<open>Surroundings\<close>

datatype api_error =
    UserStoreError string | LoginError string | JwtExpired string | JwtInvalid string | OtherException string

datatype jwt_result =
    JwtAccepted string int | TokenVerificationException string | StdException string

record jwt_lib =
  jwt_sign :: "string \<Rightarrow> string \<Rightarrow> int \<Rightarrow> int \<Rightarrow> string"
  jwt_verify :: "string \<Rightarrow> int \<Rightarrow> string \<Rightarrow> jwt_result"

text \<open>
  Documented behaviour of jwt-cpp: a token verifies under the secret it was signed with
  until it expires, giving back its claims; afterwards verification fails with a message
  that says so.
\<close>

definition jwt_ok :: "jwt_lib \<Rightarrow> bool" where
  "jwt_ok jl \<longleftrightarrow> (\<forall>secret user iat expiry wall.
     if wall \<le> expiry
     then iat \<le> wall \<longrightarrow> jwt_verify jl secret wall (jwt_sign jl secret user iat expiry) = JwtAccepted user expiry
     else \<exists>m. jwt_verify jl secret wall (jwt_sign jl secret user iat expiry) = TokenVerificationException m
            \<and> find_substr ''expired'' m \<noteq> None)"

record auth_env =
  ae_ssl :: openssl
  ae_junk :: bytes
  ae_jwt :: jwt_lib
  ae_wall :: int
  sql_prepare :: bool
  sql_select :: bool
  sql_insert :: bool
  sql_errmsg :: string

section \<open>user\_store.cpp\<close>

record User =
  userId :: string
  passwordHash :: string

type_synonym user_db = "(string, string) umap"

text \<open>When the digest fails the buffer keeps the bytes it happened to hold.\<close>

definition hashPassword :: "auth_env \<Rightarrow> string \<Rightarrow> string" where
  "hashPassword e password =
     concat (map hex_byte (case ossl_digest (ae_ssl e) SHA256 (bytes_of_string password) of
                             Some h \<Rightarrow> h | None \<Rightarrow> ae_junk e))"

definition findUser :: "auth_env \<Rightarrow> string \<Rightarrow> user_db \<Rightarrow> api_error + User option" where
  "findUser e uid db =
     (if \<not> sql_prepare e then Inl (UserStoreError ''findUser prepare failed'')
      else if \<not> sql_select e then Inr None
      else Inr (map_option (\<lambda>h. \<lparr>userId = c_str uid, passwordHash = h\<rparr>) (um_find db (c_str uid))))"

definition addUser :: "auth_env \<Rightarrow> string \<Rightarrow> string \<Rightarrow> user_db \<Rightarrow> (api_error + unit) \<times> user_db" where
  "addUser e uid password db =
     (case findUser e uid db of
        Inl err \<Rightarrow> (Inl err, db)
      | Inr (Some u) \<Rightarrow> (Inl (UserStoreError (''user already exists: '' @ uid)), db)
      | Inr None \<Rightarrow>
          if \<not> sql_prepare e then (Inl (UserStoreError ''addUser prepare failed''), db)
          else if \<not> sql_insert e \<or> um_find db (c_str uid) \<noteq> None
          then (Inl (UserStoreError (''addUser failed: '' @ sql_errmsg e)), db)
          else (Inr (), um_set (c_str uid) (hashPassword e password) db))"

definition checkPassword :: "auth_env \<Rightarrow> string \<Rightarrow> string \<Rightarrow> user_db \<Rightarrow> api_error + bool" where
  "checkPassword e uid password db =
     (case findUser e uid db of
        Inl err \<Rightarrow> Inl err
      | Inr None \<Rightarrow> Inr False
      | Inr (Some u) \<Rightarrow> Inr (passwordHash u = hashPassword e password))"

section \<open>jwt.cpp\<close>

record JwtPayload =
  jp_userId :: string
  jp_exp :: int

definition Jwt_sign :: "auth_env \<Rightarrow> string \<Rightarrow> string \<Rightarrow> int \<Rightarrow> string" where
  "Jwt_sign e secret user ttl = jwt_sign (ae_jwt e) secret user (ae_wall e) (ae_wall e + ttl)"

definition Jwt_verify :: "auth_env \<Rightarrow> string \<Rightarrow> string \<Rightarrow> api_error + JwtPayload" where
  "Jwt_verify e secret token =
     (case jwt_verify (ae_jwt e) secret (ae_wall e) token of
        JwtAccepted user expiry \<Rightarrow> Inr \<lparr>jp_userId = user, jp_exp = expiry\<rparr>
      | TokenVerificationException msg \<Rightarrow>
          if find_substr ''expired'' msg \<noteq> None then Inl (JwtExpired msg) else Inl (JwtInvalid msg)
      | StdException msg \<Rightarrow> Inl (JwtInvalid msg))"

section \<open>auth\_service.cpp\<close>

record AuthService =
  jwt_secret :: string
  token_ttl :: int
  user_store :: user_db

record LoginResult =
  lr_token :: string
  lr_userId :: string

definition login :: "auth_env \<Rightarrow> string \<Rightarrow> string \<Rightarrow> AuthService \<Rightarrow> api_error + LoginResult" where
  "login e uid password svc =
     (case checkPassword e uid password (user_store svc) of
        Inl err \<Rightarrow> Inl err
      | Inr ok \<Rightarrow>
          if \<not> ok then Inl (LoginError ''invalid userId or password'')
          else Inr \<lparr>lr_token = Jwt_sign e (jwt_secret svc) uid (token_ttl svc), lr_userId = uid\<rparr>)"

definition verifyToken :: "auth_env \<Rightarrow> string \<Rightarrow> AuthService \<Rightarrow> api_error + JwtPayload" where
  "verifyToken e token svc = Jwt_verify e (jwt_secret svc) token"

definition registerUser :: "auth_env \<Rightarrow> string \<Rightarrow> string \<Rightarrow> AuthService \<Rightarrow> (api_error + unit) \<times> AuthService" where
  "registerUser e uid password svc =
     (case addUser e uid password (user_store svc) of (r, db) \<Rightarrow> (r, svc\<lparr>user_store := db\<rparr>))"

section \<open>Lemmas\<close>

abbreviation db_up :: "auth_env \<Rightarrow> bool" where
  "db_up e \<equiv> sql_prepare e \<and> sql_select e \<and> sql_insert e"

lemma registerUser_new:
  "db_up e \<Longrightarrow> um_find (user_store svc) (c_str uid) = None \<Longrightarrow>
     registerUser e uid pw svc = (Inr (), svc\<lparr>user_store := um_set (c_str uid) (hashPassword e pw) (user_store svc)\<rparr>)"
  by (simp add: registerUser_def addUser_def findUser_def)

lemma registerUser_existing:
  "db_up e \<Longrightarrow> um_find (user_store svc) (c_str uid) = Some h \<Longrightarrow>
     registerUser e uid pw svc = (Inl (UserStoreError (''user already exists: '' @ uid)), svc)"
  by (simp add: registerUser_def addUser_def findUser_def)

lemma login_iff:
  assumes "db_up e"
  shows "login e uid pw svc =
     (if um_find (user_store svc) (c_str uid) = Some (hashPassword e pw)
      then Inr \<lparr>lr_token = Jwt_sign e (jwt_secret svc) uid (token_ttl svc), lr_userId = uid\<rparr>
      else Inl (LoginError ''invalid userId or password''))"
  using assms by (auto simp: login_def checkPassword_def findUser_def split: option.splits)

text \<open>A concrete token library.\<close>

definition demo_sign :: "string \<Rightarrow> string \<Rightarrow> int \<Rightarrow> int \<Rightarrow> string" where
  "demo_sign secret user iat expiry =
     (if expiry < 0 then CHR ''-'' else CHR ''+'') # replicate (nat \<bar>expiry\<bar>) (CHR ''x'') @ CHR '':'' # user"

definition demo_verify :: "string \<Rightarrow> int \<Rightarrow> string \<Rightarrow> jwt_result" where
  "demo_verify secret wall token =
     (let n = int (length (takeWhile (\<lambda>c. c = CHR ''x'') (tl token)));
          expiry = (if hd token = CHR ''-'' then - n else n)
      in if wall \<le> expiry then JwtAccepted (drop 1 (dropWhile (\<lambda>c. c = CHR ''x'') (tl token))) expiry
         else TokenVerificationException ''token expired'')"

definition demo_jwt :: jwt_lib where
  "demo_jwt = \<lparr>jwt_sign = demo_sign, jwt_verify = demo_verify\<rparr>"

lemma demo_verify_sign:
  "demo_verify secret wall (demo_sign secret user iat expiry) =
     (if wall \<le> expiry then JwtAccepted user expiry else TokenVerificationException ''token expired'')"
proof -
  have "takeWhile (\<lambda>c. c = CHR ''x'') (replicate n (CHR ''x'') @ CHR '':'' # user) = replicate n (CHR ''x'')"
    "dropWhile (\<lambda>c. c = CHR ''x'') (replicate n (CHR ''x'') @ CHR '':'' # user) = CHR '':'' # user" for n
    by (induction n) auto
  then show ?thesis by (auto simp: demo_verify_def demo_sign_def Let_def)
qed

lemma find_expired: "find_substr ''expired'' ''token expired'' \<noteq> None"
  by code_simp

lemma demo_jwt_ok: "jwt_ok demo_jwt"
  using find_expired by (simp add: jwt_ok_def demo_jwt_def demo_verify_sign)

definition demo_auth_env :: auth_env where
  "demo_auth_env = \<lparr>ae_ssl = demo_openssl, ae_junk = [], ae_jwt = demo_jwt, ae_wall = 100,
     sql_prepare = True, sql_select = True, sql_insert = True, sql_errmsg = []\<rparr>"

definition demo_svc :: AuthService where
  "demo_svc = \<lparr>jwt_secret = ''k'', token_ttl = 60, user_store = []\<rparr>"

section \<open>Properties\<close>

text \<open>
  C18. From registration to a token: registering a new user succeeds; from then on
  exactly the passwords with the registered hash log this user in, other users are not
  affected, and the token issued at login verifies to this user's id until its time to
  live has passed and is reported as expired afterwards.
\<close>

theorem register_login_verify:
  assumes "db_up e" "db_up e'" "jwt_ok (ae_jwt e')" "um_find (user_store svc) (c_str uid) = None"
  shows "\<exists>svc'. registerUser e uid pw svc = (Inr (), svc')
     \<and> (\<forall>pw'. (\<exists>r. login e' uid pw' svc' = Inr r) \<longleftrightarrow> hashPassword e' pw' = hashPassword e pw)
     \<and> (\<forall>other pw'. c_str other \<noteq> c_str uid \<longrightarrow> login e' other pw' svc' = login e' other pw' svc)
     \<and> (\<forall>pw' r e''. login e' uid pw' svc' = Inr r \<longrightarrow> ae_jwt e'' = ae_jwt e' \<longrightarrow> ae_wall e' \<le> ae_wall e'' \<longrightarrow>
          (if ae_wall e'' \<le> ae_wall e' + token_ttl svc
           then verifyToken e'' (lr_token r) svc' = Inr \<lparr>jp_userId = uid, jp_exp = ae_wall e' + token_ttl svc\<rparr>
           else \<exists>m. verifyToken e'' (lr_token r) svc' = Inl (JwtExpired m)))"
proof -
  let ?svc = "svc\<lparr>user_store := um_set (c_str uid) (hashPassword e pw) (user_store svc)\<rparr>"
  have reg: "registerUser e uid pw svc = (Inr (), ?svc)"
    using assms(1,4) by (rule registerUser_new)
  have tok: "if ae_wall e'' \<le> ae_wall e' + token_ttl svc
           then verifyToken e'' (lr_token r) ?svc = Inr \<lparr>jp_userId = uid, jp_exp = ae_wall e' + token_ttl svc\<rparr>
           else \<exists>m. verifyToken e'' (lr_token r) ?svc = Inl (JwtExpired m)"
    if "login e' uid pw' ?svc = Inr r" "ae_jwt e'' = ae_jwt e'" "ae_wall e' \<le> ae_wall e''" for pw' r e''
  proof -
    have t: "lr_token r = jwt_sign (ae_jwt e') (jwt_secret svc) uid (ae_wall e') (ae_wall e' + token_ttl svc)"
      using that(1) by (auto simp: login_iff [OF assms(2)] Jwt_sign_def split: if_splits)
    from assms(3) [unfolded jwt_ok_def, rule_format, of "ae_wall e''" "ae_wall e' + token_ttl svc" "ae_wall e'" "jwt_secret svc" uid]
    show ?thesis
      using that(2,3) by (auto simp: verifyToken_def Jwt_verify_def t split: if_splits)
  qed
  have "(\<exists>r. login e' uid pw' ?svc = Inr r) \<longleftrightarrow> hashPassword e' pw' = hashPassword e pw" for pw'
    by (auto simp: login_iff [OF assms(2)])
  moreover have "login e' other pw' ?svc = login e' other pw' svc" if "c_str other \<noteq> c_str uid" for other pw'
    using that by (simp add: login_iff [OF assms(2)])
  ultimately show ?thesis using reg tok by blast
qed

theorem register_login_verify_witness:
  "\<exists>svc' r. registerUser demo_auth_env ''ann'' ''pw'' demo_svc = (Inr (), svc')
     \<and> login demo_auth_env ''ann'' ''pw'' svc' = Inr r
     \<and> verifyToken (demo_auth_env\<lparr>ae_wall := 160\<rparr>) (lr_token r) svc' = Inr \<lparr>jp_userId = ''ann'', jp_exp = 160\<rparr>"
proof -
  have up: "db_up demo_auth_env" and jw: "jwt_ok (ae_jwt demo_auth_env)" and w: "ae_wall demo_auth_env = 100"
    by (simp_all add: demo_auth_env_def demo_jwt_ok)
  have "um_find (user_store demo_svc) (c_str ''ann'') = None" by (simp add: demo_svc_def)
  from register_login_verify [OF up up jw this, of "''pw''"] obtain svc' where
    s: "registerUser demo_auth_env ''ann'' ''pw'' demo_svc = (Inr (), svc')"
    and l: "\<forall>pw'. (\<exists>r. login demo_auth_env ''ann'' pw' svc' = Inr r) \<longleftrightarrow>
          hashPassword demo_auth_env pw' = hashPassword demo_auth_env ''pw''"
    and v: "\<forall>pw' r e''. login demo_auth_env ''ann'' pw' svc' = Inr r \<longrightarrow> ae_jwt e'' = ae_jwt demo_auth_env \<longrightarrow>
          ae_wall demo_auth_env \<le> ae_wall e'' \<longrightarrow>
          (if ae_wall e'' \<le> ae_wall demo_auth_env + token_ttl demo_svc
           then verifyToken e'' (lr_token r) svc' = Inr \<lparr>jp_userId = ''ann'', jp_exp = ae_wall demo_auth_env + token_ttl demo_svc\<rparr>
           else \<exists>m. verifyToken e'' (lr_token r) svc' = Inl (JwtExpired m))"
    by blast
  from l obtain r where r: "login demo_auth_env ''ann'' ''pw'' svc' = Inr r" by blast
  show ?thesis
    using s r v [rule_format, OF r, of "demo_auth_env\<lparr>ae_wall := 160\<rparr>"] w by (auto simp: demo_svc_def)
qed

text \<open>
  User ids are cut at a NUL character when they are looked up, but not when the token
  is issued: whoever can log in as a user can also log in under that user's id followed by
  a NUL and anything else, and gets a token for the longer id.
\<close>

lemma login_accepts_nul_suffix:
  assumes "db_up e" "login e uid pw svc = Inr r" "c_str uid = uid"
  shows "\<exists>r'. login e (uid @ CHR 0x00 # suffix) pw svc = Inr r' \<and> lr_userId r' = uid @ CHR 0x00 # suffix"
proof -
  have nz: "\<forall>c \<in> set uid. of_char c \<noteq> (0 :: nat)"
    using assms(3) unfolding c_str_def takeWhile_eq_all_conv .
  have "c_str (uid @ CHR 0x00 # suffix) = uid"
    unfolding c_str_def using nz by (subst takeWhile_append2) auto
  then show ?thesis
    using assms by (auto simp: login_iff [OF assms(1)] split: if_splits)
qed

end
