(* ===== verification/Call_Manager.thy ===== *)
theory Call_Manager
  imports Prelude
begin

text \<open>
  \<open>backend/calls/call_manager.cpp\<close>: the table of ringing and active calls. Every public
  operation holds the manager's mutex, hence is one step. A thrown \<open>runtime_error\<close> is
  \<open>Inl\<close> of its message; \<open>a\<close> and \<open>b\<close> are the two draws of the random generator, \<open>now\<close> is
  \<open>steady_clock::now()\<close>.
\<close>

section \<open>State\<close>

datatype CallState = Ringing | Active | Ended

record CallSession =
  callId :: string
  callerId :: string
  calleeId :: string
  call_state :: CallState
  createdAt :: time_point

record CallManager =
  ring_timeout :: int
  calls :: "(string, CallSession) umap"

definition mk_call_manager :: "nat \<Rightarrow> CallManager" where
  "mk_call_manager secs = \<lparr>ring_timeout = seconds secs, calls = []\<rparr>"

section \<open>generateUuid\<close>

fun to_hex :: "nat \<Rightarrow> string" where
  "to_hex n = (if n < 16 then [hex_digit n] else to_hex (n div 16) @ [hex_digit (n mod 16)])"

declare to_hex.simps [simp del]

text \<open>\<open>setfill('0') << setw(n)\<close>\<close>

definition setw :: "nat \<Rightarrow> string \<Rightarrow> string" where
  "setw n s = replicate (n - length s) (CHR ''0'') @ s"

definition hex_field :: "nat \<Rightarrow> u64 \<Rightarrow> string" where
  "hex_field n w = setw n (to_hex (unat w))"

definition generateUuid :: "u64 \<Rightarrow> u64 \<Rightarrow> string" where
  "generateUuid a0 b0 =
     (let a = (a0 AND 0xFFFFFFFFFFFF0FFF) OR 0x4000;
          b = (b0 AND 0x3FFFFFFFFFFFFFFF) OR 0x8000000000000000
      in hex_field 8 (drop_bit 32 a AND 0xFFFFFFFF) @ ''-''
         @ hex_field 4 (drop_bit 16 a AND 0xFFFF) @ ''-''
         @ hex_field 4 (a AND 0xFFFF) @ ''-''
         @ hex_field 4 (drop_bit 48 b AND 0xFFFF) @ ''-''
         @ hex_field 12 (b AND 0xFFFFFFFFFFFF))"

section \<open>Operations\<close>

definition in_call :: "string \<Rightarrow> CallSession \<Rightarrow> bool" where
  "in_call user s \<longleftrightarrow> callerId s = user \<or> calleeId s = user"

definition isBusy :: "string \<Rightarrow> CallManager \<Rightarrow> bool" where
  "isBusy user cm \<longleftrightarrow> list_ex (\<lambda>(k, s). call_state s \<noteq> Ended \<and> in_call user s) (calls cm)"

definition create :: "u64 \<Rightarrow> u64 \<Rightarrow> time_point \<Rightarrow> string \<Rightarrow> string \<Rightarrow> CallManager \<Rightarrow> (string + string) \<times> CallManager" where
  "create a b now caller callee cm =
     (if isBusy caller cm then (Inl ''caller is busy'', cm)
      else if isBusy callee cm then (Inl ''callee is busy'', cm)
      else let s = \<lparr>callId = generateUuid a b, callerId = caller, calleeId = callee,
                    call_state = Ringing, createdAt = now\<rparr>
           in (Inr (callId s), cm\<lparr>calls := um_set (callId s) s (calls cm)\<rparr>))"

definition accept :: "string \<Rightarrow> string \<Rightarrow> CallManager \<Rightarrow> (string + CallSession) \<times> CallManager" where
  "accept call callee cm =
     (case um_find (calls cm) call of
        None \<Rightarrow> (Inl (''call not found: '' @ call), cm)
      | Some s \<Rightarrow>
          if calleeId s \<noteq> callee then (Inl ''wrong callee'', cm)
          else if call_state s \<noteq> Ringing then (Inl ''call not ringing'', cm)
          else let s' = s\<lparr>call_state := Active\<rparr>
               in (Inr s', cm\<lparr>calls := um_set call s' (calls cm)\<rparr>))"

definition reject :: "string \<Rightarrow> string \<Rightarrow> CallManager \<Rightarrow> (string + CallSession) \<times> CallManager" where
  "reject call callee cm =
     (case um_find (calls cm) call of
        None \<Rightarrow> (Inl (''call not found: '' @ call), cm)
      | Some s \<Rightarrow>
          if calleeId s \<noteq> callee then (Inl ''wrong callee'', cm)
          else if call_state s \<noteq> Ringing then (Inl ''call not ringing'', cm)
          else (Inr (s\<lparr>call_state := Ended\<rparr>), cm\<lparr>calls := um_erase call (calls cm)\<rparr>))"

definition hangup :: "string \<Rightarrow> string \<Rightarrow> CallManager \<Rightarrow> (string + CallSession) \<times> CallManager" where
  "hangup call user cm =
     (case um_find (calls cm) call of
        None \<Rightarrow> (Inl (''call not found: '' @ call), cm)
      | Some s \<Rightarrow>
          if callerId s \<noteq> user \<and> calleeId s \<noteq> user then (Inl ''user not in call'', cm)
          else (Inr (s\<lparr>call_state := Ended\<rparr>), cm\<lparr>calls := um_erase call (calls cm)\<rparr>))"

definition find_call :: "string \<Rightarrow> CallManager \<Rightarrow> CallSession option" where
  "find_call call cm = um_find (calls cm) call"

text \<open>The sweep over the table: the expired sessions, and what stays.\<close>

fun expire_loop ::
    "time_point \<Rightarrow> int \<Rightarrow> (string, CallSession) umap \<Rightarrow> CallSession list \<times> (string, CallSession) umap" where
  "expire_loop now timeout [] = ([], [])"
| "expire_loop now timeout ((k, s) # rest) =
     (let (ex, keep) = expire_loop now timeout rest
      in if call_state s = Ringing \<and> now - createdAt s > timeout
         then (s\<lparr>call_state := Ended\<rparr> # ex, keep) else (ex, (k, s) # keep))"

definition expireRinging :: "time_point \<Rightarrow> CallManager \<Rightarrow> CallSession list \<times> CallManager" where
  "expireRinging now cm =
     (let (ex, keep) = expire_loop now (ring_timeout cm) (calls cm)
      in (ex, cm\<lparr>calls := keep\<rparr>))"

section \<open>Invariant\<close>

text \<open>
  Every stored call is filed under its own id and is ringing or active, and no user takes
  part in two calls.
\<close>

definition cm_inv :: "CallManager \<Rightarrow> bool" where
  "cm_inv cm \<longleftrightarrow> um_ok (calls cm)
   \<and> (\<forall>k s. um_find (calls cm) k = Some s \<longrightarrow> callId s = k \<and> call_state s \<noteq> Ended)
   \<and> (\<forall>k k' s s' user. um_find (calls cm) k = Some s \<longrightarrow> um_find (calls cm) k' = Some s' \<longrightarrow>
        in_call user s \<longrightarrow> in_call user s' \<longrightarrow> k = k')"

lemma isBusy_iff:
  assumes "cm_inv cm"
  shows "isBusy user cm \<longleftrightarrow> (\<exists>k s. um_find (calls cm) k = Some s \<and> in_call user s)"
proof
  assume "isBusy user cm"
  then show "\<exists>k s. um_find (calls cm) k = Some s \<and> in_call user s"
    using assms by (auto simp: isBusy_def list_ex_iff cm_inv_def map_of_eq_Some_iff)
next
  assume "\<exists>k s. um_find (calls cm) k = Some s \<and> in_call user s"
  then obtain k s where "um_find (calls cm) k = Some s" "in_call user s" by blast
  moreover from this have "(k, s) \<in> set (calls cm)" "call_state s \<noteq> Ended"
    using assms by (auto simp: cm_inv_def dest: map_of_SomeD)
  ultimately show "isBusy user cm" by (force simp: isBusy_def list_ex_iff)
qed

lemma cm_inv_erase: "cm_inv cm \<Longrightarrow> cm_inv (cm\<lparr>calls := um_erase k (calls cm)\<rparr>)"
  unfolding cm_inv_def by (simp split: if_splits)

lemma cm_inv_set:
  assumes "cm_inv cm" "callId s = k" "call_state s \<noteq> Ended"
    and disj: "\<And>k' s' user. um_find (calls cm) k' = Some s' \<Longrightarrow> k' \<noteq> k \<Longrightarrow> in_call user s' \<Longrightarrow> \<not> in_call user s"
  shows "cm_inv (cm\<lparr>calls := um_set k s (calls cm)\<rparr>)"
  unfolding cm_inv_def
proof (intro conjI allI impI)
  fix k1 k2 s1 s2 user
  assume "um_find (calls (cm\<lparr>calls := um_set k s (calls cm)\<rparr>)) k1 = Some s1"
    "um_find (calls (cm\<lparr>calls := um_set k s (calls cm)\<rparr>)) k2 = Some s2" "in_call user s1" "in_call user s2"
  then show "k1 = k2"
    using assms(1) disj unfolding cm_inv_def by (auto split: if_splits)
qed (use assms in \<open>auto simp: cm_inv_def split: if_splits\<close>)

lemma cm_inv_update:
  assumes "cm_inv cm" "um_find (calls cm) k = Some s" "callId s' = callId s" "callerId s' = callerId s"
    "calleeId s' = calleeId s" "call_state s' \<noteq> Ended"
  shows "cm_inv (cm\<lparr>calls := um_set k s' (calls cm)\<rparr>)"
proof (rule cm_inv_set)
  show "callId s' = k" using assms by (simp add: cm_inv_def)
  show "\<not> in_call user s'" if "um_find (calls cm) k' = Some t" "k' \<noteq> k" "in_call user t" for k' t user
    using that assms unfolding cm_inv_def in_call_def by metis
qed (use assms in auto)

lemma create_inv:
  assumes "cm_inv cm"
  shows "cm_inv (snd (create a b now caller callee cm))"
proof (cases "isBusy caller cm \<or> isBusy callee cm")
  case True
  with assms show ?thesis by (auto simp: create_def)
next
  case False
  let ?s = "\<lparr>callId = generateUuid a b, callerId = caller, calleeId = callee, call_state = Ringing, createdAt = now\<rparr>"
  have free: "\<not> in_call caller s \<and> \<not> in_call callee s" if "um_find (calls cm) k = Some s" for k s
    using that isBusy_iff [OF assms] False by blast
  have "cm_inv (cm\<lparr>calls := um_set (generateUuid a b) ?s (calls cm)\<rparr>)"
    using assms free by (intro cm_inv_set) (auto simp: in_call_def)
  with False show ?thesis by (simp add: create_def Let_def)
qed

lemma accept_inv: "cm_inv cm \<Longrightarrow> cm_inv (snd (accept call callee cm))"
  by (auto simp: accept_def Let_def intro: cm_inv_update split: option.splits)

lemma reject_inv: "cm_inv cm \<Longrightarrow> cm_inv (snd (reject call callee cm))"
  by (auto simp: reject_def cm_inv_erase split: option.splits)

lemma hangup_inv: "cm_inv cm \<Longrightarrow> cm_inv (snd (hangup call user cm))"
  by (auto simp: hangup_def cm_inv_erase split: option.splits)

section \<open>The sweep\<close>

abbreviation ring_expired :: "time_point \<Rightarrow> int \<Rightarrow> CallSession \<Rightarrow> bool" where
  "ring_expired now timeout s \<equiv> call_state s = Ringing \<and> now - createdAt s > timeout"

lemma expire_loop_eq:
  "expire_loop now timeout m =
     (map (\<lambda>(k, s). s\<lparr>call_state := Ended\<rparr>) (filter (\<lambda>(k, s). ring_expired now timeout s) m),
      filter (\<lambda>(k, s). \<not> ring_expired now timeout s) m)"
  by (induction now timeout m rule: expire_loop.induct) auto

lemma um_find_filter:
  "um_ok m \<Longrightarrow> um_find (filter (\<lambda>(k, v). P v) m) k =
     (case um_find m k of None \<Rightarrow> None | Some v \<Rightarrow> if P v then Some v else None)"
  by (induction m) (auto simp: map_of_eq_None_iff split: option.splits)

lemma um_ok_filter: "um_ok m \<Longrightarrow> um_ok (filter P m)"
  by (rule distinct_map_filter)

lemma find_expireRinging:
  assumes "cm_inv cm"
  shows "find_call k (snd (expireRinging now cm)) =
     (case find_call k cm of None \<Rightarrow> None | Some s \<Rightarrow> if ring_expired now (ring_timeout cm) s then None else Some s)"
  using assms um_find_filter [of "calls cm" "\<lambda>s. \<not> ring_expired now (ring_timeout cm) s" k]
  by (simp add: find_call_def expireRinging_def expire_loop_eq cm_inv_def split: option.splits)

lemma expireRinging_inv:
  assumes "cm_inv cm"
  shows "cm_inv (snd (expireRinging now cm))"
proof -
  have ok: "um_ok (calls (snd (expireRinging now cm)))"
    using assms by (simp add: expireRinging_def expire_loop_eq cm_inv_def um_ok_filter)
  have "um_find (calls cm) k = Some s" if "um_find (calls (snd (expireRinging now cm))) k = Some s" for k s
    using that find_expireRinging [OF assms, of k now] by (auto simp: find_call_def split: option.splits if_splits)
  with assms ok show ?thesis unfolding cm_inv_def by blast
qed

lemma mk_call_manager_inv: "cm_inv (mk_call_manager secs)"
  by (simp add: cm_inv_def mk_call_manager_def)

text \<open>
  Starting a call: it succeeds exactly when neither party is in a call, a refusal changes
  nothing; on success the call is ringing between the two, both are busy, and nobody else's
  status changes, provided the random identifier is not in use.
\<close>

lemma create_spec:
  assumes "cm_inv cm" "find_call (generateUuid a b) cm = None"
  shows "(if isBusy caller cm \<or> isBusy callee cm
          then \<exists>reason. create a b now caller callee cm = (Inl reason, cm)
          else \<exists>cm'. create a b now caller callee cm = (Inr (generateUuid a b), cm')
             \<and> find_call (generateUuid a b) cm' =
                 Some \<lparr>callId = generateUuid a b, callerId = caller, calleeId = callee,
                       call_state = Ringing, createdAt = now\<rparr>
             \<and> (\<forall>k. k \<noteq> generateUuid a b \<longrightarrow> find_call k cm' = find_call k cm)
             \<and> (\<forall>user. isBusy user cm' \<longleftrightarrow> isBusy user cm \<or> user = caller \<or> user = callee))"
proof (cases "isBusy caller cm \<or> isBusy callee cm")
  case True
  then show ?thesis by (auto simp: create_def)
next
  case False
  let ?id = "generateUuid a b"
  let ?s = "\<lparr>callId = ?id, callerId = caller, calleeId = callee, call_state = Ringing, createdAt = now\<rparr>"
  let ?cm = "cm\<lparr>calls := um_set ?id ?s (calls cm)\<rparr>"
  have cr: "create a b now caller callee cm = (Inr ?id, ?cm)"
    using False by (simp add: create_def Let_def)
  then have inv: "cm_inv ?cm" using create_inv [OF assms(1), of a b now caller callee] by simp
  have "isBusy user ?cm \<longleftrightarrow> isBusy user cm \<or> user = caller \<or> user = callee" for user
    using assms(2) unfolding isBusy_iff [OF inv] isBusy_iff [OF assms(1)]
    by (auto simp: find_call_def in_call_def split: if_splits) (metis option.distinct(1))+
  with cr False show ?thesis by (auto simp: find_call_def)
qed

text \<open>
  Answering and ending a call: only the callee can accept or reject, and only while it rings;
  only a participant can hang up; every refusal changes nothing. Accepting makes the call
  active, rejecting and hanging up remove it and free both participants.
\<close>

lemma call_control_spec:
  assumes "cm_inv cm" "find_call k cm = Some s"
  shows "accept k user cm =
      (if user = calleeId s \<and> call_state s = Ringing
       then (Inr (s\<lparr>call_state := Active\<rparr>), cm\<lparr>calls := um_set k (s\<lparr>call_state := Active\<rparr>) (calls cm)\<rparr>)
       else (Inl (if user \<noteq> calleeId s then ''wrong callee'' else ''call not ringing''), cm))"
    and "reject k user cm =
      (if user = calleeId s \<and> call_state s = Ringing
       then (Inr (s\<lparr>call_state := Ended\<rparr>), cm\<lparr>calls := um_erase k (calls cm)\<rparr>)
       else (Inl (if user \<noteq> calleeId s then ''wrong callee'' else ''call not ringing''), cm))"
    and "hangup k user cm =
      (if in_call user s
       then (Inr (s\<lparr>call_state := Ended\<rparr>), cm\<lparr>calls := um_erase k (calls cm)\<rparr>)
       else (Inl ''user not in call'', cm))"
    and "isBusy u (cm\<lparr>calls := um_erase k (calls cm)\<rparr>) \<longleftrightarrow> isBusy u cm \<and> \<not> in_call u s"
    and "isBusy u (cm\<lparr>calls := um_set k (s\<lparr>call_state := Active\<rparr>) (calls cm)\<rparr>) \<longleftrightarrow> isBusy u cm"
proof -
  let ?ended = "cm\<lparr>calls := um_erase k (calls cm)\<rparr>"
  let ?act = "cm\<lparr>calls := um_set k (s\<lparr>call_state := Active\<rparr>) (calls cm)\<rparr>"
  have fk: "um_find (calls cm) k = Some s" using assms(2) by (simp add: find_call_def)
  have ie: "cm_inv ?ended" by (rule cm_inv_erase [OF assms(1)])
  have ia: "cm_inv ?act" by (rule cm_inv_update [OF assms(1) fk]) simp_all
  have uniq: "k' = k" if "um_find (calls cm) k' = Some s'" "in_call u s'" "in_call u s" for k' s' u
    using that fk assms(1) unfolding cm_inv_def by blast
  show "isBusy u ?ended \<longleftrightarrow> isBusy u cm \<and> \<not> in_call u s"
    using fk uniq unfolding isBusy_iff [OF ie] isBusy_iff [OF assms(1)]
    by (auto split: if_splits) (metis option.inject)+
  show "isBusy u ?act \<longleftrightarrow> isBusy u cm"
    using fk unfolding isBusy_iff [OF ia] isBusy_iff [OF assms(1)]
    by (auto simp: in_call_def split: if_splits) (metis option.inject)+
qed (use assms in \<open>auto simp: find_call_def accept_def reject_def hangup_def in_call_def Let_def\<close>)

section \<open>Operation sequences\<close>

datatype call_op =
    CreateOp u64 u64 time_point string string
  | AcceptOp string string
  | RejectOp string string
  | HangupOp string string
  | ExpireOp time_point

fun call_step :: "call_op \<Rightarrow> CallManager \<Rightarrow> CallManager" where
  "call_step (CreateOp a b now caller callee) cm = snd (create a b now caller callee cm)"
| "call_step (AcceptOp call user) cm = snd (accept call user cm)"
| "call_step (RejectOp call user) cm = snd (reject call user cm)"
| "call_step (HangupOp call user) cm = snd (hangup call user cm)"
| "call_step (ExpireOp now) cm = snd (expireRinging now cm)"

lemma call_step_inv: "cm_inv cm \<Longrightarrow> cm_inv (call_step op cm)"
  by (cases op) (simp_all add: create_inv accept_inv reject_inv hangup_inv expireRinging_inv)

interpretation cm: invariant_machine call_step "\<lambda>_. True" cm_inv
  by unfold_locales (rule call_step_inv)

definition demo_cm :: CallManager where
  "demo_cm = snd (create 1 2 0 ''ann'' ''bob'' (mk_call_manager 30))"

lemma demo_cm_inv: "cm_inv demo_cm"
  by (simp add: demo_cm_def create_inv mk_call_manager_inv)

lemma demo_cm_find: "find_call (generateUuid 1 2) demo_cm =
   Some \<lparr>callId = generateUuid 1 2, callerId = ''ann'', calleeId = ''bob'', call_state = Ringing, createdAt = 0\<rparr>"
  by (simp add: demo_cm_def create_def mk_call_manager_def isBusy_def find_call_def)

section \<open>Properties\<close>

text \<open>
  C14. One call per user: after any sequence of operations on a fresh call manager,
  whatever their arguments, every stored call is ringing or active and no user takes part
  in two of them.
\<close>

theorem one_call_per_user:
  assumes "find_call k (fold call_step ops (mk_call_manager secs)) = Some s"
    "find_call k' (fold call_step ops (mk_call_manager secs)) = Some s'"
    "in_call user s" "in_call user s'"
  shows "k = k' \<and> call_state s \<noteq> Ended"
proof -
  have "cm_inv (fold call_step ops (mk_call_manager secs))"
    by (rule cm.run_inv [OF mk_call_manager_inv]) (simp add: list_all_iff)
  with assms show ?thesis unfolding cm_inv_def find_call_def by blast
qed

theorem one_call_per_user_witness:
  "call_state (the (find_call (generateUuid 1 2) (fold call_step [CreateOp 1 2 0 ''ann'' ''bob''] (mk_call_manager 30)))) \<noteq> Ended"
  using one_call_per_user [of "generateUuid 1 2" "[CreateOp 1 2 0 ''ann'' ''bob'']" 30 _ "generateUuid 1 2" _ "''ann''"]
    demo_cm_find by (simp add: demo_cm_def in_call_def)

text \<open>
  Ring timeout: the sweep ends exactly the calls that have been ringing for longer
  than the timeout, reports each of them once as ended, and leaves every other call as it
  was; an active call never times out.
\<close>

lemma expire_effect:
  assumes "cm_inv cm"
  shows "find_call k (snd (expireRinging now cm)) =
      (case find_call k cm of
         None \<Rightarrow> None
       | Some s \<Rightarrow> if call_state s = Ringing \<and> now - createdAt s > ring_timeout cm then None else Some s)
    \<and> distinct (map callId (fst (expireRinging now cm)))
    \<and> (\<forall>e. e \<in> set (fst (expireRinging now cm)) \<longleftrightarrow>
        (\<exists>s. find_call (callId s) cm = Some s \<and> call_state s = Ringing
           \<and> now - createdAt s > ring_timeout cm \<and> e = s\<lparr>call_state := Ended\<rparr>))"
proof (intro conjI allI)
  let ?P = "\<lambda>(k :: string, s). ring_expired now (ring_timeout cm) s"
  have ok: "um_ok (calls cm)" and ids: "\<And>k s. (k, s) \<in> set (calls cm) \<Longrightarrow> callId s = k"
    using assms by (auto simp: cm_inv_def map_of_eq_Some_iff)
  have ex: "fst (expireRinging now cm) = map (\<lambda>(k, s). s\<lparr>call_state := Ended\<rparr>) (filter ?P (calls cm))"
    by (simp add: expireRinging_def expire_loop_eq)
  have "map callId (fst (expireRinging now cm)) = map fst (filter ?P (calls cm))"
    unfolding ex using ids by auto
  then show "distinct (map callId (fst (expireRinging now cm)))"
    using ok by (simp add: um_ok_filter)
  have mem: "e \<in> set (fst (expireRinging now cm)) \<longleftrightarrow>
      (\<exists>k s. (k, s) \<in> set (calls cm) \<and> ring_expired now (ring_timeout cm) s \<and> e = s\<lparr>call_state := Ended\<rparr>)" for e
    unfolding ex by (auto simp: image_iff Bex_def)
  have fnd: "find_call k cm = Some s \<longleftrightarrow> (k, s) \<in> set (calls cm)" for k s
    using ok by (simp add: find_call_def map_of_eq_Some_iff)
  show "e \<in> set (fst (expireRinging now cm)) \<longleftrightarrow>
        (\<exists>s. find_call (callId s) cm = Some s \<and> call_state s = Ringing
           \<and> now - createdAt s > ring_timeout cm \<and> e = s\<lparr>call_state := Ended\<rparr>)" for e
    unfolding mem fnd using ids by metis
qed (rule find_expireRinging [OF assms])

end
