(* ===== verification/Json.thy ===== *)
theory Json
  imports Prelude
begin

text \<open>
  The JSON values the backend and the client exchange, as \<open>nlohmann::json\<close> presents
  them, and its parser and printer as parameters. An object is a map from keys; a missing
  key is \<open>None\<close>. The program dumps only strings that it obtained by parsing JSON, from
  its configuration or from literals, so \<open>dump\<close> (which throws on invalid UTF-8) is total.
\<close>

datatype json =
    JNull | JBool bool | JInt int | JFloat string | JStr string | JArr "json list"
  | JObj "string \<Rightarrow> json option"

record json_lib =
  json_parse :: "string \<Rightarrow> json option"
  json_dump :: "json \<Rightarrow> string"
  json_type_error :: "json \<Rightarrow> string"

text \<open>
  \<open>json_type_error\<close> is the text of the exception thrown when a value is converted to a
  string and is not one. Documented: parsing what was dumped gives the value back.
\<close>

definition json_ok :: "json_lib \<Rightarrow> json \<Rightarrow> bool" where
  "json_ok js j \<longleftrightarrow> json_parse js (json_dump js j) = Some j"

text \<open>\<open>j.contains(k)\<close>, then \<open>j[k]\<close>; both need an object.\<close>

fun member :: "json \<Rightarrow> string \<Rightarrow> json option" where
  "member (JObj m) k = m k"
| "member _ k = None"

text \<open>\<open>contains(k) && j[k].is_string()\<close>, with the string.\<close>

definition member_string :: "json \<Rightarrow> string \<Rightarrow> string option" where
  "member_string j k = (case member j k of Some (JStr s) \<Rightarrow> Some s | _ \<Rightarrow> None)"

text \<open>An object written as an initializer list; keys are distinct.\<close>

definition obj :: "(string \<times> json) list \<Rightarrow> json" where
  "obj kvs = JObj (map_of kvs)"

text \<open>\<open>j[k] = v\<close>: sets the member of an object, turns \<open>null\<close> into an object, throws otherwise.\<close>

fun set_member :: "string \<Rightarrow> json \<Rightarrow> json \<Rightarrow> json option" where
  "set_member k v (JObj m) = Some (JObj (m(k \<mapsto> v)))"
| "set_member k v JNull = Some (JObj [k \<mapsto> v])"
| "set_member k v _ = None"

lemma member_obj [simp]: "member (obj kvs) k = map_of kvs k"
  by (simp add: obj_def)

lemma member_string_obj [simp]:
  "member_string (obj kvs) k = (case map_of kvs k of Some (JStr s) \<Rightarrow> Some s | _ \<Rightarrow> None)"
  by (simp add: member_string_def)

text \<open>A JSON library that knows the messages of a list: a message is printed as its position.\<close>

definition list_json :: "json list \<Rightarrow> json_lib" where
  "list_json ms = \<lparr>json_parse = (\<lambda>s. if length s < length ms then Some (ms ! length s) else None),
     json_dump = (\<lambda>j. replicate (length (takeWhile (\<lambda>m. m \<noteq> j) ms)) (CHR ''x'')), json_type_error = (\<lambda>j. [])\<rparr>"

lemma list_json_ok: "j \<in> set ms \<Longrightarrow> json_ok (list_json ms) j"
proof -
  assume "j \<in> set ms"
  then have "length (takeWhile (\<lambda>m. m \<noteq> j) ms) < length ms \<and> ms ! length (takeWhile (\<lambda>m. m \<noteq> j) ms) = j"
    by (induction ms) auto
  then show ?thesis by (simp add: json_ok_def list_json_def)
qed

end
