(* ===== verification/Router.thy ===== *)
theory Router
  imports Call_Manager Json
begin

text \<open>
  \<open>backend/signaling/router.cpp\<close>: the messages of a connected user drive the call manager
  and are answered or passed on. \<open>gen\<close> is the \<open>RtcConfigGenerator\<close>; \<open>a\<close>, \<open>b\<close> and \<open>now\<close> are
  the random draws and the clock of the call manager. The result lists the messages handed
  to \<open>WsServer::send\<close> in order. \<open>None\<close> is an exception that escapes \<open>handle\<close>.
\<close>

section \<open>Operations\<close>

type_synonym sends = "(string \<times> string) list"

record router_env =
  re_json :: json_lib
  re_gen :: "string \<Rightarrow> string option"
  re_a :: u64
  re_b :: u64
  re_now :: time_point

definition sendJson :: "router_env \<Rightarrow> string \<Rightarrow> json \<Rightarrow> sends" where
  "sendJson e user msg = [(user, json_dump (re_json e) msg)]"

definition sendError :: "router_env \<Rightarrow> string \<Rightarrow> string \<Rightarrow> sends" where
  "sendError e user reason = sendJson e user (obj [(''type'', JStr ''error''), (''message'', JStr reason)])"

definition onCallCreate :: "router_env \<Rightarrow> string \<Rightarrow> json \<Rightarrow> CallManager \<Rightarrow> sends \<times> CallManager" where
  "onCallCreate e user msg cm =
     (case member_string msg ''to'' of
        None \<Rightarrow> (sendError e user ''missing to'', cm)
      | Some callee \<Rightarrow>
          (case create (re_a e) (re_b e) (re_now e) user callee cm of
             (Inl err, cm) \<Rightarrow> (sendError e user err, cm)
           | (Inr call, cm) \<Rightarrow>
               (sendJson e user (obj [(''type'', JStr ''call.created''), (''callId'', JStr call)])
                @ sendJson e callee (obj [(''type'', JStr ''call.incoming''), (''callId'', JStr call), (''from'', JStr user)]),
                cm)))"

definition rtc_message :: "router_env \<Rightarrow> string \<Rightarrow> string \<Rightarrow> json option" where
  "rtc_message e call config = do {
     j \<leftarrow> json_parse (re_json e) config;
     j \<leftarrow> set_member ''type'' (JStr ''rtc.config'') j;
     set_member ''callId'' (JStr call) j }"

definition onCallAccept :: "router_env \<Rightarrow> string \<Rightarrow> json \<Rightarrow> CallManager \<Rightarrow> (sends \<times> CallManager) option" where
  "onCallAccept e user msg cm =
     (case member_string msg ''callId'' of
        None \<Rightarrow> Some (sendError e user ''missing callId'', cm)
      | Some call \<Rightarrow>
          (case accept call user cm of
             (Inl err, cm) \<Rightarrow> Some (sendError e user err, cm)
           | (Inr session, cm) \<Rightarrow> do {
               callerConfig \<leftarrow> re_gen e (callerId session);
               calleeConfig \<leftarrow> re_gen e (calleeId session);
               caller_rtc \<leftarrow> rtc_message e call callerConfig;
               callee_rtc \<leftarrow> rtc_message e call calleeConfig;
               Some (sendJson e (callerId session) caller_rtc @ sendJson e (calleeId session) callee_rtc, cm) }))"

definition call_ended :: "string \<Rightarrow> string \<Rightarrow> json" where
  "call_ended call reason =
     obj [(''type'', JStr ''call.ended''), (''callId'', JStr call), (''reason'', JStr reason)]"

definition onCallReject :: "router_env \<Rightarrow> string \<Rightarrow> json \<Rightarrow> CallManager \<Rightarrow> sends \<times> CallManager" where
  "onCallReject e user msg cm =
     (case member_string msg ''callId'' of
        None \<Rightarrow> (sendError e user ''missing callId'', cm)
      | Some call \<Rightarrow>
          (case reject call user cm of
             (Inl err, cm) \<Rightarrow> (sendError e user err, cm)
           | (Inr session, cm) \<Rightarrow> (sendJson e (callerId session) (call_ended call ''rejected''), cm)))"

text \<open>The other side of a call, as the router computes it.\<close>

definition other_party :: "string \<Rightarrow> CallSession \<Rightarrow> string" where
  "other_party user s = (if callerId s = user then calleeId s else callerId s)"

definition onCallHangup :: "router_env \<Rightarrow> string \<Rightarrow> json \<Rightarrow> CallManager \<Rightarrow> sends \<times> CallManager" where
  "onCallHangup e user msg cm =
     (case member_string msg ''callId'' of
        None \<Rightarrow> (sendError e user ''missing callId'', cm)
      | Some call \<Rightarrow>
          (case hangup call user cm of
             (Inl err, cm) \<Rightarrow> (sendError e user err, cm)
           | (Inr session, cm) \<Rightarrow>
               (sendJson e (other_party user session) (call_ended call ''hangup''), cm)))"

definition onWebrtcRelay :: "router_env \<Rightarrow> string \<Rightarrow> json \<Rightarrow> string \<Rightarrow> CallManager \<Rightarrow> sends" where
  "onWebrtcRelay e user msg type cm =
     (case member_string msg ''callId'' of
        None \<Rightarrow> sendError e user ''missing callId''
      | Some call \<Rightarrow>
          (case find_call call cm of
             None \<Rightarrow> sendError e user ''call not found''
           | Some session \<Rightarrow> sendJson e (other_party user session) msg))"

definition handle :: "router_env \<Rightarrow> string \<Rightarrow> string \<Rightarrow> CallManager \<Rightarrow> (sends \<times> CallManager) option" where
  "handle e user raw cm =
     (case json_parse (re_json e) raw of
        None \<Rightarrow> Some (sendError e user ''invalid json'', cm)
      | Some msg \<Rightarrow>
          (case member_string msg ''type'' of
             None \<Rightarrow> Some (sendError e user ''missing type'', cm)
           | Some type \<Rightarrow>
               if type = ''call.create'' then Some (onCallCreate e user msg cm)
               else if type = ''call.accept'' then onCallAccept e user msg cm
               else if type = ''call.reject'' then Some (onCallReject e user msg cm)
               else if type = ''call.hangup'' then Some (onCallHangup e user msg cm)
               else if type = ''webrtc.offer'' \<or> type = ''webrtc.answer'' \<or> type = ''webrtc.ice''
               then Some (onWebrtcRelay e user msg type cm, cm)
               else Some (sendError e user (''unknown type: '' @ type), cm)))"

definition call_failed :: "string \<Rightarrow> json" where
  "call_failed call = obj [(''type'', JStr ''call.failed''), (''callId'', JStr call), (''reason'', JStr ''timeout'')]"

definition checkExpired :: "router_env \<Rightarrow> CallManager \<Rightarrow> sends \<times> CallManager" where
  "checkExpired e cm =
     (case expireRinging (re_now e) cm of
        (expired, cm) \<Rightarrow>
          (concat (map (\<lambda>s. sendJson e (callerId s) (call_failed (callId s))
                          @ sendJson e (calleeId s) (call_failed (callId s))) expired), cm))"

section \<open>Lemmas\<close>

text \<open>The generator works: its output is a JSON object.\<close>

definition gen_ok :: "router_env \<Rightarrow> bool" where
  "gen_ok e \<longleftrightarrow> (\<forall>user. \<exists>config m. re_gen e user = Some config \<and> json_parse (re_json e) config = Some (JObj m))"

lemma rtc_message_ok:
  "json_parse (re_json e) config = Some (JObj m) \<Longrightarrow>
     rtc_message e call config = Some (JObj (m(''type'' \<mapsto> JStr ''rtc.config'', ''callId'' \<mapsto> JStr call)))"
  by (simp add: rtc_message_def)

lemma onCallAccept_ok:
  assumes "gen_ok e" "accept call user cm = (Inr s, cm')" "member_string msg ''callId'' = Some call"
  obtains j1 j2 where "onCallAccept e user msg cm = Some (sendJson e (callerId s) j1 @ sendJson e (calleeId s) j2, cm')"
    "member j1 ''type'' = Some (JStr ''rtc.config'')" "member j1 ''callId'' = Some (JStr call)"
    "member j2 ''type'' = Some (JStr ''rtc.config'')" "member j2 ''callId'' = Some (JStr call)"
proof -
  obtain c1 m1 where c1: "re_gen e (callerId s) = Some c1" "json_parse (re_json e) c1 = Some (JObj m1)"
    using assms(1) by (force simp: gen_ok_def)
  obtain c2 m2 where c2: "re_gen e (calleeId s) = Some c2" "json_parse (re_json e) c2 = Some (JObj m2)"
    using assms(1) by (force simp: gen_ok_def)
  show ?thesis
    using c1 c2 assms(2,3) that [of "JObj (m1(''type'' \<mapsto> JStr ''rtc.config'', ''callId'' \<mapsto> JStr call))"
        "JObj (m2(''type'' \<mapsto> JStr ''rtc.config'', ''callId'' \<mapsto> JStr call))"]
    by (simp add: onCallAccept_def rtc_message_ok)
qed

lemma accept_cases:
  obtains (refused) err where "accept call user cm = (Inl err, cm)"
  | (accepted) s cm' where "accept call user cm = (Inr s, cm')" "find_call call cm' = Some s"
      "calleeId s = user" "call_state s = Active"
proof (cases "accept call user cm")
  case (Pair r cm')
  show ?thesis
  proof (cases r)
    case (Inl err)
    with Pair have "accept call user cm = (Inl err, cm)"
      by (auto simp: accept_def Let_def split: option.splits if_splits)
    then show ?thesis by (rule refused)
  next
    case (Inr s)
    with Pair have "find_call call cm' = Some s \<and> calleeId s = user \<and> call_state s = Active"
      by (auto simp: accept_def find_call_def Let_def split: option.splits if_splits)
    with Pair Inr show ?thesis by (intro accepted [of s cm']) simp_all
  qed
qed

lemma handle_inv:
  assumes "cm_inv cm" "gen_ok e"
  shows "\<exists>outs cm'. handle e user raw cm = Some (outs, cm') \<and> cm_inv cm'"
proof -
  have acc: "\<exists>outs cm'. onCallAccept e user msg cm = Some (outs, cm') \<and> cm_inv cm'" for msg
  proof (cases "member_string msg ''callId''")
    case None
    with assms show ?thesis by (simp add: onCallAccept_def)
  next
    case (Some call)
    show ?thesis
    proof (cases rule: accept_cases [of call user cm])
      case (refused err)
      with Some assms show ?thesis by (simp add: onCallAccept_def)
    next
      case (accepted s cm')
      with onCallAccept_ok [OF assms(2) accepted(1) Some] accept_inv [OF assms(1), of call user]
      show ?thesis by (metis snd_conv)
    qed
  qed
  have "cm_inv (snd (onCallCreate e user msg cm))" for msg
    using create_inv [OF assms(1), of "re_a e" "re_b e" "re_now e" user] assms(1)
    by (auto simp: onCallCreate_def split: option.splits prod.splits sum.splits) (metis snd_conv)+
  then have "\<exists>outs cm'. onCallCreate e user msg cm = (outs, cm') \<and> cm_inv cm'" for msg
    by (metis prod.collapse)
  moreover have "cm_inv (snd (onCallReject e user msg cm))" for msg
    using reject_inv [OF assms(1)] assms(1)
    by (auto simp: onCallReject_def split: option.splits prod.splits sum.splits) (metis snd_conv)+
  then have "\<exists>outs cm'. onCallReject e user msg cm = (outs, cm') \<and> cm_inv cm'" for msg
    by (metis prod.collapse)
  moreover have "cm_inv (snd (onCallHangup e user msg cm))" for msg
    using hangup_inv [OF assms(1)] assms(1)
    by (auto simp: onCallHangup_def split: option.splits prod.splits sum.splits) (metis snd_conv)+
  then have "\<exists>outs cm'. onCallHangup e user msg cm = (outs, cm') \<and> cm_inv cm'" for msg
    by (metis prod.collapse)
  ultimately show ?thesis
    using acc assms(1) by (simp add: handle_def split: option.split)
qed

lemma handle_cases:
  assumes "handle e user raw cm = Some (outs, cm')"
  obtains (error) r where "outs = sendError e user r" "cm' = cm"
  | (create) msg where "onCallCreate e user msg cm = (outs, cm')"
  | (accept) msg where "onCallAccept e user msg cm = Some (outs, cm')"
  | (reject) msg where "onCallReject e user msg cm = (outs, cm')"
  | (hangup) msg where "json_parse (re_json e) raw = Some msg" "member_string msg ''type'' = Some ''call.hangup''"
      "onCallHangup e user msg cm = (outs, cm')"
  | (relay) msg ty where "onWebrtcRelay e user msg ty cm = outs" "cm' = cm"
proof (cases "json_parse (re_json e) raw")
  case None
  with assms error [of "''invalid json''"] show ?thesis by (simp add: handle_def)
next
  case p: (Some msg)
  show ?thesis
  proof (cases "member_string msg ''type''")
    case None
    with p assms error [of "''missing type''"] show ?thesis by (simp add: handle_def)
  next
    case (Some ty)
    note eq = assms [unfolded handle_def p option.case Some]
    consider "ty = ''call.create''" | "ty = ''call.accept''" | "ty = ''call.reject''" | "ty = ''call.hangup''"
      | "ty = ''webrtc.offer'' \<or> ty = ''webrtc.answer'' \<or> ty = ''webrtc.ice''"
      | "ty \<noteq> ''call.create''" "ty \<noteq> ''call.accept''" "ty \<noteq> ''call.reject''" "ty \<noteq> ''call.hangup''"
        "\<not> (ty = ''webrtc.offer'' \<or> ty = ''webrtc.answer'' \<or> ty = ''webrtc.ice'')"
      by argo
    then show ?thesis
    proof cases
      case 1
      with eq show ?thesis by (intro create [of msg]) simp
    next
      case 2
      with eq show ?thesis by (intro accept [of msg]) simp
    next
      case 3
      with eq show ?thesis by (intro reject [of msg]) simp
    next
      case 4
      with eq p Some show ?thesis by (intro hangup [of msg]) simp_all
    next
      case 5
      with eq show ?thesis by (intro relay [of msg ty]) auto
    next
      case 6
      with eq show ?thesis
        by (intro error [of "''unknown type: '' @ ty"]) (simp_all only: if_False option.inject prod.inject)
    qed
  qed
qed

text \<open>A message that asks to hang up the call \<open>call\<close>.\<close>

definition asks_hangup :: "json_lib \<Rightarrow> string \<Rightarrow> string \<Rightarrow> bool" where
  "asks_hangup js call raw =
     (case json_parse js raw of
        None \<Rightarrow> False
      | Some msg \<Rightarrow> member_string msg ''type'' = Some ''call.hangup'' \<and> member_string msg ''callId'' = Some call)"

text \<open>An active call ends only when it is hung up.\<close>

lemma handle_keeps_active:
  assumes "handle e user raw cm = Some (outs, cm')" "find_call call cm = Some s" "call_state s = Active"
    "generateUuid (re_a e) (re_b e) \<noteq> call" "\<not> asks_hangup (re_json e) call raw"
  shows "find_call call cm' = Some s"
  using assms(1)
proof (cases rule: handle_cases)
  case (create msg)
  with assms(2,4) show ?thesis
    by (auto simp: onCallCreate_def create_def find_call_def Let_def split: option.splits if_splits)
next
  case (accept msg)
  with assms(2,3) show ?thesis
    by (auto simp: onCallAccept_def accept_def find_call_def Let_def bind_eq_Some_conv split: option.splits if_splits)
next
  case (reject msg)
  with assms(2,3) show ?thesis
    by (auto simp: onCallReject_def reject_def find_call_def Let_def split: option.splits if_splits)
next
  case (hangup msg)
  with assms(5) have "member_string msg ''callId'' \<noteq> Some call" by (simp add: asks_hangup_def)
  with hangup(3) assms(2) show ?thesis
    by (auto simp: onCallHangup_def hangup_def find_call_def Let_def split: option.splits if_splits)
qed (use assms(2) in auto)

section \<open>Message sequences\<close>

text \<open>One event of the router: a message of a user, or the periodic sweep.\<close>

datatype router_event = Message router_env string string | Sweep router_env

fun event_ok :: "router_event \<Rightarrow> bool" where
  "event_ok (Message e user raw) = gen_ok e"
| "event_ok (Sweep e) = True"

fun router_step :: "router_event \<Rightarrow> CallManager \<Rightarrow> CallManager" where
  "router_step (Message e user raw) cm = (case handle e user raw cm of None \<Rightarrow> cm | Some (outs, cm') \<Rightarrow> cm')"
| "router_step (Sweep e) cm = snd (checkExpired e cm)"

lemma router_step_inv: "cm_inv cm \<Longrightarrow> event_ok ev \<Longrightarrow> cm_inv (router_step ev cm)"
proof (cases ev)
  case (Message e user raw)
  then show "cm_inv cm \<Longrightarrow> event_ok ev \<Longrightarrow> cm_inv (router_step ev cm)"
    using handle_inv [of cm e user raw] by auto
next
  case (Sweep e)
  then show "cm_inv cm \<Longrightarrow> event_ok ev \<Longrightarrow> cm_inv (router_step ev cm)"
    using expireRinging_inv [of cm "re_now e"] by (auto simp: checkExpired_def split: prod.splits)
qed

interpretation router: invariant_machine router_step event_ok cm_inv
  by unfold_locales (rule router_step_inv)

section \<open>A concrete exchange\<close>

text \<open>A parser that knows three messages.\<close>

definition demo_call :: string where
  "demo_call = generateUuid 1 2"

definition demo_router_json :: json_lib where
  "demo_router_json =
     \<lparr>json_parse = (\<lambda>s. if s = ''create'' then Some (obj [(''type'', JStr ''call.create''), (''to'', JStr ''bob'')])
                      else if s = ''accept'' then Some (obj [(''type'', JStr ''call.accept''), (''callId'', JStr demo_call)])
                      else if s = ''hangup'' then Some (obj [(''type'', JStr ''call.hangup''), (''callId'', JStr demo_call)])
                      else if s = ''offer'' then Some (obj [(''type'', JStr ''webrtc.offer''), (''callId'', JStr demo_call)])
                      else if s = ''config'' then Some (obj []) else None),
      json_dump = (\<lambda>j. []), json_type_error = (\<lambda>j. [])\<rparr>"

definition demo_router_env :: router_env where
  "demo_router_env = \<lparr>re_json = demo_router_json, re_gen = (\<lambda>user. Some ''config''), re_a = 1, re_b = 2, re_now = 0\<rparr>"

lemma demo_gen_ok: "gen_ok demo_router_env"
  by (auto simp: gen_ok_def demo_router_env_def demo_router_json_def obj_def)

section \<open>Properties\<close>

text \<open>
  The signalling server keeps working: after any sequence of messages of any users
  and of sweeps, every further message is processed without an escaping exception, and no
  user is in two calls.
\<close>

lemma router_always_answers:
  assumes "list_all event_ok evs" "gen_ok e"
  shows "\<exists>outs cm'. handle e user raw (fold router_step evs (mk_call_manager secs)) = Some (outs, cm')
     \<and> (\<forall>k k' s s' u. find_call k cm' = Some s \<longrightarrow> find_call k' cm' = Some s' \<longrightarrow> in_call u s \<longrightarrow> in_call u s' \<longrightarrow> k = k')"
proof -
  have "cm_inv (fold router_step evs (mk_call_manager secs))"
    by (rule router.run_inv [OF mk_call_manager_inv assms(1)])
  from handle_inv [OF this assms(2), of user raw] show ?thesis
    unfolding cm_inv_def find_call_def by blast
qed

text \<open>The sweep tells both parties of exactly the calls it ends.\<close>

lemma checkExpired_sends:
  assumes "cm_inv cm"
  shows "(dst, m) \<in> set (fst (checkExpired e cm)) \<longleftrightarrow>
    (\<exists>k s. find_call k cm = Some s \<and> call_state s = Ringing \<and> re_now e - createdAt s > ring_timeout cm
       \<and> in_call dst s \<and> m = json_dump (re_json e) (call_failed k))"
proof -
  have ex: "x \<in> set (fst (expireRinging (re_now e) cm)) \<longleftrightarrow> (\<exists>s. find_call (callId s) cm = Some s \<and> call_state s = Ringing
      \<and> re_now e - createdAt s > ring_timeout cm \<and> x = s\<lparr>call_state := Ended\<rparr>)" for x
    using expire_effect [OF assms] by blast
  have "(dst, m) \<in> set (fst (checkExpired e cm)) \<longleftrightarrow>
      (\<exists>x \<in> set (fst (expireRinging (re_now e) cm)). in_call dst x \<and> m = json_dump (re_json e) (call_failed (callId x)))"
    by (auto simp: checkExpired_def sendJson_def in_call_def split: prod.splits)
  also have "\<dots> \<longleftrightarrow> (\<exists>s. find_call (callId s) cm = Some s \<and> call_state s = Ringing \<and> re_now e - createdAt s > ring_timeout cm
      \<and> in_call dst s \<and> m = json_dump (re_json e) (call_failed (callId s)))"
    unfolding Bex_def ex by (auto simp: in_call_def)
  also have "\<dots> \<longleftrightarrow> (\<exists>k s. find_call k cm = Some s \<and> call_state s = Ringing \<and> re_now e - createdAt s > ring_timeout cm
      \<and> in_call dst s \<and> m = json_dump (re_json e) (call_failed k))"
    using assms unfolding cm_inv_def find_call_def by blast
  finally show ?thesis .
qed

text \<open>
  C26. Who is written to: a message of one party of a call about that call goes to the other
  party and never back. Offers, answers and candidates reach exactly the other party,
  unchanged; a hang-up tells exactly the other party and ends the call; a rejection by the
  callee of a ringing call tells exactly the caller, and its acceptance sends a configuration
  first to the caller and then to the callee, while anybody else who accepts or rejects is
  alone told of an error. The sweep writes to both parties of exactly the calls that have
  rung too long, and to nobody else.
\<close>

theorem router_writes_to_other_party:
  assumes "cm_inv cm" "gen_ok e" "find_call call cm = Some s"
    and "user \<noteq> peer" "{user, peer} = {callerId s, calleeId s}"
    and "json_parse (re_json e) raw = Some msg" "member_string msg ''callId'' = Some call" "member_string msg ''type'' = Some ty"
  shows "(ty \<in> {''webrtc.offer'', ''webrtc.answer'', ''webrtc.ice''} \<longrightarrow>
        handle e user raw cm = Some ([(peer, json_dump (re_json e) msg)], cm))
    \<and> (ty = ''call.hangup'' \<longrightarrow>
        handle e user raw cm =
          Some ([(peer, json_dump (re_json e) (call_ended call ''hangup''))], cm\<lparr>calls := um_erase call (calls cm)\<rparr>))
    \<and> (ty = ''call.reject'' \<longrightarrow> (\<exists>err. handle e user raw cm =
          Some (if user = calleeId s \<and> call_state s = Ringing
                then ([(peer, json_dump (re_json e) (call_ended call ''rejected''))], cm\<lparr>calls := um_erase call (calls cm)\<rparr>)
                else (sendError e user err, cm))))
    \<and> (ty = ''call.accept'' \<longrightarrow> (\<exists>j1 j2 err. handle e user raw cm =
          Some (if user = calleeId s \<and> call_state s = Ringing
                then (sendJson e peer j1 @ sendJson e user j2,
                      cm\<lparr>calls := um_set call (s\<lparr>call_state := Active\<rparr>) (calls cm)\<rparr>)
                else (sendError e user err, cm))))
    \<and> (\<forall>dst m. (dst, m) \<in> set (fst (checkExpired e cm)) \<longleftrightarrow>
          (\<exists>k s. find_call k cm = Some s \<and> call_state s = Ringing \<and> re_now e - createdAt s > ring_timeout cm
             \<and> in_call dst s \<and> m = json_dump (re_json e) (call_failed k)))"
proof -
  have p: "other_party user s = peer" "in_call user s" "user = calleeId s \<longrightarrow> callerId s = peer"
    using assms(4,5) by (auto simp: other_party_def in_call_def doubleton_eq_iff)
  note ctl = call_control_spec [OF assms(1,3), of user]
  note h = handle_def assms(6-8)
  have relay: "handle e user raw cm = Some ([(peer, json_dump (re_json e) msg)], cm)"
    if "ty \<in> {''webrtc.offer'', ''webrtc.answer'', ''webrtc.ice''}"
    using that p(1) assms(3) by (auto simp: h onWebrtcRelay_def sendJson_def)
  have hang: "handle e user raw cm =
      Some ([(peer, json_dump (re_json e) (call_ended call ''hangup''))], cm\<lparr>calls := um_erase call (calls cm)\<rparr>)" if "ty = ''call.hangup''"
    using that p(1,2) ctl(3) by (auto simp: h onCallHangup_def sendJson_def other_party_def split: if_splits)
  have rej: "\<exists>err. handle e user raw cm =
      Some (if user = calleeId s \<and> call_state s = Ringing
            then ([(peer, json_dump (re_json e) (call_ended call ''rejected''))], cm\<lparr>calls := um_erase call (calls cm)\<rparr>)
            else (sendError e user err, cm))" if "ty = ''call.reject''"
    using that p(3) ctl(2) by (auto simp: h onCallReject_def sendJson_def)
  have acc: "\<exists>j1 j2 err. handle e user raw cm =
      Some (if user = calleeId s \<and> call_state s = Ringing
            then (sendJson e peer j1 @ sendJson e user j2, cm\<lparr>calls := um_set call (s\<lparr>call_state := Active\<rparr>) (calls cm)\<rparr>)
            else (sendError e user err, cm))" if ty: "ty = ''call.accept''"
  proof (cases "user = calleeId s \<and> call_state s = Ringing")
    case True
    then have "accept call user cm = (Inr (s\<lparr>call_state := Active\<rparr>), cm\<lparr>calls := um_set call (s\<lparr>call_state := Active\<rparr>) (calls cm)\<rparr>)"
      using ctl(1) by simp
    from onCallAccept_ok [OF assms(2) this assms(7)] obtain j1 j2 where
      "onCallAccept e user msg cm = Some (sendJson e (callerId s) j1 @ sendJson e (calleeId s) j2,
         cm\<lparr>calls := um_set call (s\<lparr>call_state := Active\<rparr>) (calls cm)\<rparr>)"
      by (metis CallSession.select_convs(2,3) CallSession.surjective CallSession.update_convs(4))
    with True ty p(3) show ?thesis by (auto simp: h)
  next
    case False
    then show ?thesis using ctl(1) ty by (auto simp: h onCallAccept_def)
  qed
  show ?thesis using relay hang rej acc checkExpired_sends [OF assms(1)] by blast
qed

theorem router_writes_to_other_party_witness:
  "handle demo_router_env ''ann'' ''offer'' demo_cm
     = Some ([(''bob'', json_dump demo_router_json (obj [(''type'', JStr ''webrtc.offer''), (''callId'', JStr demo_call)]))], demo_cm)
   \<and> handle demo_router_env ''bob'' ''offer'' demo_cm
     = Some ([(''ann'', json_dump demo_router_json (obj [(''type'', JStr ''webrtc.offer''), (''callId'', JStr demo_call)]))], demo_cm)"
proof -
  have "find_call demo_call demo_cm = Some (the (find_call demo_call demo_cm))"
    "callerId (the (find_call demo_call demo_cm)) = ''ann''" "calleeId (the (find_call demo_call demo_cm)) = ''bob''"
    using demo_cm_find by (simp_all add: demo_call_def)
  then show ?thesis
    using router_writes_to_other_party [OF demo_cm_inv demo_gen_ok, of demo_call _ "''ann''" "''bob''" "''offer''"]
      router_writes_to_other_party [OF demo_cm_inv demo_gen_ok, of demo_call _ "''bob''" "''ann''" "''offer''"]
    by (simp add: demo_router_env_def demo_router_json_def insert_commute)
qed

text \<open>
  A whole call: two free users with the caller's request to the callee, the callee's
  acceptance and the hang-up of either. The caller is told the call id and the callee is
  rung with it; on acceptance both get an RTC configuration for that call; on hang-up the
  other party is told, and both users are free again as before.
\<close>

lemma call_flow:
  assumes inv: "cm_inv cm" and gen: "gen_ok e" and free: "\<not> isBusy caller cm" "\<not> isBusy callee cm"
    and fresh: "find_call (generateUuid (re_a e) (re_b e)) cm = None"
    and call: "call = generateUuid (re_a e) (re_b e)"
    and create: "json_parse (re_json e) m1 = Some (obj [(''type'', JStr ''call.create''), (''to'', JStr callee)])"
    and acc: "json_parse (re_json e) m2 = Some (obj [(''type'', JStr ''call.accept''), (''callId'', JStr call)])"
    and hang: "json_parse (re_json e) m3 = Some (obj [(''type'', JStr ''call.hangup''), (''callId'', JStr call)])"
    and who: "user = caller \<or> user = callee"
  shows "\<exists>cm1 cm2 cm3 j1 j2.
       handle e caller m1 cm = Some
         ([(caller, json_dump (re_json e) (obj [(''type'', JStr ''call.created''), (''callId'', JStr call)])),
           (callee, json_dump (re_json e) (obj [(''type'', JStr ''call.incoming''), (''callId'', JStr call), (''from'', JStr caller)]))], cm1)
     \<and> handle e callee m2 cm1 = Some ([(caller, json_dump (re_json e) j1), (callee, json_dump (re_json e) j2)], cm2)
     \<and> member j1 ''type'' = Some (JStr ''rtc.config'') \<and> member j1 ''callId'' = Some (JStr call)
     \<and> member j2 ''type'' = Some (JStr ''rtc.config'') \<and> member j2 ''callId'' = Some (JStr call)
     \<and> handle e user m3 cm2 = Some ([(if user = caller then callee else caller, json_dump (re_json e) (call_ended call ''hangup''))], cm3)
     \<and> (\<forall>u. isBusy u cm3 = isBusy u cm)"
proof -
  let ?s = "\<lparr>callId = call, callerId = caller, calleeId = callee, call_state = Ringing, createdAt = re_now e\<rparr>"
  let ?a = "?s\<lparr>call_state := Active\<rparr>"
  obtain cm1 where c1: "create (re_a e) (re_b e) (re_now e) caller callee cm = (Inr call, cm1)"
    "find_call call cm1 = Some ?s" "\<forall>u. isBusy u cm1 \<longleftrightarrow> isBusy u cm \<or> u = caller \<or> u = callee"
    using create_spec [OF inv fresh, of caller callee "re_now e"] free call by auto
  have inv1: "cm_inv cm1" using create_inv [OF inv, of "re_a e" "re_b e" "re_now e" caller callee] c1(1) by simp
  define cm2 where "cm2 = cm1\<lparr>calls := um_set call ?a (calls cm1)\<rparr>"
  note ctl1 = call_control_spec [OF inv1 c1(2)]
  have a2: "accept call callee cm1 = (Inr ?a, cm2)" using ctl1(1) [of callee] by (simp add: cm2_def)
  have inv2: "cm_inv cm2" using accept_inv [OF inv1, of call callee] a2 by simp
  have f2: "find_call call cm2 = Some ?a" by (simp add: cm2_def find_call_def)
  note ctl2 = call_control_spec [OF inv2 f2]
  define cm3 where "cm3 = cm2\<lparr>calls := um_erase call (calls cm2)\<rparr>"
  have h3: "hangup call user cm2 = (Inr (?a\<lparr>call_state := Ended\<rparr>), cm3)"
    using ctl2(3) [of user] who by (auto simp: cm3_def in_call_def)
  have busy: "isBusy u cm3 = isBusy u cm" for u
    using ctl1(5) [of u] ctl2(4) [of u] c1(3) free by (auto simp: cm2_def cm3_def in_call_def)
  have mem: "member_string (obj [(''type'', JStr ''call.accept''), (''callId'', JStr call)]) ''callId'' = Some call"
    by simp
  from gen a2 mem obtain j1 j2 where j: "onCallAccept e callee (obj [(''type'', JStr ''call.accept''), (''callId'', JStr call)]) cm1 =
      Some (sendJson e (callerId ?a) j1 @ sendJson e (calleeId ?a) j2, cm2)"
    and t: "member j1 ''type'' = Some (JStr ''rtc.config'')" "member j1 ''callId'' = Some (JStr call)"
    "member j2 ''type'' = Some (JStr ''rtc.config'')" "member j2 ''callId'' = Some (JStr call)"
    by (rule onCallAccept_ok)
  have r1: "handle e caller m1 cm = Some
         ([(caller, json_dump (re_json e) (obj [(''type'', JStr ''call.created''), (''callId'', JStr call)])),
           (callee, json_dump (re_json e) (obj [(''type'', JStr ''call.incoming''), (''callId'', JStr call), (''from'', JStr caller)]))], cm1)"
    using c1(1) by (simp add: handle_def create onCallCreate_def sendJson_def)
  have r2: "handle e callee m2 cm1 = Some ([(caller, json_dump (re_json e) j1), (callee, json_dump (re_json e) j2)], cm2)"
    using j by (simp add: handle_def acc sendJson_def)
  have r3: "handle e user m3 cm2 =
      Some ([(if user = caller then callee else caller, json_dump (re_json e) (call_ended call ''hangup''))], cm3)"
    using h3 who by (auto simp: handle_def hang onCallHangup_def sendJson_def other_party_def)
  show ?thesis
    by (intro exI [of _ cm1] exI [of _ cm2] exI [of _ cm3] exI [of _ j1] exI [of _ j2] conjI r1 r2 r3 t allI busy)
qed

text \<open>
  WebRTC messages are relayed without looking at the sender: any user who names the id
  of a call, also one who does not take part in it, has the message passed to the caller.
\<close>

lemma relay_ignores_sender:
  assumes "find_call call cm = Some s" "\<not> in_call user s"
    "json_parse (re_json e) raw = Some msg" "member_string msg ''type'' = Some ''webrtc.offer''"
    "member_string msg ''callId'' = Some call"
  shows "handle e user raw cm = Some ([(callerId s, json_dump (re_json e) msg)], cm)"
  using assms by (simp add: handle_def onWebrtcRelay_def sendJson_def other_party_def in_call_def)

end
