(* ===== verification/Ws_Server.thy ===== *)
theory Ws_Server
  imports Backend_Auth Router
begin

text \<open>
  \<open>backend/signaling/ws_server.cpp\<close>: the registry of connected users. A web socket session
  is named by a number. Beast's accept, read and write are outside the model; what they
  lead to are the operations here: \<open>ws_accept\<close> for an upgrade request, \<open>removeSession\<close>
  when a session reports an error, \<open>ws_send\<close> for an outgoing message.
\<close>

section \<open>Operations\<close>

type_synonym session_id = nat

record WsServer =
  ws_sessions :: "(string, session_id) umap"

definition mk_ws_server :: WsServer where
  "mk_ws_server = \<lparr>ws_sessions = []\<rparr>"

definition extractToken :: "string \<Rightarrow> string" where
  "extractToken target =
     (case find_substr ''token='' target of
        None \<Rightarrow> []
      | Some pos \<Rightarrow>
          let t = drop pos target
          in if CHR ''&'' \<in> set t
             then take (length (takeWhile (\<lambda>c. c \<noteq> CHR ''&'') t) - 6) (drop 6 t)
             else drop 6 t)"

text \<open>The new session runs only when the token verifies; its user is the token's.\<close>

definition ws_accept ::
    "auth_env \<Rightarrow> session_id \<Rightarrow> string \<Rightarrow> AuthService \<Rightarrow> WsServer \<Rightarrow> string option \<times> WsServer" where
  "ws_accept e sid target svc ws =
     (let token = extractToken target
      in if token = [] then (None, ws)
         else case verifyToken e token svc of
           Inl err \<Rightarrow> (None, ws)
         | Inr payload \<Rightarrow>
             (Some (jp_userId payload), ws\<lparr>ws_sessions := um_set (jp_userId payload) sid (ws_sessions ws)\<rparr>))"

definition ws_send :: "string \<Rightarrow> string \<Rightarrow> WsServer \<Rightarrow> (session_id \<times> string) option" where
  "ws_send user message ws =
     (case um_find (ws_sessions ws) user of None \<Rightarrow> None | Some sid \<Rightarrow> Some (sid, message))"

definition removeSession :: "string \<Rightarrow> WsServer \<Rightarrow> WsServer" where
  "removeSession user ws = ws\<lparr>ws_sessions := um_erase user (ws_sessions ws)\<rparr>"

text \<open>The router's messages on their way to the sessions, in order.\<close>

definition deliver :: "sends \<Rightarrow> WsServer \<Rightarrow> (session_id \<times> string) list" where
  "deliver outs ws = concat (map (\<lambda>(user, message). case ws_send user message ws of None \<Rightarrow> [] | Some d \<Rightarrow> [d]) outs)"

section \<open>The registry contract\<close>

interpretation wsreg: registry
  "\<lambda>ws user. um_find (ws_sessions ws) user"
  "\<lambda>user sid ws. ws\<lparr>ws_sessions := um_set user sid (ws_sessions ws)\<rparr>" removeSession
  by unfold_locales (auto simp: removeSession_def)

lemma ws_accept_cases:
  obtains (refused) "ws_accept e sid target svc ws = (None, ws)"
  | (accepted) payload where "extractToken target \<noteq> []" "verifyToken e (extractToken target) svc = Inr payload"
      "ws_accept e sid target svc ws =
         (Some (jp_userId payload), ws\<lparr>ws_sessions := um_set (jp_userId payload) sid (ws_sessions ws)\<rparr>)"
  by (cases "verifyToken e (extractToken target) svc"; cases "extractToken target = []")
    (auto simp: ws_accept_def Let_def)

section \<open>Tokens in the request target\<close>

lemma find_substr_first:
  assumes "take (length sub) (drop n s) = sub" "n \<le> length s"
    "\<And>i. i < n \<Longrightarrow> take (length sub) (drop i s) \<noteq> sub"
  shows "find_substr sub s = Some n"
proof -
  have "find (\<lambda>i. take (length sub) (drop i s) = sub) [0..<length s + 1] = Some n"
    unfolding find_Some_iff by (rule exI [of _ n]) (use assms in \<open>auto simp: nth_append\<close>)
  then show ?thesis by (simp add: find_substr_def)
qed

text \<open>What the client of this repository requests: \<open>"/ws?token=" + token\<close>.\<close>

definition ws_target :: "string \<Rightarrow> string" where
  "ws_target token = ''/ws?token='' @ token"

lemma find_token: "find_substr ''token='' (ws_target token @ rest) = Some 4"
  by (rule find_substr_first) (auto simp: ws_target_def less_Suc_eq numeral_eq_Suc)

lemma extractToken_target: "CHR ''&'' \<notin> set token \<Longrightarrow> extractToken (ws_target token) = token"
  using find_token [of token "[]"] by (simp add: extractToken_def ws_target_def Let_def)

lemma extractToken_parameter:
  assumes "CHR ''&'' \<notin> set token"
  shows "extractToken (ws_target token @ CHR ''&'' # params) = token"
proof -
  have "takeWhile (\<lambda>c. c \<noteq> CHR ''&'') (''token='' @ token @ CHR ''&'' # params) = ''token='' @ token"
    using assms by (subst append_assoc [symmetric], subst takeWhile_append2) auto
  with find_token [of token "CHR ''&'' # params"] show ?thesis
    by (simp add: extractToken_def ws_target_def Let_def)
qed

definition demo_ws_token :: string where
  "demo_ws_token = demo_sign ''k'' ''ann'' 100 160"

section \<open>Properties\<close>

text \<open>
  From login to signalling: the token a user gets at login, put into the target of the
  web socket request as the client does (also with further parameters behind it), opens a
  session registered under exactly that user, and messages for the user go to this session
  until another one replaces it or it is removed; other users keep their sessions.
\<close>

lemma login_opens_session:
  assumes "db_up e" "login e uid pw svc = Inr r" "CHR ''&'' \<notin> set (lr_token r)" "lr_token r \<noteq> []"
    "jwt_ok (ae_jwt e)" "ae_jwt e' = ae_jwt e" "ae_wall e \<le> ae_wall e'" "ae_wall e' \<le> ae_wall e + token_ttl svc"
    "target = ws_target (lr_token r) \<or> target = ws_target (lr_token r) @ CHR ''&'' # params"
  shows "\<exists>ws'. ws_accept e' sid target svc ws = (Some uid, ws')
     \<and> ws_send uid m ws' = Some (sid, m)
     \<and> (\<forall>other. other \<noteq> uid \<longrightarrow> ws_send other m ws' = ws_send other m ws)
     \<and> ws_send uid m (removeSession uid ws') = None"
proof -
  have t: "lr_token r = jwt_sign (ae_jwt e) (jwt_secret svc) uid (ae_wall e) (ae_wall e + token_ttl svc)"
    using assms(2) by (auto simp: login_iff [OF assms(1)] Jwt_sign_def split: if_splits)
  have tok: "extractToken target = lr_token r"
    using assms(9) extractToken_target [OF assms(3)] extractToken_parameter [OF assms(3)] by auto
  have "verifyToken e' (lr_token r) svc = Inr \<lparr>jp_userId = uid, jp_exp = ae_wall e + token_ttl svc\<rparr>"
    using assms(5) [unfolded jwt_ok_def, rule_format, of "ae_wall e'" "ae_wall e + token_ttl svc" "ae_wall e" "jwt_secret svc" uid]
      assms(6-8) by (simp add: verifyToken_def Jwt_verify_def t)
  then show ?thesis
    using tok assms(4) by (simp add: ws_accept_def ws_send_def removeSession_def)
qed

text \<open>
  Sessions exist only for verified tokens: whatever the target of an upgrade request,
  the registry changes only if the token in it verifies, and then only the entry of the
  user the token names.
\<close>

lemma sessions_need_valid_token:
  assumes "ws_accept e sid target svc ws = (u, ws')" "um_find (ws_sessions ws') user \<noteq> um_find (ws_sessions ws) user"
  shows "u = Some user \<and> um_find (ws_sessions ws') user = Some sid
     \<and> (\<exists>payload. verifyToken e (extractToken target) svc = Inr payload \<and> jp_userId payload = user)"
proof (cases rule: ws_accept_cases [of e sid target svc ws])
  case refused
  with assms show ?thesis by simp
next
  case (accepted payload)
  with assms show ?thesis by (auto split: if_splits)
qed

text \<open>
  A reconnect can lose the user: when a user opens a second session and the first one
  is closed afterwards, the close removes the second session from the registry, and the
  server can no longer reach the connected user.
\<close>

lemma stale_close_disconnects_user:
  assumes "ws_accept e1 sid1 target1 svc ws = (Some user, ws1)" "ws_accept e2 sid2 target2 svc ws1 = (Some user, ws2)"
  shows "ws_send user m ws2 = Some (sid2, m) \<and> ws_send user m (removeSession user ws2) = None"
proof -
  have "ws2 = ws1\<lparr>ws_sessions := um_set user sid2 (ws_sessions ws1)\<rparr>"
    using assms(2) by (cases rule: ws_accept_cases [of e2 sid2 target2 svc ws1]) auto
  then show ?thesis
    using wsreg.lookup_enter wsreg.lookup_leave by (simp add: ws_send_def)
qed

end
