(* ===== verification/Http_Api.thy ===== *)
theory Http_Api
  imports Backend_Auth Json
begin

text \<open>
  \<open>backend/api\<close>: the request dispatch of the HTTPS server and the three routes (login,
  TURN credentials, registration). Beast parses requests and writes responses; the model
  starts from a parsed request. A handler's exception is \<open>Inl\<close>; the session turns it into
  status 500.
\<close>

section \<open>http\_server.hpp\<close>

record Request =
  rq_method :: string
  rq_target :: string
  rq_body :: string
  rq_headers :: "(string, string) umap"

record Response =
  status :: nat
  body :: string
  content_type :: string

definition json_response :: "nat \<Rightarrow> string \<Rightarrow> Response" where
  "json_response st b = \<lparr>status = st, body = b, content_type = ''application/json''\<rparr>"

record api_env = auth_env +
  ae_json :: json_lib

type_synonym Handler = "api_env \<Rightarrow> Request \<Rightarrow> AuthService \<Rightarrow> (api_error + Response) \<times> AuthService"

section \<open>routes.cpp\<close>

record TurnConfig =
  tc_host :: string
  tc_port_plain :: u16
  tc_port_tls :: u16
  tc_shared_secret :: string
  tc_ttl :: int

definition extractBearer :: "Request \<Rightarrow> string" where
  "extractBearer req =
     (case (case um_find (rq_headers req) ''Authorization'' of
              None \<Rightarrow> um_find (rq_headers req) ''authorization'' | Some v \<Rightarrow> Some v) of
        None \<Rightarrow> []
      | Some v \<Rightarrow> if take 7 v \<noteq> ''Bearer '' then [] else drop 7 v)"

text \<open>The time-limited TURN user name and its password.\<close>

definition turn_username :: "int \<Rightarrow> string \<Rightarrow> TurnConfig \<Rightarrow> string" where
  "turn_username wall user cfg = to_string (wall + tc_ttl cfg) @ '':'' @ user"

definition turn_password :: "openssl \<Rightarrow> string \<Rightarrow> TurnConfig \<Rightarrow> api_error + string" where
  "turn_password ssl username cfg =
     (case hmac_sha1_str ssl (tc_shared_secret cfg) username of
        None \<Rightarrow> Inl (OtherException ''hmac_sha1: HMAC() failed'')
      | Some raw \<Rightarrow> Inr (base64_encode ssl raw))"

definition turn_urls :: "TurnConfig \<Rightarrow> json" where
  "turn_urls cfg =
     JArr [JStr (''turn:'' @ tc_host cfg @ '':'' @ to_string (uint (tc_port_plain cfg))),
           JStr (''turns:'' @ tc_host cfg @ '':'' @ to_string (uint (tc_port_tls cfg)))]"

definition generateRtcConfig :: "openssl \<Rightarrow> json_lib \<Rightarrow> int \<Rightarrow> string \<Rightarrow> TurnConfig \<Rightarrow> api_error + string" where
  "generateRtcConfig ssl js wall user cfg =
     (let username = turn_username wall user cfg
      in case turn_password ssl username cfg of
           Inl err \<Rightarrow> Inl err
         | Inr password \<Rightarrow>
             let ice_server = obj [(''urls'', turn_urls cfg), (''username'', JStr username), (''credential'', JStr password)]
             in Inr (json_dump js (obj [(''iceServers'', JArr [ice_server])])))"

definition login_route :: Handler where
  \<open>login_route e req svc =
     (case json_parse (ae_json e) (rq_body req) of
        None \<Rightarrow> (Inr (json_response 400 ''{"error":"invalid json"}''), svc)
      | Some j \<Rightarrow>
          (case (member j ''userId'', member j ''password'') of
             (Some u, Some p) \<Rightarrow>
               (case (u, p) of
                  (JStr uid, JStr password) \<Rightarrow>
                    (case login (auth_env.truncate e) uid password svc of
                       Inr r \<Rightarrow> (Inr (json_response 200 (json_dump (ae_json e)
                                  (obj [(''token'', JStr (lr_token r)), (''userId'', JStr (lr_userId r))]))), svc)
                     | Inl (LoginError m) \<Rightarrow> (Inr (json_response 401 ''{"error":"invalid credentials"}''), svc)
                     | Inl err \<Rightarrow> (Inl err, svc))
                | (JStr uid, _) \<Rightarrow> (Inl (OtherException (json_type_error (ae_json e) p)), svc)
                | _ \<Rightarrow> (Inl (OtherException (json_type_error (ae_json e) u)), svc))
           | _ \<Rightarrow> (Inr (json_response 400 ''{"error":"missing userId or password"}''), svc)))\<close>

definition credentials_route :: "TurnConfig \<Rightarrow> Handler" where
  \<open>credentials_route cfg e req svc =
     (let token = extractBearer req
      in if token = [] then (Inr (json_response 401 ''{"error":"missing token"}''), svc)
         else case verifyToken (auth_env.truncate e) token svc of
           Inl (JwtExpired m) \<Rightarrow> (Inr (json_response 401 ''{"error":"token expired"}''), svc)
         | Inl (JwtInvalid m) \<Rightarrow> (Inr (json_response 401 ''{"error":"invalid token"}''), svc)
         | Inl err \<Rightarrow> (Inl err, svc)
         | Inr payload \<Rightarrow>
             let username = turn_username (ae_wall e) (jp_userId payload) cfg
             in case turn_password (ae_ssl e) username cfg of
                  Inl err \<Rightarrow> (Inl err, svc)
                | Inr password \<Rightarrow>
                    (Inr (json_response 200 (json_dump (ae_json e)
                       (obj [(''urls'', turn_urls cfg), (''username'', JStr username),
                             (''credential'', JStr password), (''ttl'', JInt (tc_ttl cfg))]))), svc))\<close>

definition register_route :: Handler where
  \<open>register_route e req svc =
     (case json_parse (ae_json e) (rq_body req) of
        None \<Rightarrow> (Inr (json_response 400 ''{"error":"invalid json"}''), svc)
      | Some j \<Rightarrow>
          (case (member j ''userId'', member j ''password'') of
             (Some u, Some p) \<Rightarrow>
               (case (u, p) of
                  (JStr uid, JStr password) \<Rightarrow>
                    (case registerUser (auth_env.truncate e) uid password svc of
                       (Inr _, svc) \<Rightarrow> (Inr (json_response 200 ''{"ok":true}''), svc)
                     | (Inl (UserStoreError m), svc) \<Rightarrow>
                         (Inr (json_response 409 (''{"error":"'' @ m @ ''"}'')), svc)
                     | (Inl err, svc) \<Rightarrow> (Inl err, svc))
                | (JStr uid, _) \<Rightarrow> (Inl (OtherException (json_type_error (ae_json e) p)), svc)
                | _ \<Rightarrow> (Inl (OtherException (json_type_error (ae_json e) u)), svc))
           | _ \<Rightarrow> (Inr (json_response 400 ''{"error":"missing fields"}''), svc)))\<close>

section \<open>http\_server.cpp\<close>

type_synonym Routes = "(string, Handler) umap"

definition route :: "string \<Rightarrow> string \<Rightarrow> Handler \<Rightarrow> Routes \<Rightarrow> Routes" where
  "route mth path h rs = um_set (mth @ '' '' @ path) h rs"

definition registerRoutes :: "TurnConfig \<Rightarrow> Routes \<Rightarrow> Routes" where
  "registerRoutes cfg rs =
     route ''POST'' ''/api/auth/register'' register_route
       (route ''GET'' ''/api/turn/credentials'' (credentials_route cfg)
         (route ''POST'' ''/api/auth/login'' login_route rs))"

text \<open>A request as Beast hands it over; \<open>hr_upgrade\<close> is \<open>websocket::is_upgrade\<close>.\<close>

record http_request =
  hr_method :: string
  hr_target :: string
  hr_body :: string
  hr_fields :: "(string \<times> string) list"
  hr_upgrade :: bool

datatype http_action = Upgrade http_request | Respond Response

fun what :: "api_error \<Rightarrow> string" where
  "what (UserStoreError m) = m"
| "what (LoginError m) = m"
| "what (JwtExpired m) = m"
| "what (JwtInvalid m) = m"
| "what (OtherException m) = m"

definition path_of :: "string \<Rightarrow> string" where
  "path_of target = takeWhile (\<lambda>c. c \<noteq> CHR ''?'') target"

definition handle_request :: "Routes \<Rightarrow> api_env \<Rightarrow> http_request \<Rightarrow> AuthService \<Rightarrow> http_action \<times> AuthService" where
  \<open>handle_request routes e req svc =
     (if hr_upgrade req then (Upgrade req, svc)
      else
        let path = path_of (hr_target req);
            route_key = hr_method req @ '' '' @ path
        in case um_find routes route_key of
             None \<Rightarrow> (Respond (json_response 404 ''{"error":"not found"}''), svc)
           | Some h \<Rightarrow>
               let r = \<lparr>rq_method = hr_method req, rq_target = hr_target req, rq_body = hr_body req,
                        rq_headers = fold (\<lambda>(k, v). um_set k v) (hr_fields req) []\<rparr>
               in case h e r svc of
                    (Inr resp, svc) \<Rightarrow> (Respond resp, svc)
                  | (Inl err, svc) \<Rightarrow> (Respond (json_response 500 (''{"error":"'' @ what err @ ''"}'')), svc))\<close>

section \<open>Lemmas\<close>

lemma login_route_svc [simp]: "snd (login_route e req svc) = svc"
  by (auto simp: login_route_def split: option.splits json.splits sum.splits api_error.splits)

lemma credentials_route_svc [simp]: "snd (credentials_route cfg e req svc) = svc"
  by (auto simp: credentials_route_def Let_def split: sum.splits api_error.splits)

lemma registerUser_change:
  assumes "registerUser e uid pw svc = (r, svc')" "svc' \<noteq> svc"
  shows "r = Inr () \<and> um_find (user_store svc) (c_str uid) = None
     \<and> svc' = svc\<lparr>user_store := um_set (c_str uid) (hashPassword e pw) (user_store svc)\<rparr>"
  using assms by (auto simp: registerUser_def addUser_def split: sum.splits option.splits if_splits)

lemma register_route_change:
  assumes "register_route e req svc = (r, svc')" "svc' \<noteq> svc"
  obtains uid pw where "um_find (user_store svc) (c_str uid) = None"
    "svc' = svc\<lparr>user_store := um_set (c_str uid) (hashPassword (auth_env.truncate e) pw) (user_store svc)\<rparr>"
    "\<exists>resp. r = Inr resp \<and> status resp = 200"
proof -
  obtain j uid pw where "json_parse (ae_json e) (rq_body req) = Some j"
    "member j ''userId'' = Some (JStr uid)" "member j ''password'' = Some (JStr pw)"
    using assms by (auto simp: register_route_def split: option.splits json.splits)
  moreover obtain q where "registerUser (auth_env.truncate e) uid pw svc = (q, svc')"
    using assms calculation
    by (auto simp: register_route_def split: prod.splits sum.splits api_error.splits)
  moreover from this have "q = Inr ()" "um_find (user_store svc) (c_str uid) = None"
    "svc' = svc\<lparr>user_store := um_set (c_str uid) (hashPassword (auth_env.truncate e) pw) (user_store svc)\<rparr>"
    using registerUser_change [OF _ assms(2)] by auto
  ultimately show ?thesis
    using assms(1) that by (auto simp: register_route_def json_response_def)
qed

lemma find_routes:
  "um_find (registerRoutes cfg []) key =
     (if key = ''POST /api/auth/register'' then Some register_route
      else if key = ''GET /api/turn/credentials'' then Some (credentials_route cfg)
      else if key = ''POST /api/auth/login'' then Some login_route else None)"
  by (simp add: registerRoutes_def route_def)

text \<open>A request that changes the accounts is a registration that succeeded.\<close>

lemma handle_request_change:
  assumes "handle_request (registerRoutes cfg []) e req svc = (act, svc')" "svc' \<noteq> svc"
  obtains uid pw resp where "hr_method req @ '' '' @ path_of (hr_target req) = ''POST /api/auth/register''"
    "act = Respond resp" "status resp = 200" "um_find (user_store svc) (c_str uid) = None"
    "svc' = svc\<lparr>user_store := um_set (c_str uid) (hashPassword (auth_env.truncate e) pw) (user_store svc)\<rparr>"
proof -
  let ?key = "hr_method req @ '' '' @ path_of (hr_target req)"
  let ?r = "\<lparr>rq_method = hr_method req, rq_target = hr_target req, rq_body = hr_body req,
             rq_headers = fold (\<lambda>(k, v). um_set k v) (hr_fields req) []\<rparr>"
  have nu: "\<not> hr_upgrade req" using assms by (auto simp: handle_request_def)
  obtain h where h: "um_find (registerRoutes cfg []) ?key = Some h"
    using assms nu by (cases "um_find (registerRoutes cfg []) ?key") (auto simp: handle_request_def Let_def)
  have svc': "svc' = snd (h e ?r svc)"
    using assms(1) nu h by (auto simp: handle_request_def Let_def split: prod.splits sum.splits)
  then have key: "?key = ''POST /api/auth/register''" and hr: "h = register_route"
    using h assms(2) by (auto simp: find_routes split: if_splits)
  obtain q where q: "register_route e ?r svc = (q, svc')"
    using svc' hr by (metis prod.collapse)
  from q assms(2) obtain uid pw where u: "um_find (user_store svc) (c_str uid) = None"
    "svc' = svc\<lparr>user_store := um_set (c_str uid) (hashPassword (auth_env.truncate e) pw) (user_store svc)\<rparr>"
    "\<exists>resp. q = Inr resp \<and> status resp = 200"
    by (rule register_route_change)
  have "act = Respond resp" if "q = Inr resp" for resp
    using assms(1) nu h hr q that by (auto simp: handle_request_def Let_def)
  with key u that show ?thesis by auto
qed

lemma handle_request_secret:
  "jwt_secret (snd (handle_request (registerRoutes cfg []) e req svc)) = jwt_secret svc"
proof (cases "snd (handle_request (registerRoutes cfg []) e req svc) = svc")
  case False
  obtain act svc' where h: "handle_request (registerRoutes cfg []) e req svc = (act, svc')" by fastforce
  with False have "svc' \<noteq> svc" by simp
  with h have "jwt_secret svc' = jwt_secret svc" by (elim handle_request_change [of cfg e req svc act svc']) auto
  with h show ?thesis by simp
qed simp

section \<open>Properties\<close>

text \<open>
  C21. Only a successful registration changes the accounts: whatever request arrives, the
  user table changes only for a request whose method and path are those of the
  registration route, that is answered with status 200, and then exactly one user that
  did not exist is added and every existing user keeps its password.
\<close>

theorem accounts_change_only_by_registration:
  assumes "handle_request (registerRoutes cfg []) e req svc = (act, svc')" "svc' \<noteq> svc"
  shows "hr_method req @ '' '' @ path_of (hr_target req) = ''POST /api/auth/register''
     \<and> (\<exists>resp. act = Respond resp \<and> status resp = 200)
     \<and> (\<exists>uid h. um_find (user_store svc) uid = None
          \<and> svc' = svc\<lparr>user_store := um_set uid h (user_store svc)\<rparr>
          \<and> (\<forall>other. other \<noteq> uid \<longrightarrow> um_find (user_store svc') other = um_find (user_store svc) other))"
proof -
  from assms obtain uid pw resp where "hr_method req @ '' '' @ path_of (hr_target req) = ''POST /api/auth/register''"
    "act = Respond resp" "status resp = 200" "um_find (user_store svc) (c_str uid) = None"
    "svc' = svc\<lparr>user_store := um_set (c_str uid) (hashPassword (auth_env.truncate e) pw) (user_store svc)\<rparr>"
    by (rule handle_request_change)
  then show ?thesis by auto
qed

definition demo_json :: json_lib where
  "demo_json = \<lparr>json_parse = (\<lambda>s. Some (obj [(''userId'', JStr s), (''password'', JStr ''pw'')])),
                json_dump = (\<lambda>j. []), json_type_error = (\<lambda>j. [])\<rparr>"

definition demo_api_env :: api_env where
  "demo_api_env = auth_env.extend demo_auth_env \<lparr>ae_json = demo_json\<rparr>"

definition demo_register :: http_request where
  "demo_register = \<lparr>hr_method = ''POST'', hr_target = ''/api/auth/register?x'', hr_body = ''ann'', hr_fields = [], hr_upgrade = False\<rparr>"

theorem accounts_change_only_by_registration_witness:
  "snd (handle_request (registerRoutes \<lparr>tc_host = ''h'', tc_port_plain = 1, tc_port_tls = 2, tc_shared_secret = ''s'', tc_ttl = 5\<rparr> [])
      demo_api_env demo_register demo_svc) \<noteq> demo_svc
   \<and> (\<exists>resp. fst (handle_request (registerRoutes \<lparr>tc_host = ''h'', tc_port_plain = 1, tc_port_tls = 2, tc_shared_secret = ''s'', tc_ttl = 5\<rparr> [])
      demo_api_env demo_register demo_svc) = Respond resp \<and> status resp = 200)"
proof -
  let ?cfg = "\<lparr>tc_host = ''h'', tc_port_plain = 1, tc_port_tls = 2, tc_shared_secret = ''s'', tc_ttl = 5\<rparr>"
  let ?run = "handle_request (registerRoutes ?cfg []) demo_api_env demo_register demo_svc"
  have "snd ?run \<noteq> demo_svc"
    by (simp add: handle_request_def demo_register_def find_routes path_of_def Let_def register_route_def
        demo_api_env_def demo_json_def demo_auth_env_def auth_env.defs registerUser_def addUser_def findUser_def demo_svc_def)
  then show ?thesis
    using accounts_change_only_by_registration [of ?cfg demo_api_env demo_register demo_svc "fst ?run" "snd ?run"] by simp
qed

text \<open>
  C22. TURN credentials are given only to the bearer of a valid token, and for that
  bearer's own id: a response with status 200 carries the user name and password derived
  from the user id of the verified token; every other case is answered with 401.
\<close>

theorem credentials_need_valid_token:
  assumes "openssl_ok (ae_ssl e)"
  shows "\<exists>resp. credentials_route cfg e req svc = (Inr resp, svc)
     \<and> (case (if extractBearer req = [] then None
              else case verifyToken (auth_env.truncate e) (extractBearer req) svc of Inr p \<Rightarrow> Some p | Inl _ \<Rightarrow> None) of
          None \<Rightarrow> status resp = 401
        | Some payload \<Rightarrow> status resp = 200
            \<and> (\<exists>password. turn_password (ae_ssl e) (turn_username (ae_wall e) (jp_userId payload) cfg) cfg = Inr password
               \<and> body resp = json_dump (ae_json e)
                   (obj [(''urls'', turn_urls cfg), (''username'', JStr (turn_username (ae_wall e) (jp_userId payload) cfg)),
                         (''credential'', JStr password), (''ttl'', JInt (tc_ttl cfg))])))"
proof -
  have pw: "\<exists>p. turn_password (ae_ssl e) u cfg = Inr p" for u
    using hmac_sha1_str_ok [OF assms, of "tc_shared_secret cfg" u] by (auto simp: turn_password_def)
  have jv: "verifyToken (auth_env.truncate e) t svc = Inl err \<Longrightarrow> (\<exists>m. err = JwtExpired m \<or> err = JwtInvalid m)" for t err
    by (auto simp: verifyToken_def Jwt_verify_def split: jwt_result.splits if_splits)
  show ?thesis
  proof (cases "verifyToken (auth_env.truncate e) (extractBearer req) svc")
    case (Inl err)
    with jv [OF Inl] show ?thesis by (auto simp: credentials_route_def Let_def json_response_def)
  next
    case (Inr payload)
    obtain p where "turn_password (ae_ssl e) (turn_username (ae_wall e) (jp_userId payload) cfg) cfg = Inr p"
      using pw by blast
    with Inr show ?thesis by (auto simp: credentials_route_def Let_def json_response_def)
  qed
qed

theorem credentials_need_valid_token_witness:
  "\<exists>resp. credentials_route \<lparr>tc_host = ''h'', tc_port_plain = 1, tc_port_tls = 2, tc_shared_secret = ''s'', tc_ttl = 5\<rparr>
     demo_api_env \<lparr>rq_method = ''GET'', rq_target = [], rq_body = [], rq_headers = []\<rparr> demo_svc = (Inr resp, demo_svc)
     \<and> status resp = 401"
proof -
  have "openssl_ok (ae_ssl demo_api_env)" by (simp add: demo_api_env_def auth_env.defs demo_auth_env_def)
  from credentials_need_valid_token [OF this, of "\<lparr>tc_host = ''h'', tc_port_plain = 1, tc_port_tls = 2,
      tc_shared_secret = ''s'', tc_ttl = 5\<rparr>" "\<lparr>rq_method = ''GET'', rq_target = [], rq_body = [], rq_headers = []\<rparr>" demo_svc]
  show ?thesis by (simp add: extractBearer_def)
qed

end
