(* ===== verification/Backend.thy ===== *)
theory Backend
  imports Ws_Server Http_Api Config
begin

text \<open>
  \<open>backend/main.cpp\<close> and the sessions of \<open>backend/signaling/ws_server.cpp\<close>: the signalling
  server as one state that reacts to events. An event is a request on an HTTPS connection,
  a message on a web socket, the failure of a read or of a write, the completion of a
  write, or the expiry timer. The thread pool runs handlers in parallel; those that change
  shared state hold a mutex while they do, and the model runs them one at a time. \<open>None\<close> is
  an exception that leaves a completion handler and with it \<open>io_context::run\<close>.
\<close>

section \<open>Construction\<close>

text \<open>A web socket session; \<open>wss_reading\<close> tells whether its chain of reads still runs.\<close>

record WsSession =
  wss_userId :: string
  wss_reading :: bool

text \<open>
  \<open>be_sessions\<close> holds every session object, by number; \<open>be_writing\<close> the writes that have
  been started and not completed.
\<close>

record Backend =
  be_auth :: AuthService
  be_calls :: CallManager
  be_turn :: TurnConfig
  be_routes :: Routes
  be_ws :: WsServer
  be_sessions :: "(session_id, WsSession) umap"
  be_next :: session_id
  be_writing :: "session_id list"

definition turn_config :: "config \<Rightarrow> TurnConfig" where
  "turn_config cfg =
     \<lparr>tc_host = cfg_get ''TURN_HOST'' ''localhost'' cfg,
      tc_port_plain = word_of_int (getInt ''TURN_PORT_PLAIN'' 3478 cfg),
      tc_port_tls = word_of_int (getInt ''TURN_PORT_TLS'' 5349 cfg),
      tc_shared_secret = cfg_get ''TURN_SECRET'' ''turn_shared_secret'' cfg,
      tc_ttl = getInt ''TURN_TTL'' 3600 cfg\<rparr>"

text \<open>\<open>db\<close> is the content of the user table in the database file.\<close>

definition mk_backend :: "config \<Rightarrow> user_db \<Rightarrow> Backend" where
  "mk_backend cfg db =
     \<lparr>be_auth = \<lparr>jwt_secret = cfg_get ''JWT_SECRET'' ''change_me_in_production'' cfg,
                 token_ttl = getInt ''JWT_TTL'' 86400 cfg, user_store = db\<rparr>,
      be_calls = mk_call_manager 30,
      be_turn = turn_config cfg,
      be_routes = registerRoutes (turn_config cfg) [],
      be_ws = mk_ws_server, be_sessions = [], be_next = 0, be_writing = []\<rparr>"

section \<open>Handlers\<close>

text \<open>What a handler finds around it: the libraries, the clocks and the random draws.\<close>

record backend_env = api_env +
  be_a :: u64
  be_b :: u64
  be_now :: time_point

definition rtc_config_gen :: "backend_env \<Rightarrow> TurnConfig \<Rightarrow> string \<Rightarrow> string option" where
  "rtc_config_gen e cfg user =
     (case generateRtcConfig (ae_ssl e) (ae_json e) (ae_wall e) user cfg of Inr config \<Rightarrow> Some config | Inl err \<Rightarrow> None)"

definition be_router_env :: "backend_env \<Rightarrow> TurnConfig \<Rightarrow> router_env" where
  "be_router_env e cfg =
     \<lparr>re_json = ae_json e, re_gen = rtc_config_gen e cfg, re_a = be_a e, re_b = be_b e, re_now = be_now e\<rparr>"

datatype backend_out = Answer Response | Dropped | WriteStarted session_id string

text \<open>The router's messages, each handed to \<open>async_write\<close> of the session registered for its user.\<close>

definition do_sends :: "sends \<Rightarrow> Backend \<Rightarrow> backend_out list \<times> Backend" where
  "do_sends outs be =
     (let ds = deliver outs (be_ws be)
      in (map (\<lambda>(sid, m). WriteStarted sid m) ds, be\<lparr>be_writing := be_writing be @ map fst ds\<rparr>))"

definition be_request :: "backend_env \<Rightarrow> http_request \<Rightarrow> Backend \<Rightarrow> backend_out list \<times> Backend" where
  "be_request e req be =
     (case handle_request (be_routes be) (api_env.truncate e) req (be_auth be) of
        (Respond resp, svc) \<Rightarrow> ([Answer resp], be\<lparr>be_auth := svc\<rparr>)
      | (Upgrade req, svc) \<Rightarrow>
          (case ws_accept (auth_env.truncate e) (be_next be) (hr_target req) svc (be_ws be) of
             (None, ws) \<Rightarrow> ([Dropped], be\<lparr>be_auth := svc, be_ws := ws\<rparr>)
           | (Some user, ws) \<Rightarrow>
               ([], be\<lparr>be_auth := svc, be_ws := ws,
                       be_sessions := um_set (be_next be) \<lparr>wss_userId = user, wss_reading = True\<rparr> (be_sessions be),
                       be_next := Suc (be_next be)\<rparr>)))"

definition be_message :: "backend_env \<Rightarrow> session_id \<Rightarrow> string \<Rightarrow> Backend \<Rightarrow> (backend_out list \<times> Backend) option" where
  "be_message e sid msg be =
     (case um_find (be_sessions be) sid of
        None \<Rightarrow> Some ([], be)
      | Some s \<Rightarrow>
          if \<not> wss_reading s then Some ([], be)
          else case handle (be_router_env e (be_turn be)) (wss_userId s) msg (be_calls be) of
            None \<Rightarrow> None
          | Some (outs, cm) \<Rightarrow> Some (do_sends outs (be\<lparr>be_calls := cm\<rparr>)))"

text \<open>The accept or a read of a session failed: its close callback runs and it reads no more.\<close>

definition be_read_failed :: "session_id \<Rightarrow> Backend \<Rightarrow> Backend" where
  "be_read_failed sid be =
     (case um_find (be_sessions be) sid of
        None \<Rightarrow> be
      | Some s \<Rightarrow>
          if \<not> wss_reading s then be
          else be\<lparr>be_ws := removeSession (wss_userId s) (be_ws be),
                  be_sessions := um_set sid (s\<lparr>wss_reading := False\<rparr>) (be_sessions be)\<rparr>)"

text \<open>A write of a session is completed, with or without an error.\<close>

definition be_write_done :: "session_id \<Rightarrow> bool \<Rightarrow> Backend \<Rightarrow> Backend" where
  "be_write_done sid ec be =
     (case um_find (be_sessions be) sid of
        None \<Rightarrow> be
      | Some s \<Rightarrow>
          if sid \<notin> set (be_writing be) then be
          else let be = be\<lparr>be_writing := remove1 sid (be_writing be)\<rparr>
               in if ec then be\<lparr>be_ws := removeSession (wss_userId s) (be_ws be)\<rparr> else be)"

definition be_timer :: "backend_env \<Rightarrow> Backend \<Rightarrow> backend_out list \<times> Backend" where
  "be_timer e be =
     (case checkExpired (be_router_env e (be_turn be)) (be_calls be) of
        (outs, cm) \<Rightarrow> do_sends outs (be\<lparr>be_calls := cm\<rparr>))"

datatype backend_event =
    HttpIn backend_env http_request
  | WsIn backend_env session_id string
  | ReadFailed session_id
  | WriteDone session_id bool
  | Timer backend_env

fun backend_step :: "backend_event \<Rightarrow> Backend \<Rightarrow> (backend_out list \<times> Backend) option" where
  "backend_step (HttpIn e req) be = Some (be_request e req be)"
| "backend_step (WsIn e sid msg) be = be_message e sid msg be"
| "backend_step (ReadFailed sid) be = Some ([], be_read_failed sid be)"
| "backend_step (WriteDone sid ec) be = Some ([], be_write_done sid ec be)"
| "backend_step (Timer e) be = Some (be_timer e be)"

text \<open>The state after an event; the process that an exception has ended does nothing more.\<close>

definition backend_next :: "backend_event \<Rightarrow> Backend \<Rightarrow> Backend" where
  "backend_next ev be = (case backend_step ev be of None \<Rightarrow> be | Some (outs, be') \<Rightarrow> be')"

section \<open>Invariant\<close>

text \<open>
  The call table is consistent; a user is registered with a session that was opened for
  this user and still reads; every session belongs to a user of \<open>V\<close>.
\<close>

definition be_inv :: "string \<Rightarrow> TurnConfig \<Rightarrow> (string \<Rightarrow> bool) \<Rightarrow> Backend \<Rightarrow> bool" where
  "be_inv secret cfg V be \<longleftrightarrow>
     jwt_secret (be_auth be) = secret \<and> be_turn be = cfg \<and> be_routes be = registerRoutes cfg [] \<and> cm_inv (be_calls be)
   \<and> (\<forall>user sid. um_find (ws_sessions (be_ws be)) user = Some sid \<longrightarrow>
        um_find (be_sessions be) sid = Some \<lparr>wss_userId = user, wss_reading = True\<rparr>)
   \<and> (\<forall>sid s. um_find (be_sessions be) sid = Some s \<longrightarrow> sid < be_next be \<and> V (wss_userId s))"

text \<open>
  \<open>V\<close> holds of the users whose token was in an upgrade request that verified, and the RTC
  configurations the backend generates are JSON objects.
\<close>

fun backend_event_ok :: "string \<Rightarrow> TurnConfig \<Rightarrow> (string \<Rightarrow> bool) \<Rightarrow> backend_event \<Rightarrow> bool" where
  "backend_event_ok secret cfg V (HttpIn e req) \<longleftrightarrow>
     (\<forall>p. hr_upgrade req \<longrightarrow> Jwt_verify (auth_env.truncate e) secret (extractToken (hr_target req)) = Inr p \<longrightarrow> V (jp_userId p))"
| "backend_event_ok secret cfg V (WsIn e sid msg) \<longleftrightarrow> gen_ok (be_router_env e cfg)"
| "backend_event_ok secret cfg V (ReadFailed sid) \<longleftrightarrow> True"
| "backend_event_ok secret cfg V (WriteDone sid ec) \<longleftrightarrow> True"
| "backend_event_ok secret cfg V (Timer e) \<longleftrightarrow> True"

lemma be_request_inv:
  assumes inv: "be_inv secret cfg V be" and ok: "backend_event_ok secret cfg V (HttpIn e req)"
  shows "be_inv secret cfg V (snd (be_request e req be))"
proof (cases "hr_upgrade req")
  case False
  have sec: "jwt_secret (snd (handle_request (be_routes be) (api_env.truncate e) req (be_auth be))) = secret"
    using handle_request_secret inv by (simp add: be_inv_def)
  obtain act svc where h: "handle_request (be_routes be) (api_env.truncate e) req (be_auth be) = (act, svc)"
    by (cases "handle_request (be_routes be) (api_env.truncate e) req (be_auth be)")
  moreover from h False obtain resp where "act = Respond resp"
    by (auto simp: handle_request_def Let_def split: option.splits prod.splits sum.splits)
  ultimately show ?thesis using inv sec by (simp add: be_request_def be_inv_def)
next
  case True
  then have h: "handle_request (be_routes be) (api_env.truncate e) req (be_auth be) = (Upgrade req, be_auth be)"
    by (simp add: handle_request_def)
  show ?thesis
  proof (cases rule: ws_accept_cases [of "auth_env.truncate e" "be_next be" "hr_target req" "be_auth be" "be_ws be"])
    case refused
    then show ?thesis using inv h by (simp add: be_request_def)
  next
    case (accepted payload)
    have "V (jp_userId payload)" using ok True accepted(2) inv by (auto simp: verifyToken_def be_inv_def)
    moreover have "um_find (ws_sessions (be_ws be)) user = Some sid \<Longrightarrow> sid \<noteq> be_next be" for user sid
      using inv by (fastforce simp: be_inv_def)
    ultimately show ?thesis using inv h accepted(3) by (auto simp: be_request_def be_inv_def less_SucI)
  qed
qed

lemma do_sends_fields [simp]:
  "snd (do_sends outs be) = be\<lparr>be_writing := be_writing be @ map fst (deliver outs (be_ws be))\<rparr>"
  by (simp add: do_sends_def Let_def)

lemma be_inv_writing [simp]: "be_inv secret cfg V (be\<lparr>be_writing := w\<rparr>) = be_inv secret cfg V be"
  by (simp add: be_inv_def)

lemma be_inv_calls: "be_inv secret cfg V be \<Longrightarrow> cm_inv cm \<Longrightarrow> be_inv secret cfg V (be\<lparr>be_calls := cm\<rparr>)"
  by (simp add: be_inv_def)

lemma be_message_inv:
  assumes inv: "be_inv secret cfg V be" and gen: "gen_ok (be_router_env e cfg)"
  obtains outs be' where "be_message e sid msg be = Some (outs, be')" "be_inv secret cfg V be'"
proof (cases "\<exists>s. um_find (be_sessions be) sid = Some s \<and> wss_reading s")
  case True
  then obtain s where s: "um_find (be_sessions be) sid = Some s" "wss_reading s" by blast
  have cm: "cm_inv (be_calls be)" and t: "be_turn be = cfg" using inv by (simp_all add: be_inv_def)
  obtain outs cm' where h: "handle (be_router_env e (be_turn be)) (wss_userId s) msg (be_calls be) = Some (outs, cm')" "cm_inv cm'"
    using handle_inv [OF cm gen] t by blast
  then have "be_inv secret cfg V (snd (do_sends outs (be\<lparr>be_calls := cm'\<rparr>)))" using be_inv_calls [OF inv] by simp
  with that h(1) s show ?thesis
    by (cases "do_sends outs (be\<lparr>be_calls := cm'\<rparr>)") (simp add: be_message_def)
next
  case False
  then show ?thesis using inv that [of "[]" be] by (auto simp: be_message_def split: option.splits)
qed

lemma removeSession_inv:
  assumes "be_inv secret cfg V be"
  shows "be_inv secret cfg V (be\<lparr>be_ws := removeSession user (be_ws be)\<rparr>)"
  using assms by (auto simp: be_inv_def removeSession_def split: if_splits)

lemma be_read_failed_inv: "be_inv secret cfg V be \<Longrightarrow> be_inv secret cfg V (be_read_failed sid be)"
  by (auto simp: be_read_failed_def be_inv_def removeSession_def split: option.splits if_splits)

lemma be_write_done_inv: "be_inv secret cfg V be \<Longrightarrow> be_inv secret cfg V (be_write_done sid ec be)"
  using removeSession_inv [of secret cfg V "be\<lparr>be_writing := remove1 sid (be_writing be)\<rparr>"]
  by (auto simp: be_write_done_def Let_def split: option.splits)

lemma be_timer_inv:
  assumes "be_inv secret cfg V be"
  shows "be_inv secret cfg V (snd (be_timer e be))"
proof -
  obtain outs cm where c: "checkExpired (be_router_env e (be_turn be)) (be_calls be) = (outs, cm)"
    by (cases "checkExpired (be_router_env e (be_turn be)) (be_calls be)")
  then have "cm_inv cm"
    using assms expireRinging_inv [of "be_calls be" "be_now e"]
    by (auto simp: checkExpired_def be_inv_def be_router_env_def split: prod.splits)
  with c be_inv_calls [OF assms] show ?thesis by (simp add: be_timer_def)
qed

lemma backend_step_inv:
  assumes "be_inv secret cfg V be" "backend_event_ok secret cfg V ev"
  obtains outs be' where "backend_step ev be = Some (outs, be')" "be_inv secret cfg V be'"
proof (cases ev)
  case (HttpIn e req)
  with assms be_request_inv [of secret cfg V be e req] that show ?thesis by (cases "be_request e req be") simp
next
  case (WsIn e sid msg)
  with assms(2) be_message_inv [OF assms(1), of e sid msg] that show ?thesis by auto
next
  case (ReadFailed sid)
  with assms(1) be_read_failed_inv that show ?thesis by simp
next
  case (WriteDone sid ec)
  with assms(1) be_write_done_inv that show ?thesis by simp
next
  case (Timer e)
  with be_timer_inv [OF assms(1), of e] that show ?thesis by (cases "be_timer e be") simp
qed

interpretation backend: invariant_machine backend_next "backend_event_ok secret cfg V" "be_inv secret cfg V"
  for secret cfg V
  by unfold_locales (auto simp: backend_next_def elim: backend_step_inv)

lemma mk_backend_inv:
  "be_inv (cfg_get ''JWT_SECRET'' ''change_me_in_production'' cfg) (turn_config cfg) V (mk_backend cfg db)"
  using mk_call_manager_inv by (simp add: be_inv_def mk_backend_def mk_ws_server_def)

section \<open>Messages and their receivers\<close>

text \<open>What the router writes at an event, by user.\<close>

fun routed :: "backend_event \<Rightarrow> Backend \<Rightarrow> sends" where
  "routed (WsIn e sid msg) be =
     (case um_find (be_sessions be) sid of
        None \<Rightarrow> []
      | Some s \<Rightarrow>
          if \<not> wss_reading s then []
          else case handle (be_router_env e (be_turn be)) (wss_userId s) msg (be_calls be) of None \<Rightarrow> [] | Some (outs, cm) \<Rightarrow> outs)"
| "routed (Timer e) be = fst (checkExpired (be_router_env e (be_turn be)) (be_calls be))"
| "routed _ be = []"

lemma deliver_set: "(sid, m) \<in> set (deliver outs ws) \<Longrightarrow> \<exists>user. (user, m) \<in> set outs \<and> um_find (ws_sessions ws) user = Some sid"
  by (auto simp: deliver_def ws_send_def split: option.splits)

lemma do_sends_writes:
  assumes "do_sends ms (be\<lparr>be_calls := cm\<rparr>) = (outs, be')" "WriteStarted sid m \<in> set outs"
  shows "\<exists>user. (user, m) \<in> set ms \<and> um_find (ws_sessions (be_ws be)) user = Some sid
     \<and> be_ws be' = be_ws be \<and> be_sessions be' = be_sessions be"
proof -
  have "(sid, m) \<in> set (deliver ms (be_ws be))" "be_ws be' = be_ws be" "be_sessions be' = be_sessions be"
    using assms by (auto simp: do_sends_def Let_def)
  with deliver_set show ?thesis by blast
qed

lemma be_request_writes_nothing: "WriteStarted sid m \<notin> set (fst (be_request e req be))"
  by (auto simp: be_request_def split: prod.splits http_action.splits option.splits)

lemma step_writes_routed:
  assumes "backend_step ev be = Some (outs, be')" "WriteStarted sid m \<in> set outs"
  shows "\<exists>user. (user, m) \<in> set (routed ev be) \<and> um_find (ws_sessions (be_ws be)) user = Some sid \<and> be_ws be' = be_ws be \<and> be_sessions be' = be_sessions be"
proof (cases ev)
  case (HttpIn e req)
  then have "outs = fst (be_request e req be)" using assms(1) by simp
  with assms(2) be_request_writes_nothing show ?thesis by auto
next
  case (WsIn e sd msg)
  then obtain s ms cm where s: "um_find (be_sessions be) sd = Some s" "wss_reading s"
      "handle (be_router_env e (be_turn be)) (wss_userId s) msg (be_calls be) = Some (ms, cm)"
      "do_sends ms (be\<lparr>be_calls := cm\<rparr>) = (outs, be')"
    using assms by (auto simp: be_message_def split: option.splits if_splits)
  with do_sends_writes [OF s(4) assms(2)] WsIn show ?thesis by simp
next
  case (Timer e)
  obtain ms cm where c: "checkExpired (be_router_env e (be_turn be)) (be_calls be) = (ms, cm)"
    by (cases "checkExpired (be_router_env e (be_turn be)) (be_calls be)")
  then have d: "do_sends ms (be\<lparr>be_calls := cm\<rparr>) = (outs, be')" using assms(1) Timer by (simp add: be_timer_def)
  with do_sends_writes [OF d assms(2)] c Timer show ?thesis by simp
qed (use assms in auto)

text \<open>The users for whom an upgrade request carried a token that verified.\<close>

fun opens_session_for :: "string \<Rightarrow> string \<Rightarrow> backend_event \<Rightarrow> bool" where
  "opens_session_for secret user (HttpIn e req) =
     (hr_upgrade req \<and> (case Jwt_verify (auth_env.truncate e) secret (extractToken (hr_target req)) of
                          Inl err \<Rightarrow> False | Inr p \<Rightarrow> jp_userId p = user))"
| "opens_session_for secret user _ = False"

fun generates_configs :: "TurnConfig \<Rightarrow> backend_event \<Rightarrow> bool" where
  "generates_configs cfg (WsIn e sid msg) = gen_ok (be_router_env e cfg)"
| "generates_configs cfg _ = True"

lemma run_inv_verified:
  fixes cfg defines "secret \<equiv> cfg_get ''JWT_SECRET'' ''change_me_in_production'' cfg"
  assumes "list_all (generates_configs (turn_config cfg)) evs"
  shows "be_inv secret (turn_config cfg) (\<lambda>user. list_ex (opens_session_for secret user) evs) (fold backend_next evs (mk_backend cfg db))"
proof (rule backend.run_inv)
  show "be_inv secret (turn_config cfg) (\<lambda>user. list_ex (opens_session_for secret user) evs) (mk_backend cfg db)"
    unfolding secret_def by (rule mk_backend_inv)
  have "backend_event_ok secret (turn_config cfg) (\<lambda>user. list_ex (opens_session_for secret user) evs) ev" if "ev \<in> set evs" for ev
  proof (cases ev)
    case (HttpIn e req)
    with that show ?thesis by (force simp: list_ex_iff)
  next
    case (WsIn e sid msg)
    with that assms(2) show ?thesis by (auto simp: list_all_iff)
  qed simp_all
  then show "list_all (backend_event_ok secret (turn_config cfg) (\<lambda>user. list_ex (opens_session_for secret user) evs)) evs"
    by (simp add: list_all_iff)
qed

section \<open>Properties\<close>

text \<open>
  C24. The signalling server keeps working and talks only to authenticated users: after any
  sequence of events, every further event is processed without an escaping exception and no
  user is in two calls; and what is written to a web socket is a message the router has
  addressed to a user for whom an upgrade request with a verified token opened that socket.
\<close>

theorem backend_safe:
  fixes cfg defines "secret \<equiv> cfg_get ''JWT_SECRET'' ''change_me_in_production'' cfg"
  assumes "list_all (generates_configs (turn_config cfg)) (ev # evs)"
  shows "\<exists>outs be'. backend_step ev (fold backend_next evs (mk_backend cfg db)) = Some (outs, be')
     \<and> (\<forall>k k' s s' u. find_call k (be_calls be') = Some s \<longrightarrow> find_call k' (be_calls be') = Some s' \<longrightarrow>
          in_call u s \<longrightarrow> in_call u s' \<longrightarrow> k = k')
     \<and> (\<forall>sid m. WriteStarted sid m \<in> set outs \<longrightarrow>
          (\<exists>user. (user, m) \<in> set (routed ev (fold backend_next evs (mk_backend cfg db)))
             \<and> um_find (be_sessions be') sid = Some \<lparr>wss_userId = user, wss_reading = True\<rparr>
             \<and> list_ex (opens_session_for secret user) evs))"
proof -
  let ?be = "fold backend_next evs (mk_backend cfg db)" and ?cfg = "turn_config cfg"
  have inv: "be_inv secret ?cfg (\<lambda>user. list_ex (opens_session_for secret user) evs) ?be"
    using run_inv_verified assms(2) unfolding secret_def by simp
  have "backend_event_ok secret ?cfg (\<lambda>user. True) ev" using assms(2) by (cases ev) auto
  moreover have "be_inv secret ?cfg (\<lambda>user. True) ?be" using inv by (simp add: be_inv_def)
  ultimately obtain outs be' where s: "backend_step ev ?be = Some (outs, be')" and inv': "be_inv secret ?cfg (\<lambda>user. True) be'"
    by (metis backend_step_inv)
  have "\<exists>user. (user, m) \<in> set (routed ev ?be) \<and> um_find (be_sessions be') sid = Some \<lparr>wss_userId = user, wss_reading = True\<rparr>
      \<and> list_ex (opens_session_for secret user) evs" if w: "WriteStarted sid m \<in> set outs" for sid m
    using step_writes_routed [OF s w] inv by (fastforce simp: be_inv_def)
  with s inv' show ?thesis unfolding be_inv_def cm_inv_def find_call_def by blast
qed

definition demo_backend_env :: backend_env where
  "demo_backend_env = api_env.extend demo_api_env \<lparr>be_a = 1, be_b = 2, be_now = 0\<rparr>"

definition demo_upgrade :: http_request where
  "demo_upgrade = \<lparr>hr_method = ''GET'', hr_target = ws_target demo_ws_token, hr_body = [], hr_fields = [], hr_upgrade = True\<rparr>"

lemma demo_backend_gen_ok: "gen_ok (be_router_env demo_backend_env cfg)"
proof -
  have "\<exists>config. rtc_config_gen demo_backend_env cfg user = Some config" for user
    using hmac_sha1_str_ok [OF demo_openssl_ok, of "tc_shared_secret cfg" "turn_username 100 user cfg"]
    by (auto simp: rtc_config_gen_def generateRtcConfig_def turn_password_def Let_def demo_backend_env_def demo_api_env_def
        demo_auth_env_def auth_env.defs api_env.defs)
  then show ?thesis
    by (simp add: gen_ok_def be_router_env_def demo_backend_env_def demo_api_env_def demo_json_def obj_def auth_env.defs api_env.defs)
qed

theorem backend_safe_witness:
  "\<exists>outs be'. backend_step (WsIn demo_backend_env 0 ''x'')
      (fold backend_next [HttpIn demo_backend_env demo_upgrade] (mk_backend (\<lambda>_. None) [])) = Some (outs, be')"
  using backend_safe [of "\<lambda>_. None" "WsIn demo_backend_env 0 ''x''" "[HttpIn demo_backend_env demo_upgrade]" "[]"]
    demo_backend_gen_ok by auto

section \<open>Lost connections\<close>

text \<open>Events that do not hang up the call, and draw no second id equal to the call's.\<close>

fun spares_call :: "string \<Rightarrow> backend_event \<Rightarrow> bool" where
  "spares_call call (WsIn e sid msg) \<longleftrightarrow> \<not> asks_hangup (ae_json e) call msg \<and> generateUuid (be_a e) (be_b e) \<noteq> call"
| "spares_call call _ \<longleftrightarrow> True"

text \<open>An active call stays in the table, whatever else happens to its parties.\<close>

lemma backend_keeps_active:
  assumes inv: "be_inv secret cfg V be" and c: "find_call call (be_calls be) = Some s" "call_state s = Active"
    and ok: "backend_event_ok secret cfg V ev" "spares_call call ev"
  shows "find_call call (be_calls (backend_next ev be)) = Some s"
proof (cases ev)
  case (HttpIn e req)
  have "be_calls (snd (be_request e req be)) = be_calls be"
    by (auto simp: be_request_def split: prod.splits http_action.splits option.splits)
  with c HttpIn show ?thesis by (cases "be_request e req be") (simp add: backend_next_def)
next
  case (WsIn e sid msg)
  show ?thesis
  proof (cases "\<exists>x. um_find (be_sessions be) sid = Some x \<and> wss_reading x")
    case True
    then obtain x where x: "um_find (be_sessions be) sid = Some x" "wss_reading x" by blast
    obtain outs cm where h: "handle (be_router_env e (be_turn be)) (wss_userId x) msg (be_calls be) = Some (outs, cm)"
      using inv ok(1) WsIn handle_inv [of "be_calls be"] by (fastforce simp: be_inv_def)
    then have "find_call call cm = Some s"
      by (rule handle_keeps_active [OF _ c]) (use ok(2) WsIn in \<open>simp_all add: be_router_env_def\<close>)
    with h x WsIn show ?thesis by (simp add: backend_next_def be_message_def do_sends_def Let_def)
  next
    case False
    with c WsIn show ?thesis by (auto simp: backend_next_def be_message_def split: option.splits)
  qed
next
  case (ReadFailed sid)
  with c show ?thesis by (simp add: backend_next_def be_read_failed_def split: option.splits)
next
  case (WriteDone sid ec)
  with c show ?thesis by (simp add: backend_next_def be_write_done_def Let_def split: option.splits)
next
  case (Timer e)
  have "find_call call (snd (expireRinging (be_now e) (be_calls be))) = Some s"
    using find_expireRinging [of "be_calls be" call "be_now e"] inv c by (simp add: be_inv_def)
  with Timer show ?thesis
    by (cases "expireRinging (be_now e) (be_calls be)")
      (simp add: backend_next_def be_timer_def do_sends_def Let_def checkExpired_def be_router_env_def)
qed

lemma run_keeps_active:
  assumes "be_inv secret cfg V be" "find_call call (be_calls be) = Some s" "call_state s = Active"
    "list_all (backend_event_ok secret cfg V) evs" "list_all (spares_call call) evs"
  shows "find_call call (be_calls (fold backend_next evs be)) = Some s"
  using assms
proof (induction evs arbitrary: be)
  case (Cons ev evs)
  then show ?case using backend_keeps_active [of secret cfg V be call s ev] backend.step_inv [of secret cfg V be ev] by simp
qed simp

text \<open>
  C37. A lost connection locks its user out: when the connections of an active call break
  down, the call stays in the table, because a closed session tells the call manager
  nothing and the timer ends ringing calls only. Whatever happens then, as long as nobody
  hangs up this very call, its parties count as busy, and every attempt of one of them to
  start a call is answered with an error.
\<close>

theorem lost_connection_blocks_user:
  assumes "be_inv secret cfg V be" "find_call call (be_calls be) = Some s" "call_state s = Active" "in_call user s"
    and "list_all (backend_event_ok secret cfg V) evs" "list_all (spares_call call) evs"
    and "be' = fold backend_next (map ReadFailed sids @ evs) be"
  shows "isBusy user (be_calls be')
     \<and> (\<forall>e sid raw to_user. um_find (be_sessions be') sid = Some \<lparr>wss_userId = user, wss_reading = True\<rparr> \<longrightarrow>
          json_parse (ae_json e) raw = Some (obj [(''type'', JStr ''call.create''), (''to'', JStr to_user)]) \<longrightarrow>
          be_message e sid raw be' = Some (do_sends [(user, json_dump (ae_json e)
             (obj [(''type'', JStr ''error''), (''message'', JStr ''caller is busy'')]))] be'))"
proof -
  have ok: "list_all (backend_event_ok secret cfg V) (map ReadFailed sids @ evs)" "list_all (spares_call call) (map ReadFailed sids @ evs)"
    using assms(5,6) by (auto simp: list_all_iff)
  have "cm_inv (be_calls be')" using backend.run_inv [OF assms(1) ok(1)] assms(7) by (simp add: be_inv_def)
  moreover have "find_call call (be_calls be') = Some s" using run_keeps_active [OF assms(1-3) ok] assms(7) by simp
  ultimately have busy: "isBusy user (be_calls be')" using assms(4) by (auto simp: isBusy_iff find_call_def)
  then show ?thesis
    by (simp add: be_message_def handle_def be_router_env_def onCallCreate_def create_def sendError_def sendJson_def)
qed

definition demo_active :: CallSession where
  "demo_active = \<lparr>callId = ''c'', callerId = ''ann'', calleeId = ''bob'', call_state = Active, createdAt = 0\<rparr>"

definition demo_backend :: Backend where
  "demo_backend = (mk_backend (\<lambda>_. None) [])\<lparr>be_calls := (mk_call_manager 30)\<lparr>calls := [(''c'', demo_active)]\<rparr>,
     be_ws := \<lparr>ws_sessions = [(''ann'', 0), (''bob'', 1)]\<rparr>,
     be_sessions := [(0, \<lparr>wss_userId = ''ann'', wss_reading = True\<rparr>), (1, \<lparr>wss_userId = ''bob'', wss_reading = True\<rparr>)],
     be_next := 2\<rparr>"

lemma demo_backend_inv:
  "be_inv ''change_me_in_production'' (turn_config (\<lambda>_. None)) (\<lambda>_. True) demo_backend"
  by (auto simp: be_inv_def demo_backend_def mk_backend_def cfg_get_def cm_inv_def demo_active_def in_call_def split: if_splits)

theorem lost_connection_blocks_user_witness:
  "isBusy ''ann'' (be_calls (fold backend_next ([ReadFailed 0, ReadFailed 1] @ [HttpIn demo_backend_env demo_upgrade, Timer demo_backend_env]) demo_backend))"
  using lost_connection_blocks_user [OF demo_backend_inv, of "''c''" demo_active "''ann''"
      "[HttpIn demo_backend_env demo_upgrade, Timer demo_backend_env]" _ "[0, 1]"]
  by (simp add: demo_active_def in_call_def find_call_def demo_backend_def)

section \<open>Writes\<close>

text \<open>
  Writes to a web socket overlap: each message that is relayed to a user starts a
  further write on the user's stream, without waiting for the one before, so that after a
  burst of candidates as many writes are under way. Beast allows one at a time.
\<close>

lemma relayed_writes_overlap:
  assumes "um_find (be_sessions be) sid = Some \<lparr>wss_userId = user, wss_reading = True\<rparr>"
    and "find_call call (be_calls be) = Some s"
    and "um_find (ws_sessions (be_ws be)) (other_party user s) = Some peer"
    and "list_all (\<lambda>(e, raw). \<exists>msg. json_parse (ae_json e) raw = Some msg \<and> member_string msg ''type'' = Some ''webrtc.ice''
           \<and> member_string msg ''callId'' = Some call) msgs"
  shows "be_writing (fold backend_next (map (\<lambda>(e, raw). WsIn e sid raw) msgs) be)
    = be_writing be @ replicate (length msgs) peer"
  using assms
proof (induction msgs arbitrary: be)
  case (Cons em msgs)
  obtain e raw where em: "em = (e, raw)" by (cases em)
  with Cons.prems(4) obtain msg where msg: "json_parse (ae_json e) raw = Some msg"
    "member_string msg ''type'' = Some ''webrtc.ice''" "member_string msg ''callId'' = Some call" by auto
  have step: "backend_next (WsIn e sid raw) be = be\<lparr>be_writing := be_writing be @ [peer]\<rparr>"
    using Cons.prems(1-3) msg
    by (simp add: backend_next_def be_message_def handle_def be_router_env_def onWebrtcRelay_def sendJson_def do_sends_def deliver_def ws_send_def)
  show ?case
    using Cons.IH [of "be\<lparr>be_writing := be_writing be @ [peer]\<rparr>"] Cons.prems em by (simp add: step)
qed simp

end
