(* ===== verification/Client_Session.thy ===== *)
theory Client_Session
  imports Json Config
begin

text \<open>
  The command line client: \<open>session\<close> (the state), \<open>cli/parser.cpp\<close>, \<open>cli/commands.cpp\<close> and
  \<open>cli/repl.cpp\<close> (what the user types), and \<open>signaling/message_handler.cpp\<close> (what the server
  sends). The surroundings are the record \<open>client_env\<close>: the JSON library with the texts of its
  exceptions, the HTTP client, whose request throws or yields a status and a body, and the
  configuration. What an operation does to the outside is a list of effects: the calls of
  the callbacks and the printed lines, in order. Typed text is taken to be valid UTF-8.
\<close>

section \<open>session\<close>

datatype AppState = Idle | Calling | Ringing | InCall

fun toString :: "AppState \<Rightarrow> string" where
  "toString Idle = ''Idle''"
| "toString Calling = ''Calling''"
| "toString Ringing = ''Ringing''"
| "toString InCall = ''InCall''"

record ClientTurnConfig =
  turnUrl :: string
  turnsUrl :: string
  tcfg_username :: string
  tcfg_credential :: string
  tcfg_ttl :: int

record CallContext =
  cc_callId :: string
  remoteUser :: string
  cc_state :: AppState
  cc_muted :: bool
  is_caller :: bool

definition no_call :: CallContext where
  "no_call = \<lparr>cc_callId = [], remoteUser = [], cc_state = Idle, cc_muted = False, is_caller = False\<rparr>"

record RecordContext =
  rec_active :: bool
  rec_filename :: string

definition no_record :: RecordContext where
  "no_record = \<lparr>rec_active = False, rec_filename = []\<rparr>"

record Session =
  ses_userId :: string
  ses_jwt :: string
  turnConfig :: ClientTurnConfig
  ses_call :: CallContext
  ses_record :: RecordContext

definition mk_session_state :: Session where
  "mk_session_state = \<lparr>ses_userId = [], ses_jwt = [],
     turnConfig = \<lparr>turnUrl = [], turnsUrl = [], tcfg_username = [], tcfg_credential = [], tcfg_ttl = 3600\<rparr>,
     ses_call = no_call, ses_record = no_record\<rparr>"

definition isLoggedIn :: "Session \<Rightarrow> bool" where
  "isLoggedIn s = (ses_jwt s \<noteq> [])"

definition isInCall :: "Session \<Rightarrow> bool" where
  "isInCall s = (cc_state (ses_call s) \<noteq> Idle)"

abbreviation set_state :: "AppState \<Rightarrow> Session \<Rightarrow> Session" where
  "set_state st s \<equiv> s\<lparr>ses_call := (ses_call s)\<lparr>cc_state := st\<rparr>\<rparr>"

section \<open>Surroundings and effects\<close>

record client_env =
  ce_json :: json_lib
  ce_parse_error :: "string \<Rightarrow> string"
  ce_value_error :: "json \<Rightarrow> string"
  ce_object_items :: "(string \<Rightarrow> json option) \<Rightarrow> json list"
  ce_float_int :: "string \<Rightarrow> int"
  ce_post :: "string \<Rightarrow> u16 \<Rightarrow> string \<Rightarrow> string \<Rightarrow> string + nat \<times> string"
  ce_config :: config

datatype effect =
    WsSend string
  | CaptureCb bool string
  | SendfileCb string
  | OnLogin
  | Print string
  | OnOffer string
  | OnAnswer string
  | OnIce string string int

text \<open>
  \<open>j.value(key, default)\<close>: the default for a missing key; a value of another type and a \<open>j\<close>
  that is not an object throw.
\<close>

definition value_string :: "client_env \<Rightarrow> json \<Rightarrow> string \<Rightarrow> string \<Rightarrow> string + string" where
  "value_string e j key default_val =
     (case j of
        JObj m \<Rightarrow> (case m key of
                     None \<Rightarrow> Inr default_val
                   | Some (JStr v) \<Rightarrow> Inr v
                   | Some v \<Rightarrow> Inl (json_type_error (ce_json e) v))
      | _ \<Rightarrow> Inl (ce_value_error e j))"

definition value_int :: "client_env \<Rightarrow> json \<Rightarrow> string \<Rightarrow> int \<Rightarrow> string + int" where
  "value_int e j key default_val =
     (case j of
        JObj m \<Rightarrow> (case m key of
                     None \<Rightarrow> Inr default_val
                   | Some (JInt v) \<Rightarrow> Inr (sint (word_of_int v :: 32 word))
                   | Some (JBool b) \<Rightarrow> Inr (if b then 1 else 0)
                   | Some (JFloat f) \<Rightarrow> Inr (ce_float_int e f)
                   | Some v \<Rightarrow> Inl (json_type_error (ce_json e) v))
      | _ \<Rightarrow> Inl (ce_value_error e j))"

section \<open>cli/parser.cpp\<close>

record Command =
  cmd_name :: string
  cmd_args :: "string list"

text \<open>Extraction with \<open>operator>>\<close>: maximal runs of characters that are not white space.\<close>

function tokens :: "string \<Rightarrow> string list" where
  "tokens s =
     (let t = dropWhile is_space s
      in if t = [] then [] else takeWhile (\<lambda>c. \<not> is_space c) t # tokens (dropWhile (\<lambda>c. \<not> is_space c) t))"
  by auto
termination
proof (relation "measure length")
  fix s t
  assume t: "t = dropWhile is_space s" "t \<noteq> []"
  then have "\<not> is_space (hd t)" by (simp add: hd_dropWhile)
  then have "length (dropWhile (\<lambda>c. \<not> is_space c) t) < length t"
    using t(2) by (cases t) (simp_all add: le_imp_less_Suc length_dropWhile_le)
  moreover have "length t \<le> length s" by (simp add: t(1) length_dropWhile_le)
  ultimately show "(dropWhile (\<lambda>c. \<not> is_space c) t, s) \<in> measure length" by simp
qed simp

declare tokens.simps [simp del]

definition parse_command :: "string \<Rightarrow> Command" where
  "parse_command line =
     (case tokens line of
        [] \<Rightarrow> \<lparr>cmd_name = [], cmd_args = []\<rparr>
      | t # ts \<Rightarrow> \<lparr>cmd_name = t, cmd_args = ts\<rparr>)"

section \<open>cli/commands.cpp\<close>

record CommandResult =
  cr_ok :: bool
  cr_message :: string

text \<open>Which callbacks are set, and the wish to quit.\<close>

record Commands =
  ws_send_set :: bool
  capture_cb_set :: bool
  sendfile_cb_set :: bool
  cmds_quit :: bool

abbreviation failed :: "string \<Rightarrow> CommandResult" where
  "failed m \<equiv> \<lparr>cr_ok = False, cr_message = m\<rparr>"

abbreviation done_with :: "string \<Rightarrow> CommandResult" where
  "done_with m \<equiv> \<lparr>cr_ok = True, cr_message = m\<rparr>"

abbreviation on_set :: "bool \<Rightarrow> effect \<Rightarrow> effect list" where
  "on_set b eff \<equiv> (if b then [eff] else [])"

type_synonym command = "client_env \<Rightarrow> string list \<Rightarrow> Commands \<Rightarrow> Session \<Rightarrow> CommandResult \<times> effect list \<times> Session"

text \<open>The request both account commands send.\<close>

definition post_account :: "client_env \<Rightarrow> string \<Rightarrow> string list \<Rightarrow> string + nat \<times> string" where
  "post_account e path args =
     ce_post e (cfg_get ''SERVER_HOST'' ''localhost'' (ce_config e)) (word_of_int (getInt ''SERVER_PORT'' 8080 (ce_config e)))
       path (json_dump (ce_json e) (obj [(''userId'', JStr (args ! 0)), (''password'', JStr (args ! 1))]))"

definition cmd_login :: command where
  "cmd_login e args c s =
     (if length args < 2 then (failed ''usage: login <userId> <password>'', [], s)
      else case post_account e ''/api/auth/login'' args of
        Inl what \<Rightarrow> (failed (''login error: '' @ what), [], s)
      | Inr (status, body) \<Rightarrow>
          if status \<noteq> 200 then (failed (''login failed: '' @ body), [], s)
          else case json_parse (ce_json e) body of
            None \<Rightarrow> (failed (''login error: '' @ ce_parse_error e body), [], s)
          | Some j \<Rightarrow>
              (case value_string e j ''userId'' (args ! 0) of
                 Inl what \<Rightarrow> (failed (''login error: '' @ what), [], s)
               | Inr user \<Rightarrow>
                   let s = s\<lparr>ses_userId := user\<rparr>
                   in case value_string e j ''token'' [] of
                     Inl what \<Rightarrow> (failed (''login error: '' @ what), [], s)
                   | Inr token \<Rightarrow>
                       let s = s\<lparr>ses_jwt := token\<rparr>
                       in if token = [] then (failed ''login failed: no token in response'', [], s)
                          else (done_with (''logged in as '' @ user), [], s)))"

definition cmd_call :: command where
  "cmd_call e args c s =
     (if args = [] then (failed ''usage: call <userId>'', [], s)
      else if \<not> isLoggedIn s then (failed ''not logged in'', [], s)
      else if args ! 0 = ses_userId s then (failed ''cannot call yourself'', [], s)
      else if isInCall s then (failed ''already in call'', [], s)
      else (done_with (''calling '' @ args ! 0),
            on_set (ws_send_set c) (WsSend (json_dump (ce_json e) (obj [(''type'', JStr ''call.create''), (''to'', JStr (args ! 0))]))),
            s\<lparr>ses_call := (ses_call s)\<lparr>remoteUser := args ! 0, cc_state := Calling, is_caller := True\<rparr>\<rparr>))"

text \<open>The message of a command about the current call.\<close>

definition call_message :: "client_env \<Rightarrow> string \<Rightarrow> Session \<Rightarrow> string" where
  "call_message e type s =
     json_dump (ce_json e) (obj [(''type'', JStr type), (''callId'', JStr (cc_callId (ses_call s)))])"

definition cmd_accept :: command where
  "cmd_accept e args c s =
     (if cc_state (ses_call s) \<noteq> Ringing then (failed ''no incoming call'', [], s)
      else (done_with ''call accepted'', on_set (ws_send_set c) (WsSend (call_message e ''call.accept'' s)), set_state InCall s))"

definition cmd_reject :: command where
  "cmd_reject e args c s =
     (if cc_state (ses_call s) \<noteq> Ringing then (failed ''no incoming call'', [], s)
      else (done_with ''call rejected'', on_set (ws_send_set c) (WsSend (call_message e ''call.reject'' s)), s\<lparr>ses_call := no_call\<rparr>))"

definition cmd_hangup :: command where
  "cmd_hangup e args c s =
     (if \<not> isInCall s then (failed ''not in call'', [], s)
      else (done_with ''call ended'', on_set (ws_send_set c) (WsSend (call_message e ''call.hangup'' s)), s\<lparr>ses_call := no_call\<rparr>))"

definition cmd_mute :: command where
  "cmd_mute e args c s =
     (if cc_state (ses_call s) \<noteq> InCall then (failed ''not in call'', [], s)
      else if cc_muted (ses_call s) then (failed ''already muted'', [], s)
      else (done_with ''muted'', [], s\<lparr>ses_call := (ses_call s)\<lparr>cc_muted := True\<rparr>\<rparr>))"

definition cmd_unmute :: command where
  "cmd_unmute e args c s =
     (if cc_state (ses_call s) \<noteq> InCall then (failed ''not in call'', [], s)
      else if \<not> cc_muted (ses_call s) then (failed ''not muted'', [], s)
      else (done_with ''unmuted'', [], s\<lparr>ses_call := (ses_call s)\<lparr>cc_muted := False\<rparr>\<rparr>))"

definition cmd_status :: command where
  "cmd_status e args c s =
     (done_with (''user:  '' @ (if ses_userId s = [] then ''(not logged in)'' else ses_userId s) @ [CHR 0x0A] @
        ''state: '' @ toString (cc_state (ses_call s)) @
        (if isInCall s
         then CHR 0x0A # ''call:  '' @ cc_callId (ses_call s) @ CHR 0x0A # ''peer:  '' @ remoteUser (ses_call s) @
              CHR 0x0A # ''muted: '' @ (if cc_muted (ses_call s) then ''yes'' else ''no'')
         else [])), [], s)"

definition is_wav :: "string \<Rightarrow> bool" where
  "is_wav filename = (4 \<le> length filename \<and> drop (length filename - 4) filename = ''.wav'')"

definition cmd_record :: command where
  "cmd_record e args c s =
     (if args = [] then (failed ''usage: record <filename.wav>'', [], s)
      else if rec_active (ses_record s) then (failed ''already recording, use stop first'', [], s)
      else if \<not> is_wav (args ! 0) then (failed ''only .wav format supported'', [], s)
      else (done_with (''recording to '' @ args ! 0), on_set (capture_cb_set c) (CaptureCb True []),
            s\<lparr>ses_record := \<lparr>rec_active = True, rec_filename = args ! 0\<rparr>\<rparr>))"

definition cmd_stop :: command where
  "cmd_stop e args c s =
     (if \<not> rec_active (ses_record s) then (failed ''not recording'', [], s)
      else (done_with (''saved to '' @ rec_filename (ses_record s)),
            on_set (capture_cb_set c) (CaptureCb False (rec_filename (ses_record s))), s\<lparr>ses_record := no_record\<rparr>))"

definition cmd_sendfile :: command where
  "cmd_sendfile e args c s =
     (if args = [] then (failed ''usage: sendfile <filename.wav>'', [], s)
      else if \<not> isInCall s then (failed ''not in call'', [], s)
      else if \<not> is_wav (args ! 0) then (failed ''only .wav format supported'', [], s)
      else (done_with (''sending '' @ args ! 0), on_set (sendfile_cb_set c) (SendfileCb (args ! 0)), s))"

definition cmd_quit :: command where
  "cmd_quit e args c s =
     (done_with ''bye'',
      (if isInCall s then on_set (ws_send_set c) (WsSend (call_message e ''call.hangup'' s)) else []),
      (if isInCall s then s\<lparr>ses_call := no_call\<rparr> else s))"

definition cmd_register :: command where
  "cmd_register e args c s =
     (if length args < 2 then (failed ''usage: register <userId> <password>'', [], s)
      else case post_account e ''/api/auth/register'' args of
        Inl what \<Rightarrow> (failed (''register error: '' @ what), [], s)
      | Inr (status, body) \<Rightarrow>
          if status \<noteq> 200 \<and> status \<noteq> 201 then (failed (''register failed: '' @ body), [], s)
          else (done_with (''registered as '' @ args ! 0), [], s))"

section \<open>cli/repl.cpp\<close>

record Repl =
  repl_commands :: Commands
  repl_quit :: bool
  on_login_set :: bool

definition command_table :: "(string \<times> command) list" where
  "command_table =
     [(''login'', cmd_login), (''call'', cmd_call), (''accept'', cmd_accept), (''reject'', cmd_reject),
      (''hangup'', cmd_hangup), (''mute'', cmd_mute), (''unmute'', cmd_unmute), (''record'', cmd_record),
      (''register'', cmd_register), (''stop'', cmd_stop), (''sendfile'', cmd_sendfile), (''status'', cmd_status),
      (''quit'', cmd_quit), (''exit'', cmd_quit)]"

definition unknown_command :: "string \<Rightarrow> CommandResult" where
  "unknown_command name = failed (''unknown command: '' @ name @
     '' (try: login register call accept reject hangup mute unmute record stop sendfile status quit)'')"

definition processLine :: "client_env \<Rightarrow> string \<Rightarrow> Repl \<Rightarrow> Session \<Rightarrow> effect list \<times> Repl \<times> Session" where
  "processLine e line r s =
     (if line = [] then ([], r, s)
      else
        let cmd = parse_command line
        in if cmd_name cmd = [] then ([], r, s)
           else
             case (case map_of command_table (cmd_name cmd) of
                     None \<Rightarrow> (unknown_command (cmd_name cmd), [], s)
                   | Some f \<Rightarrow> f e (cmd_args cmd) (repl_commands r) s) of (result, effs, s) \<Rightarrow>
               let login_effs = (if cmd_name cmd = ''login'' \<and> cr_ok result \<and> on_login_set r then [OnLogin] else []);
                   out = (if cr_message result \<noteq> [] then [Print (cr_message result)] else []);
                   quit = cmds_quit (repl_commands r) \<or> cmd_name cmd = ''quit'' \<or> cmd_name cmd = ''exit''
               in (effs @ login_effs @ out,
                   r\<lparr>repl_commands := (repl_commands r)\<lparr>cmds_quit := quit\<rparr>, repl_quit := repl_quit r \<or> quit\<rparr>, s))"

section \<open>signaling/message\_handler.cpp\<close>

record MessageHandler =
  on_offer_set :: bool
  on_answer_set :: bool
  on_ice_set :: bool

text \<open>
  A handler yields its effects, the session, and the exception it ended with. An exception
  that reading a member throws ends the handler with the effects so far.
\<close>

type_synonym handled = "effect list \<times> Session \<times> string option"

abbreviation handled_ok :: "effect list \<Rightarrow> Session \<Rightarrow> handled" where
  "handled_ok effs s \<equiv> (effs, s, None)"

definition with_string :: "string + string \<Rightarrow> Session \<Rightarrow> (string \<Rightarrow> handled) \<Rightarrow> handled" where
  "with_string v s k = (case v of Inl what \<Rightarrow> ([], s, Some what) | Inr x \<Rightarrow> k x)"

definition handleCallIncoming :: "client_env \<Rightarrow> json \<Rightarrow> Session \<Rightarrow> handled" where
  "handleCallIncoming e msg s =
     with_string (value_string e msg ''callId'' []) s (\<lambda>callId.
     with_string (value_string e msg ''from'' []) s (\<lambda>from_user.
       handled_ok [Print (''incoming call from '' @ from_user @ '' (callId: '' @ callId @ '')'' @ [CHR 0x0A] @
           ''type '' @ [CHR 0x27] @ ''accept'' @ [CHR 0x27] @ '' or '' @ [CHR 0x27] @ ''reject'' @ [CHR 0x27])]
         (s\<lparr>ses_call := (ses_call s)\<lparr>cc_callId := callId, remoteUser := from_user, cc_state := Ringing, is_caller := False\<rparr>\<rparr>)))"

definition handleCallCreated :: "client_env \<Rightarrow> json \<Rightarrow> Session \<Rightarrow> handled" where
  "handleCallCreated e msg s =
     with_string (value_string e msg ''callId'' []) s (\<lambda>callId.
       handled_ok [Print (''[call] created, callId: '' @ callId)] (s\<lparr>ses_call := (ses_call s)\<lparr>cc_callId := callId\<rparr>\<rparr>))"

definition handleCallEnded :: "client_env \<Rightarrow> json \<Rightarrow> Session \<Rightarrow> handled" where
  "handleCallEnded e msg s =
     with_string (value_string e msg ''reason'' ''unknown'') s (\<lambda>reason.
       handled_ok [Print (''[call] ended, reason: '' @ reason)] (s\<lparr>ses_call := no_call\<rparr>))"

definition handleCallFailed :: "client_env \<Rightarrow> json \<Rightarrow> Session \<Rightarrow> handled" where
  "handleCallFailed e msg s =
     with_string (value_string e msg ''reason'' ''unknown'') s (\<lambda>reason.
       handled_ok [Print (''[call] failed: '' @ reason)] (s\<lparr>ses_call := no_call\<rparr>))"

text \<open>The values a range-based for visits; a value that is not a container visits itself, \<open>null\<close> nothing.\<close>

fun json_items :: "client_env \<Rightarrow> json \<Rightarrow> json list" where
  "json_items e (JArr js) = js"
| "json_items e (JObj m) = ce_object_items e m"
| "json_items e JNull = []"
| "json_items e j = [j]"

definition starts_with :: "string \<Rightarrow> string \<Rightarrow> bool" where
  "starts_with p u = (take (length p) u = p)"

definition take_url :: "string \<Rightarrow> ClientTurnConfig \<Rightarrow> ClientTurnConfig" where
  "take_url u tc =
     (if starts_with ''turn:'' u \<and> find_substr ''turns:'' u = None then tc\<lparr>turnUrl := u\<rparr>
      else if starts_with ''turns:'' u then tc\<lparr>turnsUrl := u\<rparr>
      else tc)"

fun take_urls :: "client_env \<Rightarrow> json list \<Rightarrow> ClientTurnConfig \<Rightarrow> ClientTurnConfig \<times> string option" where
  "take_urls e [] tc = (tc, None)"
| "take_urls e (JStr u # us) tc = take_urls e us (take_url u tc)"
| "take_urls e (j # us) tc = (tc, Some (json_type_error (ce_json e) j))"

text \<open>
  One server of the list: skipped without a user name; a server without \<open>urls\<close> is read with
  \<open>operator[]\<close> on a constant object, which is undefined.
\<close>

definition take_server :: "client_env \<Rightarrow> json \<Rightarrow> ClientTurnConfig \<Rightarrow> (ClientTurnConfig \<times> string option) option" where
  "take_server e server tc =
     (if member server ''username'' = None then Some (tc, None)
      else case member server ''urls'' of
        None \<Rightarrow> None
      | Some urls \<Rightarrow>
          (case take_urls e (json_items e urls) tc of
             (tc, Some what) \<Rightarrow> Some (tc, Some what)
           | (tc, None) \<Rightarrow>
               (case value_string e server ''username'' [] of
                  Inl what \<Rightarrow> Some (tc, Some what)
                | Inr username \<Rightarrow>
                    let tc = tc\<lparr>tcfg_username := username\<rparr>
                    in case value_string e server ''credential'' [] of
                      Inl what \<Rightarrow> Some (tc, Some what)
                    | Inr credential \<Rightarrow> Some (tc\<lparr>tcfg_credential := credential\<rparr>, None))))"

fun take_servers :: "client_env \<Rightarrow> json list \<Rightarrow> ClientTurnConfig \<Rightarrow> (ClientTurnConfig \<times> string option) option" where
  "take_servers e [] tc = Some (tc, None)"
| "take_servers e (server # servers) tc =
     (case take_server e server tc of
        None \<Rightarrow> None
      | Some (tc, Some what) \<Rightarrow> Some (tc, Some what)
      | Some (tc, None) \<Rightarrow> take_servers e servers tc)"

definition handleRtcConfig :: "client_env \<Rightarrow> json \<Rightarrow> Session \<Rightarrow> handled option" where
  "handleRtcConfig e msg s =
     (case member msg ''iceServers'' of
        Some (JArr servers) \<Rightarrow>
          if servers = [] then Some (handled_ok [Print ''[error] rtc.config empty iceServers''] s)
          else (case take_servers e servers (turnConfig s) of
                  None \<Rightarrow> None
                | Some (tc, Some what) \<Rightarrow> Some ([], s\<lparr>turnConfig := tc\<rparr>, Some what)
                | Some (tc, None) \<Rightarrow>
                    Some (handled_ok [Print (''[rtc] config received, turn: '' @ turnUrl tc)] (s\<lparr>turnConfig := tc\<rparr>)))
      | _ \<Rightarrow> Some (handled_ok [Print ''[error] rtc.config missing iceServers''] s))"

text \<open>The conversion of a member to a string argument.\<close>

definition as_string :: "client_env \<Rightarrow> json \<Rightarrow> string + string" where
  "as_string e j = (case j of JStr v \<Rightarrow> Inr v | _ \<Rightarrow> Inl (json_type_error (ce_json e) j))"

definition handleWebrtcOffer :: "client_env \<Rightarrow> MessageHandler \<Rightarrow> json \<Rightarrow> Session \<Rightarrow> handled" where
  "handleWebrtcOffer e h msg s =
     (case member msg ''sdp'' of
        None \<Rightarrow> handled_ok [Print ''[error] webrtc.offer missing sdp''] s
      | Some sdp \<Rightarrow>
          if is_caller (ses_call s) then handled_ok [] s
          else if on_offer_set h then with_string (as_string e sdp) s (\<lambda>sdp. handled_ok [OnOffer sdp] s)
          else handled_ok [Print ''[warn] webrtc.offer received but no handler (etap 3)''] s)"

definition handleWebrtcAnswer :: "client_env \<Rightarrow> MessageHandler \<Rightarrow> json \<Rightarrow> Session \<Rightarrow> handled" where
  "handleWebrtcAnswer e h msg s =
     (case member msg ''sdp'' of
        None \<Rightarrow> handled_ok [Print ''[error] webrtc.answer missing sdp''] s
      | Some sdp \<Rightarrow>
          if \<not> is_caller (ses_call s) then handled_ok [] s
          else if on_answer_set h then with_string (as_string e sdp) s (\<lambda>sdp. handled_ok [OnAnswer sdp] s)
          else handled_ok [Print ''[warn] webrtc.answer received but no handler (etap 3)''] s)"

definition handleWebrtcIce :: "client_env \<Rightarrow> MessageHandler \<Rightarrow> json \<Rightarrow> Session \<Rightarrow> handled" where
  "handleWebrtcIce e h msg s =
     (case member msg ''candidate'' of
        None \<Rightarrow> handled_ok [Print ''[error] webrtc.ice missing candidate''] s
      | Some candidate \<Rightarrow>
          if on_ice_set h then
            with_string (as_string e candidate) s (\<lambda>candidate.
            with_string (value_string e msg ''mid'' []) s (\<lambda>mid.
              case value_int e msg ''mlineindex'' 0 of
                Inl what \<Rightarrow> ([], s, Some what)
              | Inr idx \<Rightarrow> handled_ok [OnIce candidate mid idx] s))
          else handled_ok [Print ''[warn] webrtc.ice received but no handler (etap 3)''] s)"

definition handleError :: "client_env \<Rightarrow> json \<Rightarrow> Session \<Rightarrow> handled" where
  "handleError e msg s =
     with_string (value_string e msg ''error'' ''unknown error'') s (\<lambda>d.
     with_string (value_string e msg ''message'' d) s (\<lambda>m.
       handled_ok [Print (''[server error] '' @ m)] s))"

text \<open>\<open>MessageHandler::handle\<close>; \<open>None\<close> is undefined behaviour.\<close>

definition client_handle :: "client_env \<Rightarrow> MessageHandler \<Rightarrow> string \<Rightarrow> Session \<Rightarrow> handled option" where
  "client_handle e h raw s =
     (case json_parse (ce_json e) raw of
        None \<Rightarrow> Some (handled_ok [Print ''[error] invalid json from server''] s)
      | Some msg \<Rightarrow>
          (case member_string msg ''type'' of
             None \<Rightarrow> Some (handled_ok [Print ''[error] missing type in server message''] s)
           | Some type \<Rightarrow>
               if type = ''call.incoming'' then Some (handleCallIncoming e msg s)
               else if type = ''call.created'' then Some (handleCallCreated e msg s)
               else if type = ''call.ended'' then Some (handleCallEnded e msg s)
               else if type = ''call.failed'' then Some (handleCallFailed e msg s)
               else if type = ''rtc.config'' then handleRtcConfig e msg s
               else if type = ''webrtc.offer'' then Some (handleWebrtcOffer e h msg s)
               else if type = ''webrtc.answer'' then Some (handleWebrtcAnswer e h msg s)
               else if type = ''webrtc.ice'' then Some (handleWebrtcIce e h msg s)
               else if type = ''error'' then Some (handleError e msg s)
               else Some (handled_ok [Print (''[warn] unknown message type: '' @ type)] s)))"

section \<open>Who can start a call\<close>

text \<open>Only the command \<open>call\<close> puts the session into the state \<open>Calling\<close>.\<close>

named_theorems command_defs

lemmas [command_defs] = cmd_login_def cmd_accept_def cmd_reject_def cmd_hangup_def cmd_mute_def cmd_unmute_def
  cmd_status_def cmd_record_def cmd_stop_def cmd_sendfile_def cmd_quit_def cmd_register_def

lemma command_not_calling:
  assumes "map_of command_table name = Some f" "name \<noteq> ''call''" "f e args c s = (r, effs, s')"
    "cc_state (ses_call s) \<noteq> Calling"
  shows "cc_state (ses_call s') \<noteq> Calling"
proof -
  have "f \<in> {cmd_login, cmd_accept, cmd_reject, cmd_hangup, cmd_mute, cmd_unmute, cmd_record, cmd_register, cmd_stop,
      cmd_sendfile, cmd_status, cmd_quit}"
    using assms(1,2) by (auto simp: command_table_def split: if_splits)
  then show ?thesis using assms(3,4)
    by (auto simp: command_defs no_call_def Let_def split: if_splits sum.splits option.splits)
qed

lemma processLine_not_calling:
  assumes "cmd_name (parse_command line) \<noteq> ''call''" "processLine e line r s = (effs, r', s')"
    "cc_state (ses_call s) \<noteq> Calling"
  shows "cc_state (ses_call s') \<noteq> Calling"
  using assms command_not_calling
  by (auto simp: processLine_def Let_def split: if_splits option.splits prod.splits)

lemma take_servers_call:
  "handleRtcConfig e msg s = Some (effs, s', exn) \<Longrightarrow> ses_call s' = ses_call s"
  by (auto simp: handleRtcConfig_def split: option.splits json.splits if_splits prod.splits)

named_theorems handler_defs

lemmas [handler_defs] = handleCallIncoming_def handleCallCreated_def handleCallEnded_def handleCallFailed_def
  handleWebrtcOffer_def handleWebrtcAnswer_def handleWebrtcIce_def handleError_def with_string_def

lemma client_handle_not_calling:
  assumes "client_handle e h raw s = Some (effs, s', exn)" "cc_state (ses_call s) \<noteq> Calling"
  shows "cc_state (ses_call s') \<noteq> Calling"
  using assms take_servers_call
  by (auto simp: client_handle_def handler_defs no_call_def split: option.splits if_splits sum.splits)

lemma value_string_obj [simp]:
  "value_string e (obj kvs) key d =
     (case map_of kvs key of None \<Rightarrow> Inr d | Some (JStr v) \<Rightarrow> Inr v | Some v \<Rightarrow> Inl (json_type_error (ce_json e) v))"
  by (simp add: value_string_def obj_def)

lemma value_int_obj [simp]:
  "value_int e (obj kvs) key d =
     (case map_of kvs key of None \<Rightarrow> Inr d | Some (JInt v) \<Rightarrow> Inr (sint (word_of_int v :: 32 word))
      | Some (JBool b) \<Rightarrow> Inr (if b then 1 else 0) | Some (JFloat f) \<Rightarrow> Inr (ce_float_int e f)
      | Some v \<Rightarrow> Inl (json_type_error (ce_json e) v))"
  by (simp add: value_int_def obj_def)

end
