(* ===== verification/Jitter_Buffer.thy ===== *)
theory Jitter_Buffer
  imports Prelude
begin

text \<open>
  \<open>client_cli/src/audio/jitter_buffer.hpp\<close>: the ring buffer between the network and the
  sound card, and the parts of \<open>playback.cpp\<close> that use it. Sizes are \<open>size_t\<close> and stay
  below the capacity, so they are natural numbers; the capacity is computed in \<open>uint32_t\<close>.
  The mutex makes every operation atomic. Abstractly the buffer is a bounded FIFO queue
  that drops what does not fit.
\<close>

type_synonym sample = "16 word"

section \<open>JitterBuffer\<close>

record JitterBuffer =
  capacity :: nat
  jb_buffer :: "sample list"
  write_pos :: nat
  read_pos :: nat
  jb_available :: nat

definition mk_jitter_buffer :: "u32 \<Rightarrow> u32 \<Rightarrow> JitterBuffer" where
  "mk_jitter_buffer capacity_ms sample_rate =
     (let n = unat (capacity_ms * sample_rate div 1000)
      in \<lparr>capacity = n, jb_buffer = replicate n 0, write_pos = 0, read_pos = 0, jb_available = 0\<rparr>)"

fun jb_write :: "sample list \<Rightarrow> JitterBuffer \<Rightarrow> JitterBuffer" where
  "jb_write [] jb = jb"
| "jb_write (x # xs) jb =
     (if jb_available jb < capacity jb then
        jb_write xs (jb\<lparr>jb_buffer := (jb_buffer jb)[write_pos jb := x],
                         write_pos := (write_pos jb + 1) mod capacity jb,
                         jb_available := jb_available jb + 1\<rparr>)
      else jb)"

text \<open>The output array and the returned count; what is missing is filled with silence.\<close>

fun jb_read :: "nat \<Rightarrow> JitterBuffer \<Rightarrow> sample list \<times> nat \<times> JitterBuffer" where
  "jb_read 0 jb = ([], 0, jb)"
| "jb_read (Suc n) jb =
     (if jb_available jb > 0 then
        (case jb_read n (jb\<lparr>read_pos := (read_pos jb + 1) mod capacity jb, jb_available := jb_available jb - 1\<rparr>) of
           (out, i, jb') \<Rightarrow> ((jb_buffer jb ! read_pos jb) # out, Suc i, jb'))
      else (replicate (Suc n) 0, Suc n, jb))"

definition jb_clear :: "JitterBuffer \<Rightarrow> JitterBuffer" where
  "jb_clear jb = jb\<lparr>write_pos := 0, read_pos := 0, jb_available := 0, jb_buffer := replicate (length (jb_buffer jb)) 0\<rparr>"

section \<open>The abstract queue\<close>

definition jb_inv :: "JitterBuffer \<Rightarrow> bool" where
  "jb_inv jb = (length (jb_buffer jb) = capacity jb \<and> jb_available jb \<le> capacity jb \<and>
     (0 < capacity jb \<longrightarrow> read_pos jb < capacity jb \<and> write_pos jb = (read_pos jb + jb_available jb) mod capacity jb))"

definition contents :: "JitterBuffer \<Rightarrow> sample list" where
  "contents jb = map (\<lambda>i. jb_buffer jb ! ((read_pos jb + i) mod capacity jb)) [0..<jb_available jb]"

lemma length_contents [simp]: "length (contents jb) = jb_available jb"
  by (simp add: contents_def)

text \<open>
  A run of puts (\<open>Inl\<close>) and gets (\<open>Inr\<close>) on a queue: what was accepted, and what came out
  apart from the padding.
\<close>

fun run_ops :: "('s \<Rightarrow> 'a list) \<Rightarrow> ('s \<Rightarrow> nat) \<Rightarrow> ('a list \<Rightarrow> 's \<Rightarrow> 's) \<Rightarrow> (nat \<Rightarrow> 's \<Rightarrow> 'a list \<times> 's)
    \<Rightarrow> ('a list + nat) list \<Rightarrow> 's \<Rightarrow> 'a list \<times> 'a list \<times> 's" where
  "run_ops elems cap put get [] s = ([], [], s)"
| "run_ops elems cap put get (Inl xs # ops) s =
     (case run_ops elems cap put get ops (put xs s) of
        (acc, out, s') \<Rightarrow> (take (cap s - length (elems s)) xs @ acc, out, s'))"
| "run_ops elems cap put get (Inr n # ops) s =
     (case run_ops elems cap put get ops (snd (get n s)) of
        (acc, out, s') \<Rightarrow> (acc, take (length (elems s)) (fst (get n s)) @ out, s'))"

text \<open>
  The contract of a bounded queue: what is put is appended as far as there is room, what
  is got is the oldest part, padded with silence.
\<close>

locale bounded_fifo =
  fixes inv :: "'s \<Rightarrow> bool" and elems :: "'s \<Rightarrow> 'a list" and cap :: "'s \<Rightarrow> nat"
    and put :: "'a list \<Rightarrow> 's \<Rightarrow> 's" and get :: "nat \<Rightarrow> 's \<Rightarrow> 'a list \<times> 's" and pad :: 'a
  assumes put_inv: "inv s \<Longrightarrow> inv (put xs s)"
    and put_elems: "inv s \<Longrightarrow> elems (put xs s) = elems s @ take (cap s - length (elems s)) xs"
    and put_cap: "inv s \<Longrightarrow> cap (put xs s) = cap s"
    and get_inv: "inv s \<Longrightarrow> inv (snd (get n s))"
    and get_out: "inv s \<Longrightarrow> fst (get n s) = take n (elems s) @ replicate (n - length (elems s)) pad"
    and get_elems: "inv s \<Longrightarrow> elems (snd (get n s)) = drop n (elems s)"
    and get_cap: "inv s \<Longrightarrow> cap (snd (get n s)) = cap s"
begin

text \<open>Samples come out in the order they went in; none is repeated or invented.\<close>

lemma put_get:
  assumes "inv s" "elems s = []" "length xs \<le> cap s" "length xs \<le> n"
  shows "fst (get n (put xs s)) = xs @ replicate (n - length xs) pad" "elems (snd (get n (put xs s))) = []"
  using assms by (simp_all add: get_out get_elems put_elems put_inv)

text \<open>Getting in two steps is getting in one.\<close>

lemma get_get:
  assumes "inv s"
  shows "fst (get (m + n) s) = fst (get m s) @ fst (get n (snd (get m s)))"
proof (cases "m \<le> length (elems s)")
  case True
  then show ?thesis using assms by (simp add: get_out get_elems get_inv take_add)
next
  case False
  then have "m + n - length (elems s) = (m - length (elems s)) + n" by simp
  then have "replicate (m + n - length (elems s)) pad = replicate (m - length (elems s)) pad @ replicate n pad"
    by (simp only: replicate_add)
  then show ?thesis using False assms by (simp add: get_out get_elems get_inv)
qed

text \<open>What comes out of a run of puts and gets, and what is left, is what was accepted, in order.\<close>

lemma run_ops_order:
  "inv s \<Longrightarrow> run_ops elems cap put get ops s = (acc, out, s') \<Longrightarrow> elems s @ acc = out @ elems s' \<and> inv s' \<and> cap s' = cap s"
proof (induction ops arbitrary: s acc out)
  case (Cons op ops)
  show ?case
  proof (cases op)
    case (Inl xs)
    then show ?thesis using Cons.IH [OF put_inv [OF Cons.prems(1), of xs]] Cons.prems
      by (auto simp: put_elems put_cap split: prod.splits)
  next
    case (Inr n)
    have t: "take (length (elems s)) (fst (get n s)) = take n (elems s)"
      using Cons.prems(1) by (cases "n \<le> length (elems s)") (simp_all add: get_out)
    obtain acc1 out1 where r: "run_ops elems cap put get ops (snd (get n s)) = (acc1, out1, s')" "acc = acc1"
        "out = take n (elems s) @ out1"
      using Cons.prems Inr by (auto simp: t split: prod.splits)
    show ?thesis using Cons.IH [OF get_inv [OF Cons.prems(1)] r(1)] r Cons.prems(1)
      by (simp add: get_elems get_cap) (metis append.assoc append_take_drop_id)
  qed
qed simp

end

section \<open>The ring buffer implements the queue\<close>

lemma jb_inv_mk [simp]: "jb_inv (mk_jitter_buffer ms rate)" "contents (mk_jitter_buffer ms rate) = []"
  by (simp_all add: jb_inv_def mk_jitter_buffer_def Let_def contents_def)

lemma mk_jitter_buffer_simps [simp]:
  "capacity (mk_jitter_buffer ms rate) = unat (ms * rate div 1000)" "jb_available (mk_jitter_buffer ms rate) = 0"
  by (simp_all add: mk_jitter_buffer_def Let_def)

lemma jb_inv_clear: "jb_inv jb \<Longrightarrow> jb_inv (jb_clear jb) \<and> contents (jb_clear jb) = []"
  by (simp add: jb_inv_def jb_clear_def contents_def)

lemma ring_inj:
  assumes "i < c" "j < c" "(r + i) mod c = (r + j) mod c"
  shows "i = (j :: nat)"
proof -
  have "i mod c = j mod c"
    using assms(3) nat_mod_eq_iff [of "r + i" c "r + j"] nat_mod_eq_iff [of i c j] by force
  then show ?thesis using assms by simp
qed

text \<open>One sample in, and one sample out.\<close>

definition put1 :: "sample \<Rightarrow> JitterBuffer \<Rightarrow> JitterBuffer" where
  "put1 x jb = jb\<lparr>jb_buffer := (jb_buffer jb)[write_pos jb := x],
                  write_pos := (write_pos jb + 1) mod capacity jb, jb_available := jb_available jb + 1\<rparr>"

definition get1 :: "JitterBuffer \<Rightarrow> JitterBuffer" where
  "get1 jb = jb\<lparr>read_pos := (read_pos jb + 1) mod capacity jb, jb_available := jb_available jb - 1\<rparr>"

lemma put1:
  assumes "jb_inv jb" "jb_available jb < capacity jb"
  shows "jb_inv (put1 x jb) \<and> contents (put1 x jb) = contents jb @ [x]"
proof
  let ?c = "capacity jb"
  have c: "0 < ?c" "read_pos jb < ?c" "length (jb_buffer jb) = ?c"
    and w: "write_pos jb = (read_pos jb + jb_available jb) mod ?c"
    using assms by (auto simp: jb_inv_def)
  show "jb_inv (put1 x jb)"
    using assms c w by (simp add: jb_inv_def put1_def mod_Suc_eq)
  have ne: "(read_pos jb + jb_available jb) mod ?c \<noteq> (read_pos jb + i) mod ?c" if "i < jb_available jb" for i
    using ring_inj [of i ?c "jb_available jb" "read_pos jb"] that assms(2) by auto
  then show "contents (put1 x jb) = contents jb @ [x]"
    using c w by (simp add: contents_def put1_def)
qed

lemma get1:
  assumes "jb_inv jb" "0 < jb_available jb"
  shows "jb_inv (get1 jb) \<and> contents jb = jb_buffer jb ! read_pos jb # contents (get1 jb)"
proof
  let ?c = "capacity jb"
  have c: "0 < ?c" "read_pos jb < ?c" and w: "write_pos jb = (read_pos jb + jb_available jb) mod ?c"
    using assms by (auto simp: jb_inv_def)
  obtain n where n: "jb_available jb = Suc n" using assms(2) gr0_conv_Suc by blast
  have "(Suc (read_pos jb) mod ?c + n) mod ?c = (read_pos jb + Suc n) mod ?c"
    by (simp add: mod_simps)
  then show "jb_inv (get1 jb)" using assms c w n by (auto simp: jb_inv_def get1_def)
  show "contents jb = jb_buffer jb ! read_pos jb # contents (get1 jb)"
    using c n by (simp add: contents_def get1_def map_upt_Suc mod_simps del: upt_Suc)
qed

lemma jb_write_refines:
  "jb_inv jb \<Longrightarrow> jb_inv (jb_write xs jb) \<and> capacity (jb_write xs jb) = capacity jb \<and>
     contents (jb_write xs jb) = contents jb @ take (capacity jb - jb_available jb) xs"
proof (induction xs arbitrary: jb)
  case (Cons x xs)
  show ?case
  proof (cases "jb_available jb < capacity jb")
    case True
    have eq: "jb_write (x # xs) jb = jb_write xs (put1 x jb)" using True by (simp add: put1_def)
    have av: "capacity (put1 x jb) = capacity jb" "jb_available (put1 x jb) = Suc (jb_available jb)"
      by (simp_all add: put1_def)
    obtain k where "capacity jb - jb_available jb = Suc k" "capacity jb - Suc (jb_available jb) = k"
      using True by (metis Suc_diff_Suc)
    then show ?thesis unfolding eq using put1 [OF Cons.prems True, of x] Cons.IH [of "put1 x jb"] av by simp
  qed (use Cons.prems in simp)
qed simp

lemma jb_read_refines:
  "jb_inv jb \<Longrightarrow> jb_read n jb = (out, i, jb') \<Longrightarrow>
     i = n \<and> out = take n (contents jb) @ replicate (n - length (contents jb)) 0 \<and>
     jb_inv jb' \<and> contents jb' = drop n (contents jb) \<and> capacity jb' = capacity jb"
proof (induction n arbitrary: jb out i)
  case (Suc n)
  show ?case
  proof (cases "jb_available jb > 0")
    case True
    obtain out1 i1 where r: "jb_read n (get1 jb) = (out1, i1, jb')" "out = jb_buffer jb ! read_pos jb # out1" "i = Suc i1"
      using Suc.prems(2) True by (auto simp: get1_def split: prod.splits)
    have g: "jb_inv (get1 jb)" "contents jb = jb_buffer jb ! read_pos jb # contents (get1 jb)"
      "capacity (get1 jb) = capacity jb"
      using get1 [OF Suc.prems(1) True] by (simp_all add: get1_def)
    have l: "jb_available jb = Suc (jb_available (get1 jb))" using True by (simp add: get1_def)
    show ?thesis using Suc.IH [OF g(1) r(1)] r g l by simp
  next
    case False
    then have "contents jb = []" by (metis length_contents length_0_conv not_gr0)
    then show ?thesis using Suc.prems False by auto
  qed
qed simp

interpretation jbq: bounded_fifo jb_inv contents capacity jb_write "\<lambda>n jb. (fst (jb_read n jb), snd (snd (jb_read n jb)))" 0
proof
  fix jb n assume inv: "jb_inv jb"
  obtain out i jb' where r: "jb_read n jb = (out, i, jb')" by (metis prod_cases3)
  note jb_read_refines [OF inv r]
  with r show "jb_inv (snd (fst (jb_read n jb), snd (snd (jb_read n jb))))"
    "fst (fst (jb_read n jb), snd (snd (jb_read n jb))) = take n (contents jb) @ replicate (n - length (contents jb)) 0"
    "contents (snd (fst (jb_read n jb), snd (snd (jb_read n jb)))) = drop n (contents jb)"
    "capacity (snd (fst (jb_read n jb), snd (snd (jb_read n jb)))) = capacity jb"
    by simp_all
qed (simp_all add: jb_write_refines)

section \<open>Playback\<close>

text \<open>
  \<open>playback.cpp\<close> without the device: an iteration of \<open>loop\<close> takes one frame from the jitter
  buffer and hands it to the sound card.
\<close>

record Playback =
  pb_frame_size :: nat
  pb_running :: bool
  jitter_buffer :: JitterBuffer

definition mk_playback :: "u32 \<Rightarrow> u32 \<Rightarrow> Playback" where
  "mk_playback sample_rate frame_ms =
     \<lparr>pb_frame_size = unat (sample_rate * frame_ms div 1000), pb_running = False,
      jitter_buffer = mk_jitter_buffer 50 sample_rate\<rparr>"

definition pb_start :: "Playback \<Rightarrow> Playback" where
  "pb_start pb = pb\<lparr>pb_running := True\<rparr>"

definition pb_stop :: "Playback \<Rightarrow> Playback" where
  "pb_stop pb = pb\<lparr>pb_running := False, jitter_buffer := jb_clear (jitter_buffer pb)\<rparr>"

definition pb_write :: "sample list \<Rightarrow> Playback \<Rightarrow> Playback" where
  "pb_write samples pb = pb\<lparr>jitter_buffer := jb_write samples (jitter_buffer pb)\<rparr>"

definition playFile :: "sample list \<Rightarrow> Playback \<Rightarrow> Playback" where
  "playFile samples pb = pb\<lparr>jitter_buffer := jb_write samples (jitter_buffer pb)\<rparr>"

text \<open>The frames of \<open>n\<close> iterations of the loop.\<close>

fun play_frames :: "nat \<Rightarrow> Playback \<Rightarrow> sample list list \<times> Playback" where
  "play_frames 0 pb = ([], pb)"
| "play_frames (Suc n) pb =
     (if pb_running pb then
        (case jb_read (pb_frame_size pb) (jitter_buffer pb) of (frame, i, jb) \<Rightarrow>
           case play_frames n (pb\<lparr>jitter_buffer := jb\<rparr>) of (fs, pb') \<Rightarrow> (frame # fs, pb'))
      else ([], pb))"

lemma play_frames_read:
  "pb_running pb \<Longrightarrow> jb_inv (jitter_buffer pb) \<Longrightarrow>
     concat (fst (play_frames n pb)) = fst (jb_read (n * pb_frame_size pb) (jitter_buffer pb))"
proof (induction n arbitrary: pb)
  case (Suc n)
  obtain frame i jb where r: "jb_read (pb_frame_size pb) (jitter_buffer pb) = (frame, i, jb)" by (metis prod_cases3)
  have "fst (jb_read (pb_frame_size pb + n * pb_frame_size pb) (jitter_buffer pb))
      = frame @ fst (jb_read (n * pb_frame_size pb) jb)"
    using jbq.get_get [OF Suc.prems(2), of "pb_frame_size pb" "n * pb_frame_size pb"] r by simp
  moreover have "jb_inv jb" using jb_read_refines [OF Suc.prems(2) r] by simp
  ultimately show ?case
    using Suc.IH [of "pb\<lparr>jitter_buffer := jb\<rparr>"] Suc.prems r by (auto split: prod.splits)
qed simp

section \<open>Properties\<close>

text \<open>
  C28. The ring buffer refines a bounded FIFO queue: writing appends the samples that fit
  and drops the rest, reading returns the oldest samples and pads with silence, clearing
  empties it; the positions stay in range.
\<close>

theorem jitter_buffer_refines_queue:
  assumes "jb_inv jb" "jb_read n jb = (out, count, jb')"
  shows "jb_inv (jb_write xs jb) \<and> contents (jb_write xs jb) = contents jb @ take (capacity jb - length (contents jb)) xs \<and>
    count = n \<and> out = take n (contents jb) @ replicate (n - length (contents jb)) 0 \<and>
    jb_inv jb' \<and> contents jb' = drop n (contents jb) \<and>
    jb_inv (jb_clear jb) \<and> contents (jb_clear jb) = []"
  using jb_write_refines [OF assms(1)] jb_read_refines [OF assms] jb_inv_clear [OF assms(1)] by simp

theorem jitter_buffer_refines_queue_witness:
  "contents (jb_write [7, 8] (mk_jitter_buffer 50 48000)) = [7, 8]"
proof -
  obtain out c jb where r: "jb_read 3 (mk_jitter_buffer 50 48000) = (out, c, jb)" by (metis prod_cases3)
  have "capacity (mk_jitter_buffer 50 48000) = 2400" by simp
  then show ?thesis using jitter_buffer_refines_queue [OF jb_inv_mk(1) r, of "[7, 8]"] by simp
qed

text \<open>
  Order: over any run of writes and reads from the empty buffer, the samples accepted
  by the writes are the samples the reads delivered followed by those still buffered:
  nothing is reordered, repeated or lost once accepted, and the buffer never holds more
  than its capacity.
\<close>

lemma jitter_buffer_order:
  assumes "run_ops contents capacity jb_write (\<lambda>n jb. (fst (jb_read n jb), snd (snd (jb_read n jb)))) ops
    (mk_jitter_buffer ms rate) = (accepted, delivered, jb)"
  shows "accepted = delivered @ contents jb \<and> length (contents jb) \<le> unat (ms * rate div 1000)"
  using jbq.run_ops_order [OF jb_inv_mk(1) assms]
  by (simp add: jb_inv_def)

text \<open>
  A file handed to the playback is cut to the 50 milliseconds of the jitter buffer:
  with the default rate, the frames played after \<open>playFile\<close> on an empty buffer are the
  first 2400 samples of the file, and silence.
\<close>

lemma playFile_truncates:
  assumes "pb_running pb" "jitter_buffer pb = mk_jitter_buffer 50 48000" "2400 \<le> n * pb_frame_size pb"
  shows "concat (fst (play_frames n (playFile samples pb)))
    = take 2400 samples @ replicate (n * pb_frame_size pb - length (take 2400 samples)) 0"
proof -
  let ?jb = "jb_write samples (mk_jitter_buffer 50 48000)"
  have cap: "capacity (mk_jitter_buffer 50 48000) = 2400"
    by simp
  have c: "jb_inv ?jb" "contents ?jb = take 2400 samples"
    using jb_write_refines [OF jb_inv_mk(1) [of 50 48000], of samples] by simp_all
  have "concat (fst (play_frames n (playFile samples pb))) = fst (jb_read (n * pb_frame_size pb) ?jb)"
    using play_frames_read [of "playFile samples pb" n] assms(1,2) c(1) by (simp add: playFile_def)
  then show ?thesis using jbq.get_out [OF c(1)] c(2) assms(3) by simp
qed

end
