(* ===== verification/Wav.thy ===== *)
theory Wav
  imports Jitter_Buffer
begin

text \<open>
  \<open>client_cli/src/audio/wav.cpp\<close>: writing and reading WAV files. A file is its bytes. An
  input stream is what is left to read and whether it is still good; a read past the end
  fills what there is, leaves the rest of the buffer as it was and makes the stream bad,
  and every later read leaves its buffer alone. The buffers are uninitialised locals, so
  what a failed read leaves in them is the parameter \<open>junk\<close>. Samples are stored in the byte
  order of the machine, which is little endian. A write outside a vector is the result
  \<open>HeapOverflow\<close>.
\<close>

section \<open>Streams\<close>

record istream =
  rest :: bytes
  is_good :: bool

definition stream_read :: "(nat \<Rightarrow> bytes) \<Rightarrow> nat \<Rightarrow> istream \<Rightarrow> bytes \<times> istream" where
  "stream_read junk n s =
     (if \<not> is_good s then (junk n, s)
      else if n \<le> length (rest s) then (take n (rest s), s\<lparr>rest := drop n (rest s)\<rparr>)
      else (rest s @ drop (length (rest s)) (junk n), s\<lparr>rest := [], is_good := False\<rparr>))"

definition stream_skip :: "nat \<Rightarrow> istream \<Rightarrow> istream" where
  "stream_skip n s = (if is_good s then s\<lparr>rest := drop n (rest s)\<rparr> else s)"

section \<open>Little-endian fields\<close>

definition le32 :: "bytes \<Rightarrow> u32" where
  "le32 b = be32 (b ! 3) (b ! 2) (b ! 1) (b ! 0)"

definition le16 :: "bytes \<Rightarrow> u16" where
  "le16 b = be16 (b ! 1) (b ! 0)"

definition writeU32LE :: "u32 \<Rightarrow> bytes" where
  "writeU32LE v = [byte32 0 v, byte32 8 v, byte32 16 v, byte32 24 v]"

definition writeU16LE :: "u16 \<Rightarrow> bytes" where
  "writeU16LE v = [byte16 0 v, byte16 8 v]"

definition readU32LE :: "(nat \<Rightarrow> bytes) \<Rightarrow> istream \<Rightarrow> u32 \<times> istream" where
  "readU32LE junk s = (case stream_read junk 4 s of (buf, s) \<Rightarrow> (le32 buf, s))"

definition readU16LE :: "(nat \<Rightarrow> bytes) \<Rightarrow> istream \<Rightarrow> u16 \<times> istream" where
  "readU16LE junk s = (case stream_read junk 2 s of (buf, s) \<Rightarrow> (le16 buf, s))"

text \<open>The memory of a vector of samples.\<close>

definition sample_bytes :: "sample list \<Rightarrow> bytes" where
  "sample_bytes xs = concat (map writeU16LE xs)"

fun samples_of :: "nat \<Rightarrow> bytes \<Rightarrow> sample list" where
  "samples_of 0 b = []"
| "samples_of (Suc n) b = le16 b # samples_of n (drop 2 b)"

section \<open>writeWav\<close>

datatype wav_error = WavError string

text \<open>\<open>openable\<close> and \<open>writable\<close> are what the file system answers; the result is the new file.\<close>

definition writeWav :: "bool \<Rightarrow> bool \<Rightarrow> string \<Rightarrow> sample list \<Rightarrow> u32 \<Rightarrow> u16 \<Rightarrow> u16 \<Rightarrow> wav_error + bytes" where
  "writeWav openable writable filename samples sample_rate num_channels bits =
     (if \<not> openable then Inl (WavError (''cannot open for writing: '' @ filename))
      else if \<not> writable then Inl (WavError (''write failed: '' @ filename))
      else
        let data_size = word_of_nat (length samples * 2) :: u32;
            byte_rate = sample_rate * ucast num_channels * ucast (bits div 8);
            block_align = num_channels * (bits div 8)
        in Inr (bytes_of_string ''RIFF'' @ writeU32LE (36 + data_size) @ bytes_of_string ''WAVE'' @
                bytes_of_string ''fmt '' @ writeU32LE 16 @ writeU16LE 1 @ writeU16LE num_channels @
                writeU32LE sample_rate @ writeU32LE byte_rate @ writeU16LE block_align @ writeU16LE bits @
                bytes_of_string ''data'' @ writeU32LE data_size @ take (unat data_size) (sample_bytes samples)))"

section \<open>readWav\<close>

record WavHeader =
  sampleRate :: u32
  numChannels :: u16
  bitsPerSample :: u16
  numSamples :: u32

datatype wav_result = Samples "sample list" WavHeader | Thrown wav_error | HeapOverflow

text \<open>The \<open>fmt\<close> chunk: the header and the stream after it.\<close>

definition read_fmt :: "(nat \<Rightarrow> bytes) \<Rightarrow> string \<Rightarrow> u32 \<Rightarrow> WavHeader \<Rightarrow> istream \<Rightarrow> wav_error + WavHeader \<times> istream" where
  "read_fmt junk filename chunk_size header s =
     (case readU16LE junk s of (format, s) \<Rightarrow>
        if format \<noteq> 1 then Inl (WavError (''only PCM WAV supported: '' @ filename))
        else
          case readU16LE junk s of (channels, s) \<Rightarrow>
          case readU32LE junk s of (rate, s) \<Rightarrow>
          case readU32LE junk s of (_, s) \<Rightarrow>
          case readU16LE junk s of (_, s) \<Rightarrow>
          case readU16LE junk s of (bits, s) \<Rightarrow>
            if bits \<noteq> 16 then Inl (WavError (''only 16-bit WAV supported: '' @ filename))
            else Inr (header\<lparr>numChannels := channels, sampleRate := rate, bitsPerSample := bits\<rparr>,
                      if chunk_size > 16 then stream_skip (unat (chunk_size - 16)) s else s))"

text \<open>
  The \<open>data\<close> chunk: a vector of half as many samples as the chunk has bytes, zeroed, into which
  as many bytes are read as the chunk declares; an odd number of them does not fit.
\<close>

definition read_data :: "u32 \<Rightarrow> WavHeader \<Rightarrow> istream \<Rightarrow> wav_result" where
  "read_data chunk_size header s =
     (let n = unat chunk_size div 2;
          got = if is_good s then take (unat chunk_size) (rest s) else []
      in if length got > 2 * n then HeapOverflow
         else Samples (samples_of n (got @ replicate (2 * n - length got) 0)) (header\<lparr>numSamples := word_of_nat n\<rparr>))"

text \<open>One iteration of the loop: the result, or the state of the next iteration.\<close>

definition chunk_step ::
    "(nat \<Rightarrow> bytes) \<Rightarrow> string \<Rightarrow> bool \<Rightarrow> WavHeader \<Rightarrow> istream \<Rightarrow> wav_result + bool \<times> WavHeader \<times> istream" where
  "chunk_step junk filename found_fmt header s =
     (if \<not> is_good s then Inl (Thrown (WavError (''no data chunk: '' @ filename)))
      else
        case stream_read junk 4 s of (id4, s) \<Rightarrow>
          if \<not> is_good s then Inl (Thrown (WavError (''no data chunk: '' @ filename)))
          else
            case readU32LE junk s of (chunk_size, s) \<Rightarrow>
              if id4 = bytes_of_string ''fmt '' then
                (case read_fmt junk filename chunk_size header s of
                   Inl e \<Rightarrow> Inl (Thrown e)
                 | Inr (header, s) \<Rightarrow> Inr (True, header, s))
              else if id4 = bytes_of_string ''data'' then
                (if \<not> found_fmt then Inl (Thrown (WavError (''data chunk before fmt: '' @ filename)))
                 else Inl (read_data chunk_size header s))
              else Inr (found_fmt, header, stream_skip (unat chunk_size) s))"

text \<open>Reading never adds to what is left, and the id of a chunk takes four bytes: the loop ends.\<close>

lemma stream_read_rest: "stream_read junk n s = (b, s') \<Longrightarrow> length (rest s') \<le> length (rest s)"
  by (auto simp: stream_read_def split: if_splits)

lemma readU32LE_rest: "readU32LE junk s = (v, s') \<Longrightarrow> length (rest s') \<le> length (rest s)"
  by (auto simp: readU32LE_def dest: stream_read_rest split: prod.splits)

lemma readU16LE_rest: "readU16LE junk s = (v, s') \<Longrightarrow> length (rest s') \<le> length (rest s)"
  by (auto simp: readU16LE_def dest: stream_read_rest split: prod.splits)

lemma stream_skip_rest: "length (rest (stream_skip n s)) \<le> length (rest s)"
  by (simp add: stream_skip_def)

lemma read_fmt_rest: "read_fmt junk filename c h s = Inr (h', s') \<Longrightarrow> length (rest s') \<le> length (rest s)"
  by (auto simp: read_fmt_def split: prod.splits if_splits
      dest!: readU16LE_rest readU32LE_rest intro: order_trans [OF stream_skip_rest])

lemma read_id_rest: "is_good s \<Longrightarrow> stream_read junk 4 s = (b, s') \<Longrightarrow> is_good s' \<Longrightarrow> length (rest s') < length (rest s)"
  by (auto simp: stream_read_def split: if_splits)

lemma chunk_step_rest:
  assumes "chunk_step junk filename found_fmt header s = Inr (f, h, s')"
  shows "length (rest s') < length (rest s)"
proof -
  obtain id4 s1 where 1: "stream_read junk 4 s = (id4, s1)" by force
  obtain c s2 where 2: "readU32LE junk s1 = (c, s2)" by force
  have "is_good s" "is_good s1" using assms 1 by (auto simp: chunk_step_def split: if_splits)
  then have lt: "length (rest s2) < length (rest s)"
    using read_id_rest [OF _ 1] readU32LE_rest [OF 2] by simp
  have "s' = stream_skip (unat c) s2 \<or> read_fmt junk filename c header s2 = Inr (h, s')"
    using assms 1 2 by (auto simp: chunk_step_def split: if_splits sum.splits prod.splits)
  then show ?thesis using lt stream_skip_rest [of "unat c" s2] read_fmt_rest by fastforce
qed

function read_chunks :: "(nat \<Rightarrow> bytes) \<Rightarrow> string \<Rightarrow> bool \<Rightarrow> WavHeader \<Rightarrow> istream \<Rightarrow> wav_result" where
  "read_chunks junk filename found_fmt header s =
     (case chunk_step junk filename found_fmt header s of
        Inl r \<Rightarrow> r
      | Inr (found_fmt', header', s') \<Rightarrow> read_chunks junk filename found_fmt' header' s')"
  by pat_completeness auto
termination
  by (relation "measure (\<lambda>(j, f, b, h, s). length (rest s))") (auto dest: chunk_step_rest)

declare read_chunks.simps [simp del]

text \<open>The file is \<open>None\<close> when it cannot be opened; \<open>header\<close> is the caller's uninitialised one.\<close>

definition readWav :: "(nat \<Rightarrow> bytes) \<Rightarrow> string \<Rightarrow> bytes option \<Rightarrow> WavHeader \<Rightarrow> wav_result" where
  "readWav junk filename file header =
     (case file of
        None \<Rightarrow> Thrown (WavError (''cannot open: '' @ filename))
      | Some content \<Rightarrow>
          case stream_read junk 4 \<lparr>rest = content, is_good = True\<rparr> of (riff, s) \<Rightarrow>
            if riff \<noteq> bytes_of_string ''RIFF'' then Thrown (WavError (''not a RIFF file: '' @ filename))
            else
              case readU32LE junk s of (_, s) \<Rightarrow>
              case stream_read junk 4 s of (wave, s) \<Rightarrow>
                if wave \<noteq> bytes_of_string ''WAVE'' then Thrown (WavError (''not a WAVE file: '' @ filename))
                else read_chunks junk filename False header s)"

section \<open>Fields read back\<close>

lemma length_LE [simp]: "length (writeU32LE v) = 4" "length (writeU16LE w) = 2"
  by (simp_all add: writeU32LE_def writeU16LE_def)

lemma le_write [simp]: "le32 (writeU32LE v) = v" "le16 (writeU16LE w @ bs) = w" "le16 (writeU16LE w) = w"
  by (simp_all add: le32_def le16_def writeU32LE_def writeU16LE_def)

lemma read_back:
  "length b = n \<Longrightarrow> stream_read junk n \<lparr>rest = b @ r, is_good = True\<rparr> = (b, \<lparr>rest = r, is_good = True\<rparr>)"
  "readU32LE junk \<lparr>rest = writeU32LE v @ r, is_good = True\<rparr> = (v, \<lparr>rest = r, is_good = True\<rparr>)"
  "readU16LE junk \<lparr>rest = writeU16LE w @ r, is_good = True\<rparr> = (w, \<lparr>rest = r, is_good = True\<rparr>)"
  by (simp_all add: stream_read_def readU32LE_def readU16LE_def)

lemma length_sample_bytes [simp]: "length (sample_bytes xs) = 2 * length xs"
  by (induction xs) (simp_all add: sample_bytes_def)

lemma samples_of_bytes [simp]: "samples_of (length xs) (sample_bytes xs) = xs"
  by (induction xs) (simp_all add: sample_bytes_def)

section \<open>Files with one format chunk and one data chunk\<close>

text \<open>A canonical file: any sizes and rates in the header, and a data chunk that declares \<open>n\<close> bytes.\<close>

definition wav_file :: "u32 \<Rightarrow> u16 \<Rightarrow> u32 \<Rightarrow> u32 \<Rightarrow> u16 \<Rightarrow> u16 \<Rightarrow> u32 \<Rightarrow> bytes \<Rightarrow> bytes" where
  "wav_file riff_size channels rate byte_rate align bits n payload =
     bytes_of_string ''RIFF'' @ writeU32LE riff_size @ bytes_of_string ''WAVE'' @
     bytes_of_string ''fmt '' @ writeU32LE 16 @ writeU16LE 1 @ writeU16LE channels @ writeU32LE rate @
     writeU32LE byte_rate @ writeU16LE align @ writeU16LE bits @ bytes_of_string ''data'' @ writeU32LE n @ payload"

lemma fmt_not_data: "bytes_of_string ''data'' \<noteq> bytes_of_string ''fmt ''"
  by (simp add: bytes_of_string_def)

lemma read_fmt_file:
  "read_fmt junk f 16 h
     \<lparr>rest = writeU16LE 1 @ writeU16LE channels @ writeU32LE rate @ writeU32LE br @ writeU16LE al @ writeU16LE bits @ r,
      is_good = True\<rparr> =
   (if bits \<noteq> 16 then Inl (WavError (''only 16-bit WAV supported: '' @ f))
    else Inr (h\<lparr>numChannels := channels, sampleRate := rate, bitsPerSample := bits\<rparr>, \<lparr>rest = r, is_good = True\<rparr>))"
  by (simp add: read_fmt_def read_back)

lemma readWav_file:
  "readWav junk f (Some (wav_file riff channels rate br al bits n payload)) h =
     (if bits = 16
      then read_data n (h\<lparr>numChannels := channels, sampleRate := rate, bitsPerSample := 16\<rparr>) \<lparr>rest = payload, is_good = True\<rparr>
      else Thrown (WavError (''only 16-bit WAV supported: '' @ f)))"
proof -
  let ?h = "h\<lparr>numChannels := channels, sampleRate := rate, bitsPerSample := 16\<rparr>"
  let ?data = "bytes_of_string ''data'' @ writeU32LE n @ payload"
  let ?fmt = "bytes_of_string ''fmt '' @ writeU32LE 16 @ writeU16LE 1 @ writeU16LE channels @ writeU32LE rate @
     writeU32LE br @ writeU16LE al @ writeU16LE bits @ ?data"
  have l: "length (bytes_of_string ''RIFF'') = 4" "length (bytes_of_string ''WAVE'') = 4"
    "length (bytes_of_string ''fmt '') = 4" "length (bytes_of_string ''data'') = 4" by simp_all
  have d: "read_chunks junk f True ?h \<lparr>rest = ?data, is_good = True\<rparr> = read_data n ?h \<lparr>rest = payload, is_good = True\<rparr>"
    using fmt_not_data by (subst read_chunks.simps) (simp add: chunk_step_def read_back l)
  have "read_chunks junk f False h \<lparr>rest = ?fmt, is_good = True\<rparr> =
    (if bits = 16 then read_chunks junk f True ?h \<lparr>rest = ?data, is_good = True\<rparr>
     else Thrown (WavError (''only 16-bit WAV supported: '' @ f)))"
    by (subst read_chunks.simps) (simp add: chunk_step_def read_back l read_fmt_file)
  then show ?thesis using d by (simp add: readWav_def wav_file_def read_back l)
qed

lemma writeWav_file:
  "writeWav True True f samples rate channels bits =
     Inr (wav_file (36 + word_of_nat (length samples * 2)) channels rate (rate * ucast channels * ucast (bits div 8))
       (channels * (bits div 8)) bits (word_of_nat (length samples * 2))
       (take (unat (word_of_nat (length samples * 2) :: u32)) (sample_bytes samples)))"
  by (simp add: writeWav_def wav_file_def Let_def)

section \<open>Properties\<close>

text \<open>
  C32. Recordings can be read back: a file that \<open>writeWav\<close> wrote with 16 bits per sample and
  less than 4 GB of samples is read by \<open>readWav\<close> as the same samples, with the sample rate,
  the number of channels and the number of samples; with another sample size it is refused.
\<close>

theorem wav_roundtrip:
  assumes "writeWav True True f samples rate channels bits = Inr wavf" "2 * length samples < 2 ^ 32"
  shows "readWav junk f' (Some wavf) h =
    (if bits = 16
     then Samples samples \<lparr>sampleRate = rate, numChannels = channels, bitsPerSample = 16, numSamples = word_of_nat (length samples)\<rparr>
     else Thrown (WavError (''only 16-bit WAV supported: '' @ f')))"
proof -
  define N :: u32 where "N = word_of_nat (length samples * 2)"
  have n: "unat N = 2 * length samples"
    unfolding N_def using assms(2) by (subst unat_of_nat) simp
  have "read_data N (h\<lparr>numChannels := channels, sampleRate := rate, bitsPerSample := 16\<rparr>)
      \<lparr>rest = sample_bytes samples, is_good = True\<rparr>
    = Samples samples \<lparr>sampleRate = rate, numChannels = channels, bitsPerSample = 16, numSamples = word_of_nat (length samples)\<rparr>"
    by (simp add: read_data_def Let_def n)
  moreover have "wavf = wav_file (36 + N) channels rate (rate * ucast channels * ucast (bits div 8))
       (channels * (bits div 8)) bits N (sample_bytes samples)"
    using assms(1) n unfolding writeWav_file N_def [symmetric] by simp
  ultimately show ?thesis by (simp add: readWav_file)
qed

theorem wav_roundtrip_witness:
  "\<exists>wavf. writeWav True True ''a.wav'' [1, 2, 0xFFFF] 48000 1 16 = Inr wavf \<and>
     readWav (\<lambda>n. replicate n 0) ''a.wav'' (Some wavf)
       \<lparr>sampleRate = 0, numChannels = 0, bitsPerSample = 0, numSamples = 0\<rparr> =
     Samples [1, 2, 0xFFFF] \<lparr>sampleRate = 48000, numChannels = 1, bitsPerSample = 16, numSamples = 3\<rparr>"
proof -
  obtain wavf where f: "writeWav True True ''a.wav'' [1, 2, 0xFFFF] 48000 1 16 = Inr wavf"
    using writeWav_file by blast
  then show ?thesis using wav_roundtrip [OF f] by simp
qed

text \<open>
  C36. A WAV file can make the client write outside the buffer of samples: when the data chunk
  declares an odd number of bytes and the file has them, one byte more is read than the
  vector holds; in all other cases of such a file the samples fit.
\<close>

theorem wav_odd_data_chunk_overflows:
  "readWav junk f (Some (wav_file riff channels rate br al 16 n payload)) h = HeapOverflow
     \<longleftrightarrow> odd (unat n) \<and> unat n \<le> length payload"
proof -
  have "min (length payload) (unat n) > 2 * (unat n div 2) \<longleftrightarrow> odd (unat n) \<and> unat n \<le> length payload"
    by (cases "even (unat n)") (auto elim!: evenE oddE)
  then show ?thesis by (simp add: readWav_file read_data_def Let_def)
qed

end
