(* ===== verification/Client_App.thy ===== *)
theory Client_App
  imports Client_Session Wav
begin

text \<open>
  \<open>client_cli/src/main.cpp\<close> and what it wires together: \<open>rtc/peer_connection.cpp\<close>,
  \<open>rtc/sdp_handler.cpp\<close>, \<open>rtc/ice_handler.cpp\<close>, \<open>audio/capture.cpp\<close> and the connection state
  of \<open>signaling/ws_client.cpp\<close>. The client is a state that reacts to events: a typed line, a
  message of the server, the end of the WebSocket, a report of libdatachannel, a frame of
  the microphone. Its threads run these handlers one at a time in the model. \<open>None\<close> is the
  end of the process: an exception that leaves a thread, the dereference of a null pointer,
  a joinable \<open>std::thread\<close> that is assigned to, or a write outside a buffer. Status lines the
  WebSocket client writes to the console are left out.
\<close>

section \<open>State\<close>

record PeerConnection =
  pc_open :: bool
  pc_connected :: bool
  audio_track :: bool

record Capture =
  cap_running :: bool
  cap_muted :: bool
  cap_recording :: bool
  record_buf :: "sample list"

record WsClient =
  ws_connected :: bool
  read_thread_joinable :: bool
  last_token :: string

record App =
  app_session :: Session
  app_repl :: Repl
  app_handler :: MessageHandler
  app_ws :: WsClient
  app_pc :: "PeerConnection option"
  app_sdp_handler :: bool
  app_ice_handler :: bool
  app_capture :: "Capture option"
  app_playback :: "Playback option"
  call_cleanup_done :: bool

text \<open>The state when \<open>main\<close> calls \<open>repl.run()\<close>.\<close>

definition mk_app :: App where
  "mk_app = \<lparr>app_session = mk_session_state,
     app_repl = \<lparr>repl_commands = \<lparr>ws_send_set = True, capture_cb_set = True, sendfile_cb_set = True, cmds_quit = False\<rparr>,
                 repl_quit = False, on_login_set = True\<rparr>,
     app_handler = \<lparr>on_offer_set = False, on_answer_set = False, on_ice_set = False\<rparr>,
     app_ws = \<lparr>ws_connected = False, read_thread_joinable = False, last_token = []\<rparr>,
     app_pc = None, app_sdp_handler = False, app_ice_handler = False,
     app_capture = None, app_playback = None, call_cleanup_done = False\<rparr>"

text \<open>
  Surroundings: what the file system answers, what libdatachannel accepts without throwing,
  and whether a connection to the server succeeds.
\<close>

record app_env = client_env +
  fs_openable :: "string \<Rightarrow> bool"
  fs_writable :: "string \<Rightarrow> bool"
  fs_file :: "string \<Rightarrow> bytes option"
  env_junk :: "nat \<Rightarrow> bytes"
  rtc_url_ok :: "string \<Rightarrow> bool"
  rtc_sdp_ok :: "string \<Rightarrow> bool"
  rtc_candidate_ok :: "string \<Rightarrow> string \<Rightarrow> bool"
  ws_connect_ok :: "string \<Rightarrow> bool"

datatype app_out =
    Sent string
  | Shown string
  | PcCreate ClientTurnConfig
  | PcClose
  | PcOffer
  | PcRemoteOffer string
  | PcRemoteAnswer string
  | PcCandidate string string
  | TrackSend "sample list"
  | FileWritten string bytes

type_synonym app_result = "(app_out list \<times> App) option"

section \<open>signaling/ws\_client.cpp\<close>

definition wsc_send :: "string \<Rightarrow> WsClient \<Rightarrow> app_out list" where
  "wsc_send message ws = (if \<not> ws_connected ws then [] else [Sent message])"

text \<open>
  \<open>connect\<close>: \<open>Some (Inl _)\<close> when it throws. The thread object is assigned last; assigning to
  a joinable thread terminates the process.
\<close>

definition wsc_connect :: "app_env \<Rightarrow> string \<Rightarrow> WsClient \<Rightarrow> (WsClient + WsClient) option" where
  "wsc_connect e token ws =
     (let ws = ws\<lparr>last_token := token\<rparr>
      in if \<not> ws_connect_ok e token then Some (Inl ws)
         else if read_thread_joinable ws then None
         else Some (Inr (ws\<lparr>ws_connected := True, read_thread_joinable := True\<rparr>)))"

section \<open>rtc/peer\_connection.cpp\<close>

definition pc_new :: PeerConnection where
  "pc_new = \<lparr>pc_open = False, pc_connected = False, audio_track = False\<rparr>"

text \<open>\<open>init\<close>: \<open>None\<close> when the library refuses an URL.\<close>

definition pc_init :: "app_env \<Rightarrow> ClientTurnConfig \<Rightarrow> PeerConnection \<Rightarrow> PeerConnection option" where
  "pc_init e cfg pc =
     (if rtc_url_ok e (turnUrl cfg) \<and> rtc_url_ok e (turnsUrl cfg) then Some (pc\<lparr>pc_open := True\<rparr>) else None)"

definition createOffer :: "PeerConnection \<Rightarrow> app_out list \<times> PeerConnection" where
  "createOffer pc = (if \<not> pc_open pc then ([], pc) else ([PcOffer], pc\<lparr>audio_track := True\<rparr>))"

definition applyOffer :: "app_env \<Rightarrow> string \<Rightarrow> PeerConnection \<Rightarrow> app_out list option" where
  "applyOffer e sdp pc =
     (if \<not> pc_open pc then Some [] else if rtc_sdp_ok e sdp then Some [PcRemoteOffer sdp] else None)"

definition applyAnswer :: "app_env \<Rightarrow> string \<Rightarrow> PeerConnection \<Rightarrow> app_out list option" where
  "applyAnswer e sdp pc =
     (if \<not> pc_open pc then Some [] else if rtc_sdp_ok e sdp then Some [PcRemoteAnswer sdp] else None)"

definition addRemoteCandidate :: "app_env \<Rightarrow> string \<Rightarrow> string \<Rightarrow> PeerConnection \<Rightarrow> app_out list option" where
  "addRemoteCandidate e candidate mid pc =
     (if \<not> pc_open pc then Some [] else if rtc_candidate_ok e candidate mid then Some [PcCandidate candidate mid] else None)"

definition pc_close :: "PeerConnection \<Rightarrow> app_out list \<times> PeerConnection" where
  "pc_close pc = (if pc_open pc then [PcClose] else [], pc\<lparr>pc_open := False, audio_track := False, pc_connected := False\<rparr>)"

section \<open>audio/capture.cpp\<close>

definition cap_start :: Capture where
  "cap_start = \<lparr>cap_running = True, cap_muted = False, cap_recording = False, record_buf = []\<rparr>"

definition cap_stop :: "Capture \<Rightarrow> Capture" where
  "cap_stop cap = cap\<lparr>cap_running := False\<rparr>"

definition setMuted :: "bool \<Rightarrow> Capture \<Rightarrow> Capture" where
  "setMuted muted cap = cap\<lparr>cap_muted := muted\<rparr>"

definition startRecording :: "Capture \<Rightarrow> Capture" where
  "startRecording cap = cap\<lparr>record_buf := [], cap_recording := True\<rparr>"

definition stopRecording :: "Capture \<Rightarrow> sample list \<times> Capture" where
  "stopRecording cap = (record_buf cap, cap\<lparr>cap_recording := False, record_buf := []\<rparr>)"

text \<open>One iteration of \<open>loop\<close> with a device: what the callback gets.\<close>

definition cap_frame :: "sample list \<Rightarrow> Capture \<Rightarrow> sample list \<times> Capture" where
  "cap_frame frame cap =
     (if cap_muted cap then replicate (length frame) 0 else frame,
      if cap_recording cap then cap\<lparr>record_buf := record_buf cap @ frame\<rparr> else cap)"

section \<open>main.cpp: calls\<close>

definition app_send :: "string \<Rightarrow> App \<Rightarrow> app_out list" where
  "app_send message app = wsc_send message (app_ws app)"

definition stopAudio :: "App \<Rightarrow> App" where
  "stopAudio app = app\<lparr>app_capture := map_option cap_stop (app_capture app), app_playback := map_option pb_stop (app_playback app)\<rparr>"

definition close_pc :: "App \<Rightarrow> app_out list" where
  "close_pc app = (case app_pc app of None \<Rightarrow> [] | Some pc \<Rightarrow> fst (pc_close pc))"

definition cleanupCall :: "App \<Rightarrow> app_out list \<times> App" where
  "cleanupCall app =
     (if call_cleanup_done app then ([], app)
      else
        let app = stopAudio (app\<lparr>call_cleanup_done := True\<rparr>)
        in (close_pc app,
            app\<lparr>app_pc := None, app_sdp_handler := False, app_ice_handler := False,
                app_session := (app_session app)\<lparr>ses_call := no_call\<rparr>\<rparr>))"

text \<open>\<open>initRtc\<close>: the flag tells whether it threw, which leaves a connection that is not open.\<close>

definition initRtc :: "app_env \<Rightarrow> App \<Rightarrow> app_out list \<times> App \<times> bool" where
  "initRtc e app =
     (let closed = close_pc app;
          cfg = turnConfig (app_session app);
          app = app\<lparr>call_cleanup_done := False, app_pc := Some pc_new, app_sdp_handler := False, app_ice_handler := False\<rparr>
      in case pc_init e cfg pc_new of
           None \<Rightarrow> (closed, app, True)
         | Some pc \<Rightarrow>
             (closed @ [PcCreate cfg],
              app\<lparr>app_pc := Some pc, app_sdp_handler := True, app_ice_handler := True,
                  app_handler := \<lparr>on_offer_set = True, on_answer_set = True, on_ice_set = True\<rparr>,
                  app_capture := Some cap_start, app_playback := Some (mk_playback 48000 20)\<rparr>, False))"

definition startCall :: "App \<Rightarrow> app_out list \<times> App" where
  "startCall app =
     (case app_pc app of
        None \<Rightarrow> ([], app)
      | Some pc \<Rightarrow> (case createOffer pc of (outs, pc') \<Rightarrow> (outs, app\<lparr>app_pc := Some pc'\<rparr>)))"

section \<open>main.cpp: callbacks\<close>

definition capture_callback :: "app_env \<Rightarrow> bool \<Rightarrow> string \<Rightarrow> App \<Rightarrow> app_out list \<times> App" where
  "capture_callback e start filename app =
     (case app_capture app of
        None \<Rightarrow> ([], app)
      | Some cap \<Rightarrow>
          if start then ([], app\<lparr>app_capture := Some (startRecording cap)\<rparr>)
          else (case stopRecording cap of (samples, cap') \<Rightarrow>
             (case writeWav (fs_openable e filename) (fs_writable e filename) filename samples 48000 1 16 of
                Inl (WavError what) \<Rightarrow> [Shown (''[audio] save error: '' @ what)]
              | Inr wavf \<Rightarrow> [FileWritten filename wavf, Shown (''[audio] saved to '' @ filename)],
              app\<lparr>app_capture := Some cap'\<rparr>)))"

definition sendfile_callback :: "app_env \<Rightarrow> string \<Rightarrow> App \<Rightarrow> app_result" where
  "sendfile_callback e filename app =
     (case readWav (env_junk e) filename (fs_file e filename) \<lparr>sampleRate = 0, numChannels = 0, bitsPerSample = 0, numSamples = 0\<rparr> of
        Samples samples header \<Rightarrow>
          Some ([Shown (''[audio] sending '' @ filename @ '' ('' @ to_string (int (length samples)) @ '' samples)'')],
                app\<lparr>app_playback := map_option (playFile samples) (app_playback app)\<rparr>)
      | Thrown (WavError what) \<Rightarrow> Some ([Shown (''[audio] file error: '' @ what)], app)
      | HeapOverflow \<Rightarrow> None)"

definition login_callback :: "app_env \<Rightarrow> App \<Rightarrow> app_result" where
  "login_callback e app =
     (case wsc_connect e (ses_jwt (app_session app)) (app_ws app) of
        None \<Rightarrow> None
      | Some (Inl ws) \<Rightarrow> Some ([], app\<lparr>app_ws := ws\<rparr>)
      | Some (Inr ws) \<Rightarrow> Some ([], app\<lparr>app_ws := ws\<rparr>))"

text \<open>
  The callbacks of the message handler use \<open>sdp_handler\<close> and \<open>ice_handler\<close>, which are null after
  a call has been cleaned up.
\<close>

definition offer_callback :: "app_env \<Rightarrow> string \<Rightarrow> App \<Rightarrow> app_result" where
  "offer_callback e sdp app =
     (if \<not> app_sdp_handler app then None
      else case app_pc app of
        None \<Rightarrow> None
      | Some pc \<Rightarrow> map_option (\<lambda>outs. (outs, app)) (applyOffer e sdp pc))"

definition answer_callback :: "app_env \<Rightarrow> string \<Rightarrow> App \<Rightarrow> app_result" where
  "answer_callback e sdp app =
     (if \<not> app_sdp_handler app then None
      else case app_pc app of
        None \<Rightarrow> None
      | Some pc \<Rightarrow> map_option (\<lambda>outs. (outs @ [Shown ''[rtc] answer applied''], app)) (applyAnswer e sdp pc))"

definition ice_callback :: "app_env \<Rightarrow> string \<Rightarrow> string \<Rightarrow> App \<Rightarrow> app_result" where
  "ice_callback e candidate mid app =
     (if \<not> app_ice_handler app then None
      else case app_pc app of
        None \<Rightarrow> None
      | Some pc \<Rightarrow> map_option (\<lambda>outs. (outs, app)) (addRemoteCandidate e candidate mid pc))"

fun run_effect :: "app_env \<Rightarrow> effect \<Rightarrow> App \<Rightarrow> app_result" where
  "run_effect e (WsSend m) app = Some (app_send m app, app)"
| "run_effect e (CaptureCb start filename) app = Some (capture_callback e start filename app)"
| "run_effect e (SendfileCb filename) app = sendfile_callback e filename app"
| "run_effect e OnLogin app = login_callback e app"
| "run_effect e (Print m) app = Some ([Shown m], app)"
| "run_effect e (OnOffer sdp) app = offer_callback e sdp app"
| "run_effect e (OnAnswer sdp) app = answer_callback e sdp app"
| "run_effect e (OnIce candidate mid idx) app = ice_callback e candidate mid app"

fun run_effects :: "app_env \<Rightarrow> effect list \<Rightarrow> App \<Rightarrow> app_result" where
  "run_effects e [] app = Some ([], app)"
| "run_effects e (eff # effs) app =
     (case run_effect e eff app of
        None \<Rightarrow> None
      | Some (outs, app1) \<Rightarrow>
          (case run_effects e effs app1 of
             None \<Rightarrow> None
           | Some (outs1, app2) \<Rightarrow> Some (outs @ outs1, app2)))"

section \<open>main.cpp: events\<close>

text \<open>
  A line of the terminal; once the loop has seen the request to quit it takes none. The
  loop itself, and a signal while it waits for a line, are in \<open>Client_Main\<close>.
\<close>

definition app_line :: "app_env \<Rightarrow> string \<Rightarrow> App \<Rightarrow> app_result" where
  "app_line e line app =
     (if repl_quit (app_repl app) then Some ([], app)
      else case processLine (client_env.truncate e) line (app_repl app) (app_session app) of
        (effs, r, s) \<Rightarrow> run_effects e effs (app\<lparr>app_repl := r, app_session := s\<rparr>))"

text \<open>\<open>handler.handle(msg)\<close>; the flag tells whether an exception came out of it.\<close>

definition app_handle :: "app_env \<Rightarrow> string \<Rightarrow> App \<Rightarrow> (app_out list \<times> App \<times> bool) option" where
  "app_handle e raw app =
     (case client_handle (client_env.truncate e) (app_handler app) raw (app_session app) of
        None \<Rightarrow> None
      | Some (effs, s, exn) \<Rightarrow>
          (case run_effects e effs (app\<lparr>app_session := s\<rparr>) of
             None \<Rightarrow> None
           | Some (outs, app') \<Rightarrow> Some (outs, app', exn \<noteq> None)))"

text \<open>The last call of \<open>handle\<close> stands outside the \<open>try\<close>: its exception ends the process.\<close>

definition handle_uncaught :: "app_env \<Rightarrow> string \<Rightarrow> app_out list \<Rightarrow> App \<Rightarrow> app_result" where
  "handle_uncaught e raw outs app =
     (case app_handle e raw app of
        None \<Rightarrow> None
      | Some (outs', app', threw) \<Rightarrow> if threw then None else Some (outs @ outs', app'))"

text \<open>The message callback: the parts inside the \<open>try\<close> continue with \<open>k\<close>, or fall out of it.\<close>

definition handle_caught ::
    "app_env \<Rightarrow> string \<Rightarrow> (App \<Rightarrow> app_out list \<times> App \<times> bool) \<Rightarrow> App \<Rightarrow> app_result" where
  "handle_caught e raw k app =
     (case app_handle e raw app of
        None \<Rightarrow> None
      | Some (outs, app1, True) \<Rightarrow> handle_uncaught e raw outs app1
      | Some (outs, app1, False) \<Rightarrow>
          (case k app1 of
             (outs1, app2, True) \<Rightarrow> handle_uncaught e raw (outs @ outs1) app2
           | (outs1, app2, False) \<Rightarrow> Some (outs @ outs1, app2)))"

definition after_error :: "App \<Rightarrow> app_out list \<times> App \<times> bool" where
  "after_error app =
     (if cc_state (ses_call (app_session app)) = Calling then (case cleanupCall app of (outs, app) \<Rightarrow> (outs, app, False))
      else ([], app, False))"

definition after_rtc_config :: "app_env \<Rightarrow> App \<Rightarrow> app_out list \<times> App \<times> bool" where
  "after_rtc_config e app =
     (case initRtc e app of
        (outs, app, True) \<Rightarrow> (outs, app, True)
      | (outs, app, False) \<Rightarrow>
          if cc_state (ses_call (app_session app)) = Calling
          then (case startCall app of (outs1, app) \<Rightarrow> (outs @ outs1, app, False))
          else (outs, app, False))"

definition after_call_end :: "App \<Rightarrow> app_out list \<times> App \<times> bool" where
  "after_call_end app = (case cleanupCall app of (outs, app) \<Rightarrow> (outs, app, False))"

definition app_message :: "app_env \<Rightarrow> string \<Rightarrow> App \<Rightarrow> app_result" where
  "app_message e raw app =
     (case json_parse (ce_json e) raw of
        None \<Rightarrow> handle_uncaught e raw [] app
      | Some j \<Rightarrow>
          (case value_string (client_env.truncate e) j ''type'' [] of
             Inl _ \<Rightarrow> handle_uncaught e raw [] app
           | Inr type \<Rightarrow>
               if type = ''error'' then handle_caught e raw after_error app
               else if type = ''rtc.config'' then handle_caught e raw (after_rtc_config e) app
               else if type = ''call.ended'' \<or> type = ''call.failed'' then handle_caught e raw after_call_end app
               else handle_uncaught e raw [] app))"

text \<open>The end of the WebSocket: the read loop clears the flag, then runs the close callback.\<close>

definition app_ws_closed :: "App \<Rightarrow> app_out list \<times> App" where
  "app_ws_closed app =
     (let app = app\<lparr>app_ws := (app_ws app)\<lparr>ws_connected := False\<rparr>\<rparr>
      in if isInCall (app_session app) then
           (case cleanupCall app of (outs, app) \<Rightarrow>
              (Shown ''[ws] disconnected'' # outs @ [Shown ''[call] ended, reason: server disconnected''], app))
         else ([Shown ''[ws] disconnected''], app))"

text \<open>An attempt of the reconnect loop: the read thread is joined, then \<open>connect\<close> is called.\<close>

definition app_reconnect :: "app_env \<Rightarrow> App \<Rightarrow> app_result" where
  "app_reconnect e app =
     (case wsc_connect e (last_token (app_ws app)) ((app_ws app)\<lparr>read_thread_joinable := False\<rparr>) of
        None \<Rightarrow> None
      | Some (Inl ws) \<Rightarrow> Some ([], app\<lparr>app_ws := ws\<rparr>)
      | Some (Inr ws) \<Rightarrow> Some ([], app\<lparr>app_ws := ws\<rparr>))"

datatype rtc_state = Connecting | Connected | Failed | Disconnected | Closed

datatype rtc_event =
    StateChange rtc_state
  | LocalOffer string
  | LocalAnswer string
  | LocalCandidate string string
  | RemoteTrack
  | TrackMessage "sample list"

definition set_pc_connected :: "bool \<Rightarrow> App \<Rightarrow> App" where
  "set_pc_connected b app = app\<lparr>app_pc := map_option (\<lambda>pc. pc\<lparr>pc_connected := b\<rparr>) (app_pc app)\<rparr>"

definition failed_callback :: "app_env \<Rightarrow> App \<Rightarrow> app_out list \<times> App" where
  "failed_callback e app =
     (let call = cc_callId (ses_call (app_session app));
          outs = (if call \<noteq> [] then app_send (call_message (client_env.truncate e) ''call.hangup'' (app_session app)) app else [])
      in case cleanupCall app of (outs1, app) \<Rightarrow> (outs @ outs1, app))"

fun handleStateChange :: "app_env \<Rightarrow> rtc_state \<Rightarrow> App \<Rightarrow> app_out list \<times> App" where
  "handleStateChange e Connecting app = ([Shown ''[rtc] connecting...''], app)"
| "handleStateChange e Connected app =
     (let app = set_pc_connected True app
      in ([Shown ''[rtc] connected''], app\<lparr>app_session := set_state InCall (app_session app)\<rparr>))"
| "handleStateChange e Failed app =
     (case failed_callback e (set_pc_connected False app) of (outs, app) \<Rightarrow> (Shown (''[rtc] failed '' @ [CHR 0xE2, CHR 0x80, CHR 0x94] @ '' use '' @ [CHR 0x27] @ ''hangup'' @ [CHR 0x27] @ '' and call again'') # outs, app))"
| "handleStateChange e Disconnected app =
     (let app = set_pc_connected False app
      in ([Shown ''[rtc] disconnected''], app\<lparr>app_session := (app_session app)\<lparr>ses_call := no_call\<rparr>\<rparr>))"
| "handleStateChange e Closed app = ([], set_pc_connected False app)"

definition sdp_message :: "app_env \<Rightarrow> string \<Rightarrow> string \<Rightarrow> App \<Rightarrow> string" where
  "sdp_message e type sdp app =
     json_dump (ce_json e) (obj [(''type'', JStr type), (''callId'', JStr (cc_callId (ses_call (app_session app)))), (''sdp'', JStr sdp)])"

definition ice_message :: "app_env \<Rightarrow> string \<Rightarrow> string \<Rightarrow> App \<Rightarrow> string" where
  "ice_message e candidate mid app =
     json_dump (ce_json e) (obj [(''type'', JStr ''webrtc.ice''), (''callId'', JStr (cc_callId (ses_call (app_session app)))),
       (''candidate'', JStr candidate), (''mid'', JStr mid), (''mlineindex'', JInt 0)])"

text \<open>What libdatachannel reports of an existing connection.\<close>

fun rtc_callback :: "app_env \<Rightarrow> rtc_event \<Rightarrow> App \<Rightarrow> app_out list \<times> App" where
  "rtc_callback e (StateChange st) app = handleStateChange e st app"
| "rtc_callback e (LocalOffer sdp) app =
     (app_send (sdp_message e ''webrtc.offer'' sdp app) app @ [Shown ''[rtc] offer sent''], app)"
| "rtc_callback e (LocalAnswer sdp) app =
     (app_send (sdp_message e ''webrtc.answer'' sdp app) app @ [Shown ''[rtc] answer sent''], app)"
| "rtc_callback e (LocalCandidate candidate mid) app = (app_send (ice_message e candidate mid app) app, app)"
| "rtc_callback e RemoteTrack app = ([], app\<lparr>app_playback := map_option pb_start (app_playback app)\<rparr>)"
| "rtc_callback e (TrackMessage samples) app = ([], app\<lparr>app_playback := map_option (pb_write samples) (app_playback app)\<rparr>)"

definition app_rtc :: "app_env \<Rightarrow> rtc_event \<Rightarrow> App \<Rightarrow> app_out list \<times> App" where
  "app_rtc e ev app =
     (case app_pc app of Some pc \<Rightarrow> if pc_open pc then rtc_callback e ev app else ([], app) | None \<Rightarrow> ([], app))"

text \<open>A frame of the microphone, while the capture thread runs.\<close>

definition app_frame :: "sample list \<Rightarrow> App \<Rightarrow> app_out list \<times> App" where
  "app_frame frame app =
     (case app_capture app of
        None \<Rightarrow> ([], app)
      | Some cap \<Rightarrow>
          if \<not> cap_running cap then ([], app)
          else (case cap_frame frame cap of (data, cap') \<Rightarrow>
             (case app_pc app of
                None \<Rightarrow> []
              | Some pc \<Rightarrow> if pc_connected pc \<and> audio_track pc then [TrackSend data] else [],
              app\<lparr>app_capture := Some cap'\<rparr>)))"

definition signal_handler :: "App \<Rightarrow> App" where
  "signal_handler app =
     app\<lparr>app_session := (if isInCall (app_session app) then (app_session app)\<lparr>ses_call := no_call\<rparr> else app_session app),
         app_repl := (app_repl app)\<lparr>repl_quit := True\<rparr>\<rparr>"

datatype app_event =
    Line string | Message string | WsClosed | Reconnect | RtcEvent rtc_event | MicFrame "sample list" | Signal

fun app_step :: "app_env \<Rightarrow> app_event \<Rightarrow> App \<Rightarrow> app_result" where
  "app_step e (Line l) app = app_line e l app"
| "app_step e (Message m) app = app_message e m app"
| "app_step e WsClosed app = Some (app_ws_closed app)"
| "app_step e Reconnect app = app_reconnect e app"
| "app_step e (RtcEvent ev) app = Some (app_rtc e ev app)"
| "app_step e (MicFrame f) app = Some (app_frame f app)"
| "app_step e Signal app = Some ([], signal_handler app)"

fun app_run :: "app_env \<Rightarrow> app_event list \<Rightarrow> App \<Rightarrow> app_result" where
  "app_run e [] app = Some ([], app)"
| "app_run e (ev # evs) app =
     (case app_step e ev app of
        None \<Rightarrow> None
      | Some (outs, app1) \<Rightarrow>
          (case app_run e evs app1 of None \<Rightarrow> None | Some (outs1, app2) \<Rightarrow> Some (outs @ outs1, app2)))"

section \<open>What the handlers leave alone\<close>

lemma cleanupCall_fields:
  "cleanupCall app = (outs, app') \<Longrightarrow>
     app_handler app' = app_handler app \<and> app_ws app' = app_ws app \<and> app_repl app' = app_repl app \<and>
     (app_pc app' = app_pc app \<or> app_pc app' = None) \<and> set outs \<subseteq> {PcClose} \<and>
     (app_session app' = app_session app \<or> app_session app' = (app_session app)\<lparr>ses_call := no_call\<rparr>) \<and>
     (app_capture app' = app_capture app \<or> app_capture app' = map_option cap_stop (app_capture app))"
  by (auto simp: cleanupCall_def stopAudio_def close_pc_def pc_close_def Let_def split: if_splits option.splits)

lemma run_effect_fields:
  assumes "run_effect e eff app = Some (outs, app')"
  shows "app_session app' = app_session app \<and> app_pc app' = app_pc app \<and> app_handler app' = app_handler app \<and>
    app_sdp_handler app' = app_sdp_handler app \<and> app_ice_handler app' = app_ice_handler app \<and>
    call_cleanup_done app' = call_cleanup_done app \<and> (\<forall>d. TrackSend d \<notin> set outs) \<and>
    map_option cap_muted (app_capture app') = map_option cap_muted (app_capture app) \<and>
    map_option cap_running (app_capture app') = map_option cap_running (app_capture app)"
proof (cases eff)
  case (CaptureCb b f)
  then show ?thesis using assms
    by (auto simp: capture_callback_def startRecording_def stopRecording_def
        split: option.splits if_splits sum.splits wav_error.splits)
next
  case (SendfileCb f)
  then show ?thesis using assms
    by (auto simp: sendfile_callback_def split: wav_result.splits wav_error.splits)
next
  case OnLogin
  then show ?thesis using assms by (auto simp: login_callback_def split: option.splits sum.splits)
next
  case (OnOffer x)
  then show ?thesis using assms by (auto simp: offer_callback_def applyOffer_def split: option.splits if_splits)
next
  case (OnAnswer x)
  then show ?thesis using assms by (auto simp: answer_callback_def applyAnswer_def split: option.splits if_splits)
next
  case (OnIce x y z)
  then show ?thesis using assms by (auto simp: ice_callback_def addRemoteCandidate_def split: option.splits if_splits)
qed (use assms in \<open>auto simp: app_send_def wsc_send_def split: if_splits\<close>)

lemma run_effects_fields:
  "run_effects e effs app = Some (outs, app') \<Longrightarrow>
    app_session app' = app_session app \<and> app_pc app' = app_pc app \<and> app_handler app' = app_handler app \<and>
    app_sdp_handler app' = app_sdp_handler app \<and> app_ice_handler app' = app_ice_handler app \<and>
    call_cleanup_done app' = call_cleanup_done app \<and> (\<forall>d. TrackSend d \<notin> set outs) \<and>
    map_option cap_muted (app_capture app') = map_option cap_muted (app_capture app) \<and>
    map_option cap_running (app_capture app') = map_option cap_running (app_capture app)"
proof (induction effs arbitrary: app outs)
  case (Cons eff effs)
  obtain outs1 app1 outs2 where s: "run_effect e eff app = Some (outs1, app1)"
    "run_effects e effs app1 = Some (outs2, app')" "outs = outs1 @ outs2"
    using Cons.prems by (auto split: option.splits)
  show ?case using run_effect_fields [OF s(1)] Cons.IH [OF s(2)] s(3) by auto
qed simp

section \<open>Invariants of runs\<close>

text \<open>The microphone is never muted: nothing calls \<open>setMuted\<close>.\<close>

definition unmuted :: "App \<Rightarrow> bool" where
  "unmuted app = (map_option cap_muted (app_capture app) \<noteq> Some True)"

text \<open>A client that places no calls has no audio track.\<close>

definition callee_only :: "App \<Rightarrow> bool" where
  "callee_only app = (cc_state (ses_call (app_session app)) \<noteq> Calling \<and> map_option audio_track (app_pc app) \<noteq> Some True)"

text \<open>A step that keeps both, and sends no audio unless there is a track.\<close>

definition keeps :: "App \<Rightarrow> app_out list \<Rightarrow> App \<Rightarrow> bool" where
  "keeps app outs app' =
     ((unmuted app \<longrightarrow> unmuted app') \<and> (callee_only app \<longrightarrow> callee_only app' \<and> (\<forall>d. TrackSend d \<notin> set outs)))"

lemma keeps_trans: "keeps app outs app1 \<Longrightarrow> keeps app1 outs1 app2 \<Longrightarrow> keeps app (outs @ outs1) app2"
  by (auto simp: keeps_def)

lemma keeps_refl [simp]: "keeps app [] app"
  by (simp add: keeps_def)

lemma cleanupCall_keeps: "cleanupCall app = (outs, app') \<Longrightarrow> keeps app outs app'"
  by (auto simp: keeps_def unmuted_def callee_only_def cleanupCall_def stopAudio_def close_pc_def pc_close_def cap_stop_def no_call_def Let_def
      option.map_comp comp_def split: if_splits option.splits)

lemma run_effects_keeps:
  assumes "run_effects e effs (app\<lparr>app_repl := r, app_session := s\<rparr>) = Some (outs, app')"
    "cc_state (ses_call (app_session app)) \<noteq> Calling \<longrightarrow> cc_state (ses_call s) \<noteq> Calling"
  shows "keeps app outs app'"
  using run_effects_fields [OF assms(1)] assms(2) by (auto simp: keeps_def unmuted_def callee_only_def)

lemma app_line_keeps:
  assumes "cmd_name (parse_command line) \<noteq> ''call''" "app_line e line app = Some (outs, app')"
  shows "keeps app outs app'"
proof (cases "repl_quit (app_repl app)")
  case False
  obtain effs r s where p: "processLine (client_env.truncate e) line (app_repl app) (app_session app) = (effs, r, s)"
    by (metis prod_cases3)
  then have "run_effects e effs (app\<lparr>app_repl := r, app_session := s\<rparr>) = Some (outs, app')"
    using assms(2) False by (simp add: app_line_def)
  then show ?thesis using processLine_not_calling [OF assms(1) p] by (intro run_effects_keeps) auto
qed (use assms in \<open>simp add: app_line_def\<close>)

lemma app_handle_keeps:
  assumes "app_handle e raw app = Some (outs, app', threw)"
  shows "keeps app outs app'"
proof -
  obtain effs s exn where h: "client_handle (client_env.truncate e) (app_handler app) raw (app_session app) = Some (effs, s, exn)"
    and r: "run_effects e effs (app\<lparr>app_session := s\<rparr>) = Some (outs, app')"
    using assms by (auto simp: app_handle_def split: option.splits)
  show ?thesis
    by (rule run_effects_keeps [where r = "app_repl app" and s = s and effs = effs and e = e]) (use r client_handle_not_calling [OF h] in simp_all)
qed

lemma handle_uncaught_keeps:
  assumes "handle_uncaught e raw outs0 app = Some (outs, app')"
  shows "\<exists>outs1. outs = outs0 @ outs1 \<and> keeps app outs1 app'"
proof -
  obtain outs1 app1 threw where h: "app_handle e raw app = Some (outs1, app1, threw)"
    using assms by (auto simp: handle_uncaught_def split: option.splits)
  then have "outs = outs0 @ outs1 \<and> app' = app1"
    using assms by (simp add: handle_uncaught_def split: if_splits)
  then show ?thesis using app_handle_keeps [OF h] by blast
qed

lemma handle_caught_keeps:
  assumes "handle_caught e raw k app = Some (outs, app')"
    and k: "\<And>app outs app' b. k app = (outs, app', b) \<Longrightarrow> keeps app outs app'"
  shows "keeps app outs app'"
proof -
  obtain outs1 app1 threw where h: "app_handle e raw app = Some (outs1, app1, threw)"
    using assms(1) by (auto simp: handle_caught_def split: option.splits)
  obtain outs2 app2 b where k2: "k app1 = (outs2, app2, b)" by (metis prod_cases3)
  have "handle_uncaught e raw outs1 app1 = Some (outs, app') \<or>
    handle_uncaught e raw (outs1 @ outs2) app2 = Some (outs, app') \<or> outs = outs1 @ outs2 \<and> app' = app2"
    using assms(1) h k2 by (cases threw; cases b) (simp_all add: handle_caught_def)
  then consider "handle_uncaught e raw outs1 app1 = Some (outs, app')"
    | "handle_uncaught e raw (outs1 @ outs2) app2 = Some (outs, app')"
    | "outs = outs1 @ outs2" "app' = app2" by blast
  then show ?thesis
  proof cases
    case 1
    then obtain o3 where "outs = outs1 @ o3" "keeps app1 o3 app'" using handle_uncaught_keeps by blast
    then show ?thesis using keeps_trans [OF app_handle_keeps [OF h]] by simp
  next
    case 2
    then obtain o3 where "outs = (outs1 @ outs2) @ o3" "keeps app2 o3 app'" using handle_uncaught_keeps by blast
    then show ?thesis using keeps_trans [OF keeps_trans [OF app_handle_keeps [OF h] k [OF k2]]] by simp
  next
    case 3
    then show ?thesis using keeps_trans [OF app_handle_keeps [OF h] k [OF k2]] by simp
  qed
qed

lemma after_keeps:
  "after_error app = (outs, app', b) \<Longrightarrow> keeps app outs app'"
  "after_call_end app = (outs, app', b) \<Longrightarrow> keeps app outs app'"
  by (auto simp: after_error_def after_call_end_def intro: cleanupCall_keeps split: if_splits prod.splits)

lemma after_rtc_config_keeps:
  assumes "after_rtc_config e app = (outs, app', b)"
  shows "keeps app outs app'"
  using assms
  by (auto simp: after_rtc_config_def initRtc_def startCall_def createOffer_def pc_init_def pc_new_def cap_start_def
      keeps_def unmuted_def callee_only_def close_pc_def pc_close_def Let_def
      split: if_splits option.splits prod.splits bool.splits)

lemma if_chain_cases: "(if a then x else if b then y else if c then z else u) = r \<Longrightarrow> x = r \<or> y = r \<or> z = r \<or> u = r"
  by (cases a; cases b; cases c) simp_all

lemma app_message_cases:
  assumes "app_message e raw app = Some r"
  obtains "handle_uncaught e raw [] app = Some r" | "handle_caught e raw after_error app = Some r"
    | "handle_caught e raw (after_rtc_config e) app = Some r" | "handle_caught e raw after_call_end app = Some r"
proof (cases "json_parse (ce_json e) raw")
  case None
  then show ?thesis using assms that(1) by (simp add: app_message_def)
next
  case (Some j)
  show ?thesis
  proof (cases "value_string (client_env.truncate e) j ''type'' []")
    case (Inl x)
    then show ?thesis using assms that(1) Some by (simp add: app_message_def)
  next
    case (Inr type)
    then show ?thesis using if_chain_cases [OF assms [unfolded app_message_def Some option.case Inr sum.case]] that by blast
  qed
qed

lemma app_message_keeps:
  assumes "app_message e raw app = Some (outs, app')"
  shows "keeps app outs app'"
  using assms
proof (cases rule: app_message_cases)
  case 1
  then show ?thesis using handle_uncaught_keeps by fastforce
next
  case 2
  then show ?thesis using after_keeps(1) by (rule handle_caught_keeps)
next
  case 3
  then show ?thesis using after_rtc_config_keeps by (rule handle_caught_keeps)
next
  case 4
  then show ?thesis using after_keeps(2) by (rule handle_caught_keeps)
qed

lemma app_rtc_keeps: "app_rtc e ev app = (outs, app') \<Longrightarrow> keeps app outs app'"
proof -
  have set: "keeps app [] (set_pc_connected b app)" for b app
    by (auto simp: keeps_def unmuted_def callee_only_def set_pc_connected_def option.map_comp comp_def)
  assume "app_rtc e ev app = (outs, app')"
  then have "rtc_callback e ev app = (outs, app') \<or> outs = [] \<and> app' = app"
    by (cases "app_pc app") (simp_all add: app_rtc_def split: if_splits)
  then consider "rtc_callback e ev app = (outs, app')" | "outs = []" "app' = app" by blast
  then show ?thesis
  proof cases
    case 1
    show ?thesis
    proof (cases "ev = StateChange Failed")
      case True
      let ?app = "set_pc_connected False app"
      obtain outs1 app1 where c: "cleanupCall ?app = (outs1, app1)" by force
      have "app' = app1 \<and> (\<forall>d. TrackSend d \<notin> set outs - set outs1)"
        using 1 True c by (auto simp: failed_callback_def app_send_def wsc_send_def Let_def split: if_splits)
      then show ?thesis using keeps_trans [OF set cleanupCall_keeps [OF c]] by (auto simp: keeps_def)
    next
      case False
      then show ?thesis using 1
        by (cases "(e, ev, app)" rule: rtc_callback.cases; (simp; fail)?)
          (auto simp: keeps_def unmuted_def callee_only_def set_pc_connected_def app_send_def wsc_send_def no_call_def
            option.map_comp comp_def Let_def elim!: handleStateChange.elims split: if_splits)
    qed
  qed simp
qed

lemma app_frame_keeps: "app_frame f app = (outs, app') \<Longrightarrow> keeps app outs app'"
  by (auto simp: app_frame_def cap_frame_def keeps_def unmuted_def callee_only_def split: option.splits if_splits)

lemma app_ws_closed_keeps: "app_ws_closed app = (outs, app') \<Longrightarrow> keeps app outs app'"
proof -
  assume h: "app_ws_closed app = (outs, app')"
  let ?app = "app\<lparr>app_ws := (app_ws app)\<lparr>ws_connected := False\<rparr>\<rparr>"
  obtain outs1 app1 where c: "cleanupCall ?app = (outs1, app1)" by force
  have eq: "keeps ?app o1 a1 = keeps app o1 a1" for o1 a1 by (simp add: keeps_def unmuted_def callee_only_def)
  have "keeps app outs1 app1" using cleanupCall_keeps [OF c] eq by simp
  moreover have "keeps app [] ?app" by (simp add: keeps_def unmuted_def callee_only_def)
  ultimately show ?thesis using h c by (auto simp: app_ws_closed_def keeps_def Let_def split: if_splits)
qed

text \<open>The events of a user who answers calls and never places one.\<close>

definition no_call_line :: "app_event \<Rightarrow> bool" where
  "no_call_line ev = (case ev of Line l \<Rightarrow> cmd_name (parse_command l) \<noteq> ''call'' | _ \<Rightarrow> True)"

lemma app_step_keeps:
  assumes "app_step e ev app = Some (outs, app')" "no_call_line ev"
  shows "keeps app outs app'"
proof (cases ev)
  case (Line l)
  then show ?thesis using assms by (simp add: no_call_line_def app_line_keeps)
next
  case (Message m)
  then show ?thesis using assms app_message_keeps by simp
next
  case WsClosed
  then show ?thesis using assms app_ws_closed_keeps by simp
next
  case Reconnect
  then show ?thesis using assms
    by (auto simp: app_reconnect_def keeps_def unmuted_def callee_only_def split: option.splits sum.splits)
next
  case (RtcEvent r)
  then show ?thesis using assms app_rtc_keeps by simp
next
  case (MicFrame f)
  then show ?thesis using assms app_frame_keeps by simp
next
  case Signal
  then show ?thesis using assms by (auto simp: signal_handler_def keeps_def unmuted_def callee_only_def no_call_def split: if_splits)
qed

lemma app_run_keeps:
  "app_run e evs app = Some (outs, app') \<Longrightarrow> list_all no_call_line evs \<Longrightarrow> keeps app outs app'"
proof (induction evs arbitrary: app outs)
  case (Cons ev evs)
  obtain outs1 app1 outs2 where r: "app_step e ev app = Some (outs1, app1)" "app_run e evs app1 = Some (outs2, app')"
    "outs = outs1 @ outs2"
    using Cons.prems(1) by (auto split: option.splits)
  show ?case
    using keeps_trans [OF app_step_keeps [OF r(1)] Cons.IH [OF r(2)]] Cons.prems(2) r(3) by simp
qed simp

text \<open>Without the restriction on lines, the microphone still stays unmuted.\<close>

lemma app_line_unmuted:
  assumes "app_line e line app = Some (outs, app')" "unmuted app"
  shows "unmuted app'"
proof (cases "repl_quit (app_repl app)")
  case False
  obtain effs r s where "processLine (client_env.truncate e) line (app_repl app) (app_session app) = (effs, r, s)"
    by (metis prod_cases3)
  then have "run_effects e effs (app\<lparr>app_repl := r, app_session := s\<rparr>) = Some (outs, app')"
    using assms(1) False by (simp add: app_line_def)
  from run_effects_fields [OF this] assms(2) show ?thesis by (simp add: unmuted_def)
qed (use assms in \<open>simp add: app_line_def\<close>)

lemma app_run_unmuted:
  "app_run e evs app = Some (outs, app') \<Longrightarrow> unmuted app \<Longrightarrow> unmuted app'"
proof (induction evs arbitrary: app outs)
  case (Cons ev evs)
  obtain outs1 app1 outs2 where r: "app_step e ev app = Some (outs1, app1)" "app_run e evs app1 = Some (outs2, app')"
    using Cons.prems(1) by (auto split: option.splits)
  have "unmuted app1"
  proof (cases "no_call_line ev")
    case True
    then show ?thesis using app_step_keeps [OF r(1)] Cons.prems(2) by (simp add: keeps_def)
  next
    case False
    then obtain l where "ev = Line l" by (cases ev) (simp_all add: no_call_line_def)
    then show ?thesis using r(1) Cons.prems(2) app_line_unmuted by simp
  qed
  then show ?case using Cons.IH [OF r(2)] by simp
qed simp

section \<open>Properties\<close>

lemma mk_app_start [simp]: "unmuted mk_app" "callee_only mk_app"
  by (simp_all add: unmuted_def callee_only_def mk_app_def mk_session_state_def no_call_def)

text \<open>
  C33. The called party is never heard: whatever the server sends, the network reports and
  the microphone records, a client whose user only answers calls sends no audio, because
  the track audio is sent on is created only with an offer, by the calling side.
\<close>

theorem callee_sends_no_audio:
  assumes "app_run e evs mk_app = Some (outs, app)" "list_all no_call_line evs"
  shows "TrackSend d \<notin> set outs"
  using app_run_keeps [OF assms] by (simp add: keeps_def)

text \<open>The microphone frame of an open connection with a track.\<close>

definition streaming :: "App \<Rightarrow> bool" where
  "streaming app = (map_option cap_running (app_capture app) = Some True \<and>
     (case app_pc app of None \<Rightarrow> False | Some pc \<Rightarrow> pc_connected pc \<and> audio_track pc))"

lemma streaming_frame: "streaming app \<Longrightarrow> unmuted app \<Longrightarrow> fst (app_frame f app) = [TrackSend f]"
  by (auto simp: streaming_def unmuted_def app_frame_def cap_frame_def split: option.splits)

lemma run_effects_streaming:
  "run_effects e effs app = Some (outs, app') \<Longrightarrow> streaming app' = streaming app"
  using run_effects_fields [of e effs app outs app'] by (simp add: streaming_def)

lemma run_effects_quiet:
  "set effs \<subseteq> range WsSend \<union> range Print \<Longrightarrow> \<exists>outs app'. run_effects e effs app = Some (outs, app')"
proof (induction effs)
  case (Cons eff effs)
  then obtain outs app' where "run_effects e effs app = Some (outs, app')" by auto
  moreover have "\<exists>o1. run_effect e eff app = Some (o1, app)" using Cons.prems by auto
  ultimately show ?case by auto
qed simp

lemma hangup_line:
  assumes "isInCall (app_session app)" "\<not> repl_quit (app_repl app)"
  shows "\<exists>outs app'. app_line e ''hangup'' app = Some (outs, app') \<and> \<not> isInCall (app_session app') \<and>
    streaming app' = streaming app \<and> unmuted app' = unmuted app"
proof -
  have p: "parse_command ''hangup'' = \<lparr>cmd_name = ''hangup'', cmd_args = []\<rparr>" by code_simp
  have t: "map_of command_table ''hangup'' = Some cmd_hangup" by (simp add: command_table_def)
  obtain effs r s where pl: "processLine (client_env.truncate e) ''hangup'' (app_repl app) (app_session app) = (effs, r, s)"
    by (metis prod_cases3)
  have s: "ses_call s = no_call" "set effs \<subseteq> range WsSend \<union> range Print"
    using pl assms by (auto simp: processLine_def p t cmd_hangup_def Let_def split: if_splits)
  obtain outs app' where r: "run_effects e effs (app\<lparr>app_repl := r, app_session := s\<rparr>) = Some (outs, app')"
    using run_effects_quiet [OF s(2)] by blast
  then have "app_line e ''hangup'' app = Some (outs, app')" using pl assms(2) by (simp add: app_line_def)
  moreover have "\<not> isInCall (app_session app')"
    using run_effects_fields [OF r] s(1) by (simp add: isInCall_def no_call_def)
  moreover have "streaming app' = streaming app"
    using run_effects_streaming [OF r] by (simp add: streaming_def)
  moreover have "unmuted app' = unmuted app"
    using run_effects_fields [OF r] by (simp only: unmuted_def) simp
  ultimately show ?thesis by blast
qed

text \<open>
  C34. Neither \<open>mute\<close> nor \<open>hangup\<close> silences the microphone: in every state the client can reach
  with an open audio connection, a captured frame is sent unchanged, also when the session
  says that it is muted; and it still is after the user has hung up, until the other side
  or the server ends the connection.
\<close>

theorem microphone_stays_open:
  assumes "app_run e evs mk_app = Some (outs, app)" "streaming app"
  shows "fst (app_frame f app) = [TrackSend f] \<and>
    (isInCall (app_session app) \<and> \<not> repl_quit (app_repl app) \<longrightarrow>
      (\<exists>outs' app'. app_line e ''hangup'' app = Some (outs', app') \<and> \<not> isInCall (app_session app') \<and>
         fst (app_frame f app') = [TrackSend f]))"
  using streaming_frame [OF assms(2)] app_run_unmuted [OF assms(1)] hangup_line [of app e] assms(2)
  by (auto intro: streaming_frame)

text \<open>Surroundings with a few fixed messages, a server that accepts every login and a library that accepts everything.\<close>

definition demo_client_json :: json_lib where
  "demo_client_json = \<lparr>json_parse = (\<lambda>raw.
       if raw = ''token'' then Some (obj [(''token'', JStr ''t''), (''userId'', JStr ''u'')])
       else if raw = ''config'' then Some (obj [(''type'', JStr ''rtc.config''), (''iceServers'', JArr [])])
       else if raw = ''ended'' then Some (obj [(''type'', JStr ''call.ended''), (''callId'', JStr ''1''), (''reason'', JStr ''hangup'')])
       else if raw = ''ice'' then Some (obj [(''type'', JStr ''webrtc.ice''), (''callId'', JStr ''1''), (''candidate'', JStr ''c''),
         (''mid'', JStr ''0''), (''mlineindex'', JInt 0)])
       else None),
     json_dump = (\<lambda>j. ''json''), json_type_error = (\<lambda>j. ''type error'')\<rparr>"

definition demo_app_env :: app_env where
  "demo_app_env = \<lparr>ce_json = demo_client_json, ce_parse_error = (\<lambda>s. ''parse error''), ce_value_error = (\<lambda>j. ''value error''),
     ce_object_items = (\<lambda>m. []), ce_float_int = (\<lambda>f. 0), ce_post = (\<lambda>h p path b. Inr (200, ''token'')), ce_config = Map.empty,
     fs_openable = (\<lambda>f. True), fs_writable = (\<lambda>f. True), fs_file = (\<lambda>f. None), env_junk = (\<lambda>n. replicate n 0),
     rtc_url_ok = (\<lambda>u. True), rtc_sdp_ok = (\<lambda>s. True), rtc_candidate_ok = (\<lambda>c m. True), ws_connect_ok = (\<lambda>t. True)\<rparr>"

definition demo_events :: "app_event list" where
  "demo_events = [Line ''login u p'', Line ''call v'', Message ''config'', RtcEvent (StateChange Connected), Line ''mute'']"

lemma demo_lines:
  "parse_command ''login u p'' = \<lparr>cmd_name = ''login'', cmd_args = [''u'', ''p'']\<rparr>"
  "parse_command ''call v'' = \<lparr>cmd_name = ''call'', cmd_args = [''v'']\<rparr>"
  "parse_command ''mute'' = \<lparr>cmd_name = ''mute'', cmd_args = []\<rparr>"
  by code_simp+

lemmas demo_app_simps = demo_lines demo_app_env_def demo_client_json_def client_env.truncate_def command_table_def
  app_line_def processLine_def cmd_login_def cmd_call_def cmd_mute_def post_account_def isLoggedIn_def isInCall_def
  login_callback_def wsc_connect_def app_send_def wsc_send_def Let_def

lemma demo_run:
  "\<exists>outs app. app_run demo_app_env demo_events mk_app = Some (outs, app) \<and> streaming app \<and>
     cc_muted (ses_call (app_session app)) \<and> isInCall (app_session app) \<and> \<not> repl_quit (app_repl app)"
  by (simp add: demo_events_def demo_app_simps mk_app_def mk_session_state_def no_call_def
      app_message_def handle_caught_def app_handle_def client_handle_def handleRtcConfig_def
      after_rtc_config_def initRtc_def close_pc_def pc_init_def pc_new_def startCall_def createOffer_def cap_start_def
      app_rtc_def set_pc_connected_def streaming_def)

theorem microphone_stays_open_witness:
  "\<exists>outs app. app_run demo_app_env demo_events mk_app = Some (outs, app) \<and> cc_muted (ses_call (app_session app)) \<and>
     fst (app_frame [1, 2] app) = [TrackSend [1, 2]]"
proof -
  obtain outs app where r: "app_run demo_app_env demo_events mk_app = Some (outs, app)" "streaming app"
    "cc_muted (ses_call (app_session app))" using demo_run by blast
  with microphone_stays_open [OF r(1,2), of "[1, 2]"] show ?thesis by blast
qed

theorem callee_sends_no_audio_witness:
  "\<exists>outs app. app_run demo_app_env [Message ''config'', RtcEvent (StateChange Connected), MicFrame [1, 2]] mk_app = Some (outs, app)
     \<and> TrackSend [1, 2] \<notin> set outs"
proof -
  have "\<exists>outs app. app_run demo_app_env [Message ''config'', RtcEvent (StateChange Connected), MicFrame [1, 2]] mk_app = Some (outs, app)"
    by (simp add: demo_app_simps mk_app_def mk_session_state_def no_call_def
      app_message_def handle_caught_def app_handle_def client_handle_def handleRtcConfig_def
      after_rtc_config_def initRtc_def close_pc_def pc_init_def pc_new_def cap_start_def
      app_rtc_def set_pc_connected_def app_frame_def cap_frame_def)
  then obtain outs app where
    r: "app_run demo_app_env [Message ''config'', RtcEvent (StateChange Connected), MicFrame [1, 2]] mk_app = Some (outs, app)" by blast
  have "list_all no_call_line [Message ''config'', RtcEvent (StateChange Connected), MicFrame [1, 2]]"
    by (simp add: no_call_line_def)
  with callee_sends_no_audio [OF r] r show ?thesis by blast
qed

text \<open>
  A candidate that arrives after the end of a call ends the client: once a connection
  has been set up, the callbacks of the message handler stay in place, but the end of the
  call, told by the server, deletes the objects they use. The next ICE candidate
  then dereferences a null pointer.
\<close>

lemma late_candidate_ends_client:
  assumes "on_ice_set (app_handler app)" "\<not> call_cleanup_done app"
    and "json_parse (ce_json e) ended = Some (obj [(''type'', JStr ''call.ended''), (''callId'', JStr call), (''reason'', JStr why)])"
    and "json_parse (ce_json e) ice = Some (obj [(''type'', JStr ''webrtc.ice''), (''callId'', JStr call), (''candidate'', JStr c),
           (''mid'', JStr mid), (''mlineindex'', JInt 0)])"
  shows "(\<exists>outs app'. app_run e [Message ended] app = Some (outs, app') \<and> \<not> isInCall (app_session app')) \<and>
    app_run e [Message ended, Message ice] app = None"
proof -
  let ?app = "app\<lparr>app_session := (app_session app)\<lparr>ses_call := no_call\<rparr>\<rparr>"
  obtain outs app1 where c: "cleanupCall ?app = (outs, app1)" by force
  have 1: "app_message e ended app = Some (Shown (''[call] ended, reason: '' @ why) # outs, app1)"
    using assms(3) c
    by (simp add: app_message_def handle_caught_def app_handle_def client_handle_def client_env.truncate_def
        handleCallEnded_def with_string_def after_call_end_def)
  have a1: "on_ice_set (app_handler app1)" "\<not> app_ice_handler app1" "\<not> isInCall (app_session app1)"
    using c assms(1,2) by (auto simp: cleanupCall_def stopAudio_def isInCall_def no_call_def Let_def)
  then have "app_message e ice app1 = None"
    using assms(4)
    by (simp add: app_message_def handle_uncaught_def app_handle_def client_handle_def client_env.truncate_def
        handleWebrtcIce_def with_string_def as_string_def ice_callback_def)
  with 1 a1(3) show ?thesis by simp
qed

text \<open>The state in which the terminal takes lines and a login connects.\<close>

definition accepts_login :: "App \<Rightarrow> bool" where
  "accepts_login app = (\<not> repl_quit (app_repl app) \<and> on_login_set (app_repl app) \<and> \<not> cmds_quit (repl_commands (app_repl app)))"

lemma login_line:
  assumes "accepts_login app" "parse_command line = \<lparr>cmd_name = ''login'', cmd_args = [u, p]\<rparr>"
    and "post_account (client_env.truncate e) ''/api/auth/login'' [u, p] = Inr (200, body)"
    and "json_parse (ce_json e) body = Some (obj [(''token'', JStr token), (''userId'', JStr user)])" "token \<noteq> []"
    and "ws_connect_ok e token"
  shows "if read_thread_joinable (app_ws app) then app_line e line app = None
    else \<exists>outs app'. app_line e line app = Some (outs, app') \<and> accepts_login app' \<and> read_thread_joinable (app_ws app') \<and>
      ws_connected (app_ws app') \<and> ses_jwt (app_session app') = token \<and> ses_userId (app_session app') = user"
proof -
  have ne: "line \<noteq> []" using assms(2) by (auto simp: parse_command_def tokens.simps)
  have pj: "json_parse (ce_json (client_env.truncate e)) body = Some (obj [(''token'', JStr token), (''userId'', JStr user)])"
    using assms(4) by (simp add: client_env.truncate_def)
  let ?s = "(app_session app)\<lparr>ses_userId := user, ses_jwt := token\<rparr>"
  have "cmd_login (client_env.truncate e) [u, p] c (app_session app) = (done_with (''logged in as '' @ user), [], ?s)" for c
    using assms(3,5) pj by (simp add: cmd_login_def Let_def)
  moreover have "map_of command_table ''login'' = Some cmd_login" by (simp add: command_table_def)
  ultimately have "\<exists>r. processLine (client_env.truncate e) line (app_repl app) (app_session app)
      = ([OnLogin, Print (''logged in as '' @ user)], r, ?s) \<and> \<not> repl_quit r \<and> on_login_set r \<and> \<not> cmds_quit (repl_commands r)"
    using assms(1,2) ne by (simp add: processLine_def accepts_login_def Let_def)
  then show ?thesis using assms(1,6)
    by (auto simp: app_line_def accepts_login_def login_callback_def wsc_connect_def Let_def)
qed

text \<open>
  Logging in twice ends the client: a second successful login connects a second
  WebSocket and assigns its reader to the thread object of the first, which is joinable.
\<close>

lemma second_login_ends_client:
  assumes "accepts_login app" "parse_command line = \<lparr>cmd_name = ''login'', cmd_args = [u, p]\<rparr>"
    and "post_account (client_env.truncate e) ''/api/auth/login'' [u, p] = Inr (200, body)"
    and "json_parse (ce_json e) body = Some (obj [(''token'', JStr token), (''userId'', JStr user)])" "token \<noteq> []"
    and "ws_connect_ok e token"
  shows "app_run e [Line line, Line line] app = None"
proof (cases "read_thread_joinable (app_ws app)")
  case True
  then show ?thesis using login_line [OF assms] by simp
next
  case False
  then obtain outs app' where 1: "app_line e line app = Some (outs, app')" "accepts_login app'" "read_thread_joinable (app_ws app')"
    using login_line [OF assms] by auto
  then show ?thesis using login_line [OF 1(2) assms(2-6)] by simp
qed

end
