(* ===== verification/Voice_Call.thy ===== *)
theory Voice_Call
  imports Turn_Server Backend Client_App
begin

text \<open>
  The system: clients, each with a web socket to the backend, and the backend. A web socket
  is a queue of messages in either direction, named by the number of its session in the
  backend. The clients' and the backend's handlers are those of \<open>Client_App\<close> and \<open>Backend\<close>;
  the writes of the backend complete at once.
\<close>

section \<open>The composed system\<close>

record System =
  sy_backend :: Backend
  sy_client :: "session_id \<Rightarrow> App"
  sy_up :: "session_id \<Rightarrow> string list"
  sy_down :: "session_id \<Rightarrow> string list"

datatype sys_event = Local session_id app_event | ServerReads session_id | ClientReads session_id

fun sent_message :: "app_out \<Rightarrow> string list" where
  "sent_message (Sent m) = [m]"
| "sent_message _ = []"

definition client_acts :: "session_id \<Rightarrow> app_out list \<Rightarrow> App \<Rightarrow> System \<Rightarrow> System" where
  "client_acts sid outs app sys =
     sys\<lparr>sy_client := (sy_client sys)(sid := app),
         sy_up := (sy_up sys)(sid := sy_up sys sid @ concat (map sent_message outs))\<rparr>"

fun transfer :: "backend_out \<Rightarrow> System \<Rightarrow> System" where
  "transfer (WriteStarted sid m) sys =
     sys\<lparr>sy_backend := be_write_done sid False (sy_backend sys), sy_down := (sy_down sys)(sid := sy_down sys sid @ [m])\<rparr>"
| "transfer _ sys = sys"

type_synonym sys_result = "((session_id \<times> app_out) list \<times> System) option"

fun sys_step :: "backend_env \<Rightarrow> app_env \<Rightarrow> sys_event \<Rightarrow> System \<Rightarrow> sys_result" where
  "sys_step eb ec (Local sid ev) sys =
     (case app_step ec ev (sy_client sys sid) of
        None \<Rightarrow> None
      | Some (outs, app) \<Rightarrow> Some (map (Pair sid) outs, client_acts sid outs app sys))"
| "sys_step eb ec (ServerReads sid) sys =
     (case sy_up sys sid of
        [] \<Rightarrow> Some ([], sys)
      | m # ms \<Rightarrow>
          (case be_message eb sid m (sy_backend sys) of
             None \<Rightarrow> None
           | Some (outs, be) \<Rightarrow> Some ([], fold transfer outs (sys\<lparr>sy_backend := be, sy_up := (sy_up sys)(sid := ms)\<rparr>))))"
| "sys_step eb ec (ClientReads sid) sys =
     (case sy_down sys sid of
        [] \<Rightarrow> Some ([], sys)
      | m # ms \<Rightarrow>
          (case app_step ec (app_event.Message m) (sy_client sys sid) of
             None \<Rightarrow> None
           | Some (outs, app) \<Rightarrow>
               Some (map (Pair sid) outs, client_acts sid outs app (sys\<lparr>sy_down := (sy_down sys)(sid := ms)\<rparr>))))"

fun sys_run :: "backend_env \<Rightarrow> app_env \<Rightarrow> sys_event list \<Rightarrow> System \<Rightarrow> sys_result" where
  "sys_run eb ec [] sys = Some ([], sys)"
| "sys_run eb ec (ev # evs) sys =
     (case sys_step eb ec ev sys of
        None \<Rightarrow> None
      | Some (outs, sys1) \<Rightarrow>
          (case sys_run eb ec evs sys1 of None \<Rightarrow> None | Some (outs1, sys2) \<Rightarrow> Some (outs @ outs1, sys2)))"

section \<open>What the client does with each message of a call\<close>

text \<open>A client with a connected web socket whose terminal takes lines.\<close>

definition online :: "App \<Rightarrow> bool" where
  "online app \<longleftrightarrow> isLoggedIn (app_session app) \<and> ws_connected (app_ws app) \<and> \<not> repl_quit (app_repl app)
     \<and> ws_send_set (repl_commands (app_repl app)) \<and> \<not> cmds_quit (repl_commands (app_repl app))"

abbreviation client_call :: "App \<Rightarrow> CallContext" where
  "client_call app \<equiv> ses_call (app_session app)"

abbreviation set_client_call :: "CallContext \<Rightarrow> App \<Rightarrow> App" where
  "set_client_call c app \<equiv> app\<lparr>app_session := (app_session app)\<lparr>ses_call := c\<rparr>\<rparr>"

text \<open>The line of a command whose effects are a message and a printed line.\<close>

lemma command_line:
  assumes "online app" "parse_command line = \<lparr>cmd_name = name, cmd_args = args\<rparr>" "name \<notin> {[], ''login'', ''quit'', ''exit''}"
    and "map_of command_table name = Some f"
    and "f (client_env.truncate e) args (repl_commands (app_repl app)) (app_session app) = (done_with m, [WsSend w], s)" "m \<noteq> []"
  shows "app_line e line app = Some ([Sent w, Shown m], app\<lparr>app_session := s\<rparr>)"
proof -
  have ne: "line \<noteq> []" using assms(2,3) by (auto simp: parse_command_def tokens.simps)
  have "processLine (client_env.truncate e) line (app_repl app) (app_session app) = ([WsSend w, Print m], app_repl app, s)"
    using assms(1-6) ne by (simp add: processLine_def online_def Let_def)
  then show ?thesis using assms(1) by (simp add: app_line_def online_def app_send_def wsc_send_def)
qed

lemma tokens_word:
  assumes "w \<noteq> []" "list_all (\<lambda>c. \<not> is_space c) w"
  shows "tokens w = [w]"
proof -
  have d: "dropWhile is_space w = w" using assms by (cases w) auto
  have t: "takeWhile (\<lambda>c. \<not> is_space c) w = w" "dropWhile (\<lambda>c. \<not> is_space c) w = []"
    using assms(2) by (auto simp: list_all_iff takeWhile_eq_all_conv)
  have "tokens [] = []" by (simp add: tokens.simps)
  then show ?thesis using assms(1) by (subst tokens.simps) (simp add: d t)
qed

lemma parse_call_line:
  assumes "b \<noteq> []" "list_all (\<lambda>c. \<not> is_space c) b"
  shows "parse_command (''call '' @ b) = \<lparr>cmd_name = ''call'', cmd_args = [b]\<rparr>"
proof -
  have sp: "is_space CHR '' ''" "\<not> is_space CHR ''c''" "\<not> is_space CHR ''a''" "\<not> is_space CHR ''l''"
    by (simp_all add: is_space_def)
  have "tokens (CHR '' '' # b) = tokens b" by (simp add: tokens.simps [of "CHR '' '' # b"] tokens.simps [of b] sp)
  then have "tokens (''call '' @ b) = [''call'', b]"
    using tokens_word [OF assms] by (subst tokens.simps) (simp add: sp)
  then show ?thesis by (simp add: parse_command_def)
qed

text \<open>The messages of a call.\<close>

abbreviation create_msg :: "string \<Rightarrow> json" where
  "create_msg b \<equiv> obj [(''type'', JStr ''call.create''), (''to'', JStr b)]"

abbreviation created_msg :: "string \<Rightarrow> json" where
  "created_msg k \<equiv> obj [(''type'', JStr ''call.created''), (''callId'', JStr k)]"

abbreviation incoming_msg :: "string \<Rightarrow> string \<Rightarrow> json" where
  "incoming_msg k a \<equiv> obj [(''type'', JStr ''call.incoming''), (''callId'', JStr k), (''from'', JStr a)]"

abbreviation accept_msg :: "string \<Rightarrow> json" where
  "accept_msg k \<equiv> obj [(''type'', JStr ''call.accept''), (''callId'', JStr k)]"

abbreviation hangup_msg :: "string \<Rightarrow> json" where
  "hangup_msg k \<equiv> obj [(''type'', JStr ''call.hangup''), (''callId'', JStr k)]"

abbreviation sdp_msg :: "string \<Rightarrow> string \<Rightarrow> string \<Rightarrow> json" where
  "sdp_msg ty k sdp \<equiv> obj [(''type'', JStr ty), (''callId'', JStr k), (''sdp'', JStr sdp)]"

definition ice_config :: "TurnConfig \<Rightarrow> string \<Rightarrow> string \<Rightarrow> (string \<times> json) list" where
  "ice_config cfg user password =
     [(''iceServers'', JArr [obj [(''urls'', turn_urls cfg), (''username'', JStr user), (''credential'', JStr password)]])]"

definition config_msg :: "string \<Rightarrow> TurnConfig \<Rightarrow> string \<Rightarrow> string \<Rightarrow> json" where
  "config_msg k cfg user password =
     obj ((''callId'', JStr k) # (''type'', JStr ''rtc.config'') # ice_config cfg user password)"

lemma line_call:
  assumes "online app" "\<not> isInCall (app_session app)" "b \<noteq> []" "list_all (\<lambda>c. \<not> is_space c) b" "b \<noteq> ses_userId (app_session app)"
  shows "app_line e (''call '' @ b) app = Some ([Sent (json_dump (ce_json e) (create_msg b)), Shown (''calling '' @ b)],
    set_client_call ((client_call app)\<lparr>remoteUser := b, cc_state := Calling, is_caller := True\<rparr>) app)"
  using assms(1) parse_call_line [OF assms(3,4)]
proof (rule command_line)
  show "map_of command_table ''call'' = Some cmd_call" by (simp add: command_table_def)
qed (use assms in \<open>simp_all add: cmd_call_def online_def client_env.truncate_def\<close>)

lemma line_accept:
  assumes "online app" "cc_state (client_call app) = AppState.Ringing"
  shows "app_line e ''accept'' app = Some ([Sent (json_dump (ce_json e) (accept_msg (cc_callId (client_call app)))), Shown ''call accepted''],
    set_client_call ((client_call app)\<lparr>cc_state := InCall\<rparr>) app)"
  using assms(1)
proof (rule command_line)
  show "parse_command ''accept'' = \<lparr>cmd_name = ''accept'', cmd_args = []\<rparr>" by code_simp
  show "map_of command_table ''accept'' = Some cmd_accept" by (simp add: command_table_def)
qed (use assms in \<open>simp_all add: cmd_accept_def call_message_def online_def client_env.truncate_def\<close>)

lemma line_hangup:
  assumes "online app" "isInCall (app_session app)"
  shows "app_line e ''hangup'' app = Some ([Sent (json_dump (ce_json e) (hangup_msg (cc_callId (client_call app)))), Shown ''call ended''],
    set_client_call no_call app)"
  using assms(1)
proof (rule command_line)
  show "parse_command ''hangup'' = \<lparr>cmd_name = ''hangup'', cmd_args = []\<rparr>" by code_simp
  show "map_of command_table ''hangup'' = Some cmd_hangup" by (simp add: command_table_def)
qed (use assms in \<open>simp_all add: cmd_hangup_def call_message_def online_def client_env.truncate_def\<close>)

named_theorems reading_defs

lemmas [reading_defs] = json_ok_def app_message_def handle_caught_def handle_uncaught_def app_handle_def client_handle_def
  client_env.truncate_def with_string_def

lemma read_created:
  "json_ok (ce_json e) (created_msg k) \<Longrightarrow>
   app_message e (json_dump (ce_json e) (created_msg k)) app =
     Some ([Shown (''[call] created, callId: '' @ k)], set_client_call ((client_call app)\<lparr>cc_callId := k\<rparr>) app)"
  by (simp add: reading_defs handleCallCreated_def)

lemma read_incoming:
  assumes "json_ok (ce_json e) (incoming_msg k a)"
  obtains shown where "app_message e (json_dump (ce_json e) (incoming_msg k a)) app =
     Some ([Shown shown], set_client_call
       ((client_call app)\<lparr>cc_callId := k, remoteUser := a, cc_state := AppState.Ringing, is_caller := False\<rparr>) app)"
  using assms by (simp add: reading_defs handleCallIncoming_def)

text \<open>The connection a client sets up when it gets the RTC configuration.\<close>

definition set_up_call :: "ClientTurnConfig \<Rightarrow> bool \<Rightarrow> App \<Rightarrow> App" where
  "set_up_call tc track app = app\<lparr>app_session := (app_session app)\<lparr>turnConfig := tc\<rparr>, call_cleanup_done := False,
     app_pc := Some \<lparr>pc_open = True, pc_connected = False, audio_track = track\<rparr>, app_sdp_handler := True, app_ice_handler := True,
     app_handler := \<lparr>on_offer_set = True, on_answer_set = True, on_ice_set = True\<rparr>,
     app_capture := Some cap_start, app_playback := Some (mk_playback 48000 20)\<rparr>"

abbreviation turn_url :: "TurnConfig \<Rightarrow> string" where
  "turn_url cfg \<equiv> ''turn:'' @ tc_host cfg @ '':'' @ to_string (uint (tc_port_plain cfg))"

abbreviation turns_url :: "TurnConfig \<Rightarrow> string" where
  "turns_url cfg \<equiv> ''turns:'' @ tc_host cfg @ '':'' @ to_string (uint (tc_port_tls cfg))"

text \<open>The server URLs reach the library as they were meant.\<close>

definition urls_ok :: "app_env \<Rightarrow> TurnConfig \<Rightarrow> bool" where
  "urls_ok e cfg \<longleftrightarrow> find_substr ''turns:'' (turn_url cfg) = None \<and> rtc_url_ok e (turn_url cfg) \<and> rtc_url_ok e (turns_url cfg)"

lemma read_config:
  fixes app :: App and cfg :: TurnConfig
  assumes "json_ok (ce_json e) (config_msg k cfg user password)" "urls_ok e cfg"
  defines "tc \<equiv> \<lparr>turnUrl = turn_url cfg, turnsUrl = turns_url cfg, tcfg_username = user, tcfg_credential = password,
     tcfg_ttl = tcfg_ttl (turnConfig (app_session app))\<rparr>"
  obtains shown where "app_message e (json_dump (ce_json e) (config_msg k cfg user password)) app =
     Some (Shown shown # close_pc app @ [PcCreate tc] @ (if cc_state (client_call app) = Calling then [PcOffer] else []),
           set_up_call tc (cc_state (client_call app) = Calling) app)"
proof -
  let ?s = "(app_session app)\<lparr>turnConfig := tc\<rparr>"
  have u: "take_url (turns_url cfg) (take_url (turn_url cfg) t) = t\<lparr>turnUrl := turn_url cfg, turnsUrl := turns_url cfg\<rparr>" for t
    using assms(2) by (simp add: take_url_def starts_with_def urls_ok_def)
  have h: "handleRtcConfig (client_env.truncate e) (config_msg k cfg user password) (app_session app)
      = Some (handled_ok [Print (''[rtc] config received, turn: '' @ turn_url cfg)] ?s)"
    using u [simplified] by (simp add: handleRtcConfig_def config_msg_def ice_config_def take_server_def turn_urls_def tc_def)
  have "app_handle e (json_dump (ce_json e) (config_msg k cfg user password)) app
      = Some ([Shown (''[rtc] config received, turn: '' @ turn_url cfg)], app\<lparr>app_session := ?s\<rparr>, False)"
    using assms(1) h by (simp add: json_ok_def app_handle_def client_handle_def client_env.truncate_def config_msg_def)
  moreover have "after_rtc_config e (app\<lparr>app_session := ?s\<rparr>) =
      (close_pc app @ [PcCreate tc] @ (if cc_state (client_call app) = Calling then [PcOffer] else []),
       set_up_call tc (cc_state (client_call app) = Calling) app, False)"
    using assms(2) by (simp add: after_rtc_config_def initRtc_def pc_init_def pc_new_def close_pc_def tc_def urls_ok_def
        set_up_call_def startCall_def createOffer_def Let_def)
  ultimately have "app_message e (json_dump (ce_json e) (config_msg k cfg user password)) app =
     Some (Shown (''[rtc] config received, turn: '' @ turn_url cfg) # close_pc app @ [PcCreate tc] @
             (if cc_state (client_call app) = Calling then [PcOffer] else []),
           set_up_call tc (cc_state (client_call app) = Calling) app)"
    using assms(1) by (simp add: json_ok_def app_message_def handle_caught_def client_env.truncate_def config_msg_def)
  then show ?thesis by (rule that)
qed

text \<open>Descriptions on their way between the connections.\<close>

definition negotiating :: "App \<Rightarrow> bool" where
  "negotiating app \<longleftrightarrow> app_sdp_handler app \<and> on_offer_set (app_handler app) \<and> on_answer_set (app_handler app)
     \<and> ws_connected (app_ws app) \<and> (case app_pc app of None \<Rightarrow> False | Some pc \<Rightarrow> pc_open pc)"

lemma read_offer:
  assumes "json_ok (ce_json e) (sdp_msg ''webrtc.offer'' k sdp)" "negotiating app" "\<not> is_caller (client_call app)" "rtc_sdp_ok e sdp"
  shows "app_message e (json_dump (ce_json e) (sdp_msg ''webrtc.offer'' k sdp)) app = Some ([PcRemoteOffer sdp], app)"
  using assms
  by (auto simp: reading_defs handleWebrtcOffer_def as_string_def offer_callback_def applyOffer_def negotiating_def split: option.splits)

lemma read_answer:
  assumes "json_ok (ce_json e) (sdp_msg ''webrtc.answer'' k sdp)" "negotiating app" "is_caller (client_call app)" "rtc_sdp_ok e sdp"
  shows "app_message e (json_dump (ce_json e) (sdp_msg ''webrtc.answer'' k sdp)) app
    = Some ([PcRemoteAnswer sdp, Shown ''[rtc] answer applied''], app)"
  using assms
  by (auto simp: reading_defs handleWebrtcAnswer_def as_string_def answer_callback_def applyAnswer_def negotiating_def split: option.splits)

lemma local_description:
  assumes "negotiating app"
  shows "app_rtc e (LocalOffer sdp) app =
      ([Sent (json_dump (ce_json e) (sdp_msg ''webrtc.offer'' (cc_callId (client_call app)) sdp)), Shown ''[rtc] offer sent''], app)"
    "app_rtc e (LocalAnswer sdp) app =
      ([Sent (json_dump (ce_json e) (sdp_msg ''webrtc.answer'' (cc_callId (client_call app)) sdp)), Shown ''[rtc] answer sent''], app)"
  using assms by (auto simp: app_rtc_def negotiating_def app_send_def wsc_send_def sdp_message_def split: option.splits)

lemma set_up_negotiating [simp]: "negotiating (set_up_call tc track app) = ws_connected (app_ws app)"
  by (simp add: negotiating_def set_up_call_def)

section \<open>What the system does at each step\<close>

abbreviation queued :: "(session_id \<Rightarrow> string list) \<Rightarrow> (session_id \<times> string) list \<Rightarrow> session_id \<Rightarrow> string list" where
  "queued q ds \<equiv> fold (\<lambda>(sid, m) q. q(sid := q sid @ [m])) ds q"

lemma transfer_all:
  assumes "be_writing (sy_backend sys) = map fst ds" "list_all (\<lambda>(sid, m). um_find (be_sessions (sy_backend sys)) sid \<noteq> None) ds"
  shows "fold transfer (map (\<lambda>(sid, m). WriteStarted sid m) ds) sys =
    sys\<lparr>sy_backend := (sy_backend sys)\<lparr>be_writing := []\<rparr>, sy_down := queued (sy_down sys) ds\<rparr>"
  using assms
proof (induction ds arbitrary: sys)
  case (Cons d ds)
  obtain sid m where d: "d = (sid, m)" by (cases d)
  have "be_write_done sid False (sy_backend sys) = (sy_backend sys)\<lparr>be_writing := map fst ds\<rparr>"
    using Cons.prems d by (auto simp: be_write_done_def)
  then show ?case using Cons.IH [of "transfer (WriteStarted sid m) sys"] Cons.prems(2) d by simp
qed simp

text \<open>The backend reads a message of a user; its answers reach the sessions of their receivers.\<close>

lemma server_reads:
  assumes "sy_up sys sid = [m]" "um_find (be_sessions (sy_backend sys)) sid = Some \<lparr>wss_userId = user, wss_reading = True\<rparr>"
    and "be_inv secret cfg V (sy_backend sys)" "be_writing (sy_backend sys) = []"
    and "handle (be_router_env eb cfg) user m (be_calls (sy_backend sys)) = Some (outs, cm)"
    and "deliver outs (be_ws (sy_backend sys)) = ds"
  shows "sys_step eb ec (ServerReads sid) sys = Some ([],
    sys\<lparr>sy_backend := (sy_backend sys)\<lparr>be_calls := cm\<rparr>, sy_up := (sy_up sys)(sid := []), sy_down := queued (sy_down sys) ds\<rparr>)"
proof -
  let ?be = "sy_backend sys"
  let ?sys = "sys\<lparr>sy_backend := ?be\<lparr>be_calls := cm, be_writing := map fst ds\<rparr>, sy_up := (sy_up sys)(sid := [])\<rparr>"
  have cfg: "be_turn ?be = cfg" using assms(3) by (simp add: be_inv_def)
  have "list_all (\<lambda>(sid, m). um_find (be_sessions ?be) sid \<noteq> None) ds"
    using deliver_set [of _ _ outs "be_ws ?be"] assms(3,6) by (fastforce simp: list_all_iff be_inv_def)
  moreover have "be_message eb sid m ?be = Some (map (\<lambda>(sid, m). WriteStarted sid m) ds, ?be\<lparr>be_calls := cm, be_writing := map fst ds\<rparr>)"
    using assms(2,4-6) cfg by (simp add: be_message_def do_sends_def)
  ultimately show ?thesis
    using assms(1,4) transfer_all [of ?sys ds] by simp
qed

section \<open>The phases of a call\<close>

text \<open>Two users, each with a client whose web socket is registered for the user; nothing is in flight.\<close>

definition pair_ready :: "string \<Rightarrow> TurnConfig \<Rightarrow> session_id \<Rightarrow> string \<Rightarrow> session_id \<Rightarrow> string \<Rightarrow> System \<Rightarrow> bool" where
  "pair_ready secret cfg A a B b sys \<longleftrightarrow>
     be_inv secret cfg (\<lambda>_. True) (sy_backend sys) \<and> be_writing (sy_backend sys) = []
   \<and> um_find (ws_sessions (be_ws (sy_backend sys))) a = Some A \<and> um_find (ws_sessions (be_ws (sy_backend sys))) b = Some B
   \<and> sy_up sys A = [] \<and> sy_up sys B = [] \<and> sy_down sys A = [] \<and> sy_down sys B = []
   \<and> online (sy_client sys A) \<and> online (sy_client sys B)"

lemma pair_ready_sessions:
  assumes "pair_ready secret cfg A a B b sys"
  shows "um_find (be_sessions (sy_backend sys)) A = Some \<lparr>wss_userId = a, wss_reading = True\<rparr>"
    "um_find (be_sessions (sy_backend sys)) B = Some \<lparr>wss_userId = b, wss_reading = True\<rparr>"
    "a \<noteq> b \<Longrightarrow> A \<noteq> B"
proof -
  show s: "um_find (be_sessions (sy_backend sys)) A = Some \<lparr>wss_userId = a, wss_reading = True\<rparr>"
    "um_find (be_sessions (sy_backend sys)) B = Some \<lparr>wss_userId = b, wss_reading = True\<rparr>"
    using assms by (simp_all add: pair_ready_def be_inv_def)
  then show "a \<noteq> b \<Longrightarrow> A \<noteq> B" by auto
qed

lemma online_call [simp]:
  "online (set_client_call c app) = online app" "online (set_up_call tc track app) = online app"
  by (simp_all add: online_def isLoggedIn_def set_up_call_def)

lemma call_rings:
  assumes ready: "pair_ready secret cfg A a B b sys" "a \<noteq> b"
    and caller: "ses_userId (app_session (sy_client sys A)) = a" "\<not> isInCall (app_session (sy_client sys A))"
    and name: "b \<noteq> []" "list_all (\<lambda>c. \<not> is_space c) b"
    and free: "\<not> isBusy a (be_calls (sy_backend sys))" "\<not> isBusy b (be_calls (sy_backend sys))"
    and k: "k = generateUuid (be_a eb) (be_b eb)" "find_call k (be_calls (sy_backend sys)) = None"
    and js: "ae_json eb = ce_json ec" "json_ok (ce_json ec) (create_msg b)" "json_ok (ce_json ec) (created_msg k)" "json_ok (ce_json ec) (incoming_msg k a)"
  obtains outs sys' where
    "sys_run eb ec [Local A (Line (''call '' @ b)), ServerReads A, ClientReads A, ClientReads B] sys = Some (outs, sys')"
    "pair_ready secret cfg A a B b sys'"
    "sy_client sys' A = set_client_call ((client_call (sy_client sys A))\<lparr>cc_callId := k, remoteUser := b, cc_state := Calling, is_caller := True\<rparr>) (sy_client sys A)"
    "sy_client sys' B = set_client_call ((client_call (sy_client sys B))\<lparr>cc_callId := k, remoteUser := a, cc_state := AppState.Ringing, is_caller := False\<rparr>) (sy_client sys B)"
    "find_call k (be_calls (sy_backend sys')) = Some \<lparr>callId = k, callerId = a, calleeId = b, call_state = CallState.Ringing, createdAt = be_now eb\<rparr>"
proof -
  let ?be = "sy_backend sys" and ?A = "sy_client sys A" and ?js = "ce_json ec"
  let ?m = "json_dump ?js (create_msg b)" and ?r = "be_router_env eb cfg"
  have AB: "A \<noteq> B" using pair_ready_sessions(3) [OF ready] .
  have inv: "cm_inv (be_calls ?be)" using ready(1) by (simp add: pair_ready_def be_inv_def)
  obtain cm where c: "create (be_a eb) (be_b eb) (be_now eb) a b (be_calls ?be) = (Inr k, cm)"
    "find_call k cm = Some \<lparr>callId = k, callerId = a, calleeId = b, call_state = CallState.Ringing, createdAt = be_now eb\<rparr>"
    using create_spec [OF inv, of "be_a eb" "be_b eb" a b "be_now eb"] free k by auto
  have cm: "cm_inv cm" using create_inv [OF inv, of "be_a eb" "be_b eb" "be_now eb" a b] c(1) by simp
  define sys1 where "sys1 = sys\<lparr>sy_client := (sy_client sys)(A := set_client_call ((client_call ?A)\<lparr>remoteUser := b, cc_state := Calling, is_caller := True\<rparr>) ?A),
      sy_up := (sy_up sys)(A := [?m])\<rparr>"
  have s1: "sys_step eb ec (Local A (Line (''call '' @ b))) sys = Some ([(A, Sent ?m), (A, Shown (''calling '' @ b))], sys1)"
    using ready(1) line_call [of ?A b ec] name caller ready(2) by (simp add: pair_ready_def client_acts_def sys1_def)
  have h: "handle ?r a ?m (be_calls ?be) = Some ([(a, json_dump ?js (created_msg k)), (b, json_dump ?js (incoming_msg k a))], cm)"
    using js c(1) by (simp add: handle_def be_router_env_def json_ok_def onCallCreate_def sendJson_def)
  define sys2 where "sys2 = sys1\<lparr>sy_backend := ?be\<lparr>be_calls := cm\<rparr>, sy_up := (sy_up sys1)(A := []),
      sy_down := queued (sy_down sys1) [(A, json_dump ?js (created_msg k)), (B, json_dump ?js (incoming_msg k a))]\<rparr>"
  have "deliver [(a, json_dump ?js (created_msg k)), (b, json_dump ?js (incoming_msg k a))] (be_ws ?be)
      = [(A, json_dump ?js (created_msg k)), (B, json_dump ?js (incoming_msg k a))]"
    using ready(1) by (simp add: deliver_def ws_send_def pair_ready_def)
  with h have s2: "sys_step eb ec (ServerReads A) sys1 = Some ([], sys2)"
    using server_reads [of sys1 A ?m a secret cfg "\<lambda>_. True" eb] pair_ready_sessions(1) [OF ready(1)] ready(1)
    by (simp add: pair_ready_def sys1_def sys2_def)
  obtain shown where inc: "app_message ec (json_dump ?js (incoming_msg k a)) (sy_client sys B) = Some ([Shown shown],
      set_client_call ((client_call (sy_client sys B))\<lparr>cc_callId := k, remoteUser := a, cc_state := AppState.Ringing, is_caller := False\<rparr>) (sy_client sys B))"
    using read_incoming [OF js(4)] by blast
  have "\<exists>outs sys'. sys_run eb ec [ClientReads A, ClientReads B] sys2 = Some (outs, sys') \<and> pair_ready secret cfg A a B b sys'
      \<and> sy_client sys' A = set_client_call ((client_call ?A)\<lparr>cc_callId := k, remoteUser := b, cc_state := Calling, is_caller := True\<rparr>) ?A
      \<and> sy_client sys' B = set_client_call ((client_call (sy_client sys B))\<lparr>cc_callId := k, remoteUser := a, cc_state := AppState.Ringing, is_caller := False\<rparr>) (sy_client sys B)
      \<and> be_calls (sy_backend sys') = cm"
    using ready(1) AB read_created [OF js(3)] inc cm
    by (simp add: pair_ready_def sys1_def sys2_def client_acts_def be_inv_calls)
  then show ?thesis using s1 s2 c(2) that by auto
qed


text \<open>The configuration the backend generates for a user.\<close>

lemma config_gen:
  assumes "turn_password (ae_ssl eb) (turn_username (ae_wall eb) user cfg) cfg = Inr password"
    and "json_ok (ae_json eb) (obj (ice_config cfg (turn_username (ae_wall eb) user cfg) password))"
  shows "rtc_config_gen eb cfg user = Some (json_dump (ae_json eb) (obj (ice_config cfg (turn_username (ae_wall eb) user cfg) password)))"
    "rtc_message (be_router_env eb cfg) k (json_dump (ae_json eb) (obj (ice_config cfg (turn_username (ae_wall eb) user cfg) password)))
      = Some (config_msg k cfg (turn_username (ae_wall eb) user cfg) password)"
  using assms
  by (simp_all add: rtc_config_gen_def generateRtcConfig_def ice_config_def rtc_message_def be_router_env_def json_ok_def config_msg_def obj_def)

text \<open>The configuration a client stores for credentials it got.\<close>

definition client_config :: "TurnConfig \<Rightarrow> string \<Rightarrow> string \<Rightarrow> App \<Rightarrow> ClientTurnConfig" where
  "client_config cfg user password app = \<lparr>turnUrl = turn_url cfg, turnsUrl = turns_url cfg, tcfg_username = user,
     tcfg_credential = password, tcfg_ttl = tcfg_ttl (turnConfig (app_session app))\<rparr>"

text \<open>What the router does with an acceptance and with a hang-up.\<close>

lemma handle_accept:
  assumes call: "find_call k cm = Some s" "callerId s = a" "calleeId s = b" "call_state s = CallState.Ringing"
    and js: "json_ok (ae_json eb) (accept_msg k)"
    and uab: "ua = turn_username (ae_wall eb) a cfg" "ub = turn_username (ae_wall eb) b cfg"
    and pw: "turn_password (ae_ssl eb) ua cfg = Inr pa" "turn_password (ae_ssl eb) ub cfg = Inr pb"
    and cfgs: "json_ok (ae_json eb) (obj (ice_config cfg ua pa))" "json_ok (ae_json eb) (obj (ice_config cfg ub pb))"
  shows "handle (be_router_env eb cfg) b (json_dump (ae_json eb) (accept_msg k)) cm =
    Some ([(a, json_dump (ae_json eb) (config_msg k cfg ua pa)), (b, json_dump (ae_json eb) (config_msg k cfg ub pb))],
      cm\<lparr>calls := um_set k (s\<lparr>call_state := Active\<rparr>) (calls cm)\<rparr>)"
proof -
  have "accept k b cm = (Inr (s\<lparr>call_state := Active\<rparr>), cm\<lparr>calls := um_set k (s\<lparr>call_state := Active\<rparr>) (calls cm)\<rparr>)"
    using call by (simp add: accept_def find_call_def Let_def)
  then show ?thesis
    using js call(2,3) config_gen(1) [of eb a cfg pa] config_gen(2) [of eb a cfg pa k]
      config_gen(1) [of eb b cfg pb] config_gen(2) [of eb b cfg pb k] pw cfgs uab
    by (simp add: handle_def json_ok_def onCallAccept_def sendJson_def be_router_env_def)
qed

lemma handle_hangup:
  assumes "find_call k cm = Some s" "callerId s = a" "calleeId s = b" "json_ok (ae_json eb) (hangup_msg k)"
  shows "handle (be_router_env eb cfg) a (json_dump (ae_json eb) (hangup_msg k)) cm =
    Some ([(b, json_dump (ae_json eb) (call_ended k ''hangup''))], cm\<lparr>calls := um_erase k (calls cm)\<rparr>)"
proof -
  have "hangup k a cm = (Inr (s\<lparr>call_state := Ended\<rparr>), cm\<lparr>calls := um_erase k (calls cm)\<rparr>)"
    using assms by (simp add: hangup_def find_call_def)
  then show ?thesis
    using assms by (simp add: handle_def be_router_env_def json_ok_def onCallHangup_def sendJson_def other_party_def)
qed

lemma call_answered:
  assumes ready: "pair_ready secret cfg A a B b sys" "a \<noteq> b"
    and callerA: "cc_state (client_call (sy_client sys A)) = Calling"
    and calleeB: "cc_state (client_call (sy_client sys B)) = AppState.Ringing" "cc_callId (client_call (sy_client sys B)) = k"
    and call: "find_call k (be_calls (sy_backend sys)) = Some s" "callerId s = a" "calleeId s = b" "call_state s = CallState.Ringing"
    and js: "ae_json eb = ce_json ec" "json_ok (ce_json ec) (accept_msg k)"
    and uab: "ua = turn_username (ae_wall eb) a cfg" "ub = turn_username (ae_wall eb) b cfg"
    and pw: "turn_password (ae_ssl eb) ua cfg = Inr pa" "turn_password (ae_ssl eb) ub cfg = Inr pb"
    and cfgs: "json_ok (ce_json ec) (obj (ice_config cfg ua pa))" "json_ok (ce_json ec) (obj (ice_config cfg ub pb))"
      "json_ok (ce_json ec) (config_msg k cfg ua pa)" "json_ok (ce_json ec) (config_msg k cfg ub pb)" "urls_ok ec cfg"
  obtains outs sys' where
    "sys_run eb ec [Local B (Line ''accept''), ServerReads B, ClientReads A, ClientReads B] sys = Some (outs, sys')"
    "pair_ready secret cfg A a B b sys'"
    "(A, PcCreate (client_config cfg ua pa (sy_client sys A))) \<in> set outs" "(A, PcOffer) \<in> set outs"
    "(B, PcCreate (client_config cfg ub pb (sy_client sys B))) \<in> set outs"
    "sy_client sys' A = set_up_call (client_config cfg ua pa (sy_client sys A)) True (sy_client sys A)"
    "sy_client sys' B = set_up_call (client_config cfg ub pb (sy_client sys B)) False
       (set_client_call ((client_call (sy_client sys B))\<lparr>cc_state := InCall\<rparr>) (sy_client sys B))"
    "find_call k (be_calls (sy_backend sys')) = Some (s\<lparr>call_state := Active\<rparr>)"
proof -
  let ?be = "sy_backend sys" and ?A = "sy_client sys A" and ?B = "sy_client sys B" and ?js = "ce_json ec"
  let ?B1 = "set_client_call ((client_call ?B)\<lparr>cc_state := InCall\<rparr>) ?B"
  let ?m = "json_dump ?js (accept_msg k)" and ?r = "be_router_env eb cfg"
  let ?ca = "json_dump ?js (config_msg k cfg ua pa)" and ?cb = "json_dump ?js (config_msg k cfg ub pb)"
  have AB: "A \<noteq> B" using pair_ready_sessions(3) [OF ready] .
  have inv: "cm_inv (be_calls ?be)" using ready(1) by (simp add: pair_ready_def be_inv_def)
  define cm where "cm = (be_calls ?be)\<lparr>calls := um_set k (s\<lparr>call_state := Active\<rparr>) (calls (be_calls ?be))\<rparr>"
  have acc: "accept k b (be_calls ?be) = (Inr (s\<lparr>call_state := Active\<rparr>), cm)"
    using call by (simp add: accept_def find_call_def cm_def Let_def)
  then have cm: "cm_inv cm" using accept_inv [OF inv, of k b] by simp
  define sys1 where "sys1 = sys\<lparr>sy_client := (sy_client sys)(B := ?B1), sy_up := (sy_up sys)(B := [?m])\<rparr>"
  have s1: "sys_step eb ec (Local B (Line ''accept'')) sys = Some ([(B, Sent ?m), (B, Shown ''call accepted'')], sys1)"
    using ready(1) line_accept [of ?B ec] calleeB by (simp add: pair_ready_def client_acts_def sys1_def)
  have h: "handle ?r b ?m (be_calls ?be) = Some ([(a, ?ca), (b, ?cb)], cm)"
    using handle_accept [OF call _ uab pw] js cfgs(1,2) by (simp add: cm_def)
  define sys2 where "sys2 = sys1\<lparr>sy_backend := ?be\<lparr>be_calls := cm\<rparr>, sy_up := (sy_up sys1)(B := []), sy_down := queued (sy_down sys1) [(A, ?ca), (B, ?cb)]\<rparr>"
  have "deliver [(a, ?ca), (b, ?cb)] (be_ws ?be) = [(A, ?ca), (B, ?cb)]"
    using ready(1) by (simp add: deliver_def ws_send_def pair_ready_def)
  with h have s2: "sys_step eb ec (ServerReads B) sys1 = Some ([], sys2)"
    using server_reads [of sys1 B ?m b secret cfg "\<lambda>_. True" eb] pair_ready_sessions(2) [OF ready(1)] ready(1)
    by (simp add: pair_ready_def sys1_def sys2_def)
  obtain showna where ra: "app_message ec ?ca ?A = Some (Shown showna # close_pc ?A @ [PcCreate (client_config cfg ua pa ?A), PcOffer],
      set_up_call (client_config cfg ua pa ?A) True ?A)"
    using read_config [OF cfgs(3,5), of ?A] callerA by (auto simp: client_config_def)
  obtain shownb where rb: "app_message ec ?cb ?B1 = Some (Shown shownb # close_pc ?B1 @ [PcCreate (client_config cfg ub pb ?B)],
      set_up_call (client_config cfg ub pb ?B) False ?B1)"
    using read_config [OF cfgs(4,5), of ?B1] by (auto simp: client_config_def)
  have close: "concat (map sent_message (close_pc app)) = []" for app
    by (auto simp: close_pc_def pc_close_def split: option.splits)
  have "\<exists>outs sys'. sys_run eb ec [ClientReads A, ClientReads B] sys2 = Some (outs, sys') \<and> pair_ready secret cfg A a B b sys'
      \<and> {(A, PcCreate (client_config cfg ua pa ?A)), (A, PcOffer), (B, PcCreate (client_config cfg ub pb ?B))} \<subseteq> set outs
      \<and> sy_client sys' A = set_up_call (client_config cfg ua pa ?A) True ?A
      \<and> sy_client sys' B = set_up_call (client_config cfg ub pb ?B) False ?B1 \<and> be_calls (sy_backend sys') = cm"
    using ready(1) AB ra rb cm close
    by (simp add: pair_ready_def sys1_def sys2_def client_acts_def be_inv_calls)
  then obtain outs sys' where r: "sys_run eb ec [ClientReads A, ClientReads B] sys2 = Some (outs, sys')" "pair_ready secret cfg A a B b sys'"
      "{(A, PcCreate (client_config cfg ua pa ?A)), (A, PcOffer), (B, PcCreate (client_config cfg ub pb ?B))} \<subseteq> set outs"
      "sy_client sys' A = set_up_call (client_config cfg ua pa ?A) True ?A"
      "sy_client sys' B = set_up_call (client_config cfg ub pb ?B) False ?B1" "be_calls (sy_backend sys') = cm" by blast
  have "find_call k cm = Some (s\<lparr>call_state := Active\<rparr>)" by (simp add: cm_def find_call_def)
  with s1 s2 r show ?thesis by (intro that [of "[(B, Sent ?m), (B, Shown ''call accepted'')] @ outs" sys']) auto
qed


lemma sys_run_append:
  "sys_run eb ec xs sys = Some (o1, sys1) \<Longrightarrow> sys_run eb ec ys sys1 = Some (o2, sys2) \<Longrightarrow> sys_run eb ec (xs @ ys) sys = Some (o1 @ o2, sys2)"
  by (induction xs arbitrary: sys o1) (auto split: option.splits prod.splits)

lemma pair_ready_sym: "pair_ready secret cfg A a B b sys = pair_ready secret cfg B b A a sys"
  by (auto simp: pair_ready_def)

text \<open>A message of one client that the backend passes on to the other.\<close>

lemma relay_reaches:
  assumes ready: "pair_ready secret cfg A a B b sys" "a \<noteq> b"
    and sends: "app_step ec ev (sy_client sys A) = Some ([Sent m, Shown t], appA)" "online appA"
    and h: "handle (be_router_env eb cfg) a m (be_calls (sy_backend sys)) = Some ([(b, m')], cm)" "cm_inv cm"
    and reads: "app_step ec (app_event.Message m') (sy_client sys B) = Some (outsB, appB)" "online appB" "concat (map sent_message outsB) = []"
  obtains outs sys' where "sys_run eb ec [Local A ev, ServerReads A, ClientReads B] sys = Some (outs, sys')"
    "pair_ready secret cfg A a B b sys'" "Pair B ` set outsB \<subseteq> set outs"
    "sy_client sys' = (sy_client sys)(A := appA, B := appB)" "be_calls (sy_backend sys') = cm"
proof -
  have AB: "A \<noteq> B" using pair_ready_sessions(3) [OF ready] .
  define sys1 where "sys1 = sys\<lparr>sy_client := (sy_client sys)(A := appA), sy_up := (sy_up sys)(A := [m])\<rparr>"
  have s1: "sys_step eb ec (Local A ev) sys = Some ([(A, Sent m), (A, Shown t)], sys1)"
    using ready(1) sends by (simp add: pair_ready_def client_acts_def sys1_def)
  define sys2 where "sys2 = sys1\<lparr>sy_backend := (sy_backend sys)\<lparr>be_calls := cm\<rparr>, sy_up := (sy_up sys1)(A := []), sy_down := queued (sy_down sys1) [(B, m')]\<rparr>"
  have "deliver [(b, m')] (be_ws (sy_backend sys)) = [(B, m')]"
    using ready(1) by (simp add: deliver_def ws_send_def pair_ready_def)
  with h have s2: "sys_step eb ec (ServerReads A) sys1 = Some ([], sys2)"
    using server_reads [of sys1 A m a secret cfg "\<lambda>_. True" eb] pair_ready_sessions(1) [OF ready(1)] ready(1)
    by (simp add: pair_ready_def sys1_def sys2_def)
  have "\<exists>sys'. sys_step eb ec (ClientReads B) sys2 = Some (map (Pair B) outsB, sys') \<and> pair_ready secret cfg A a B b sys'
      \<and> sy_client sys' = (sy_client sys)(A := appA, B := appB) \<and> be_calls (sy_backend sys') = cm"
    using ready(1) AB reads sends(2) h(2) by (simp add: pair_ready_def sys1_def sys2_def client_acts_def be_inv_calls)
  then obtain sys' where s3: "sys_step eb ec (ClientReads B) sys2 = Some (map (Pair B) outsB, sys')" "pair_ready secret cfg A a B b sys'"
    "sy_client sys' = (sy_client sys)(A := appA, B := appB)" "be_calls (sy_backend sys') = cm" by blast
  have "sys_run eb ec [Local A ev, ServerReads A, ClientReads B] sys = Some ([(A, Sent m), (A, Shown t)] @ map (Pair B) outsB, sys')"
    using s1 s2 s3(1) by (simp del: sys_step.simps)
  with s3(2-4) that show ?thesis by auto
qed

lemma relay_description:
  assumes "json_ok (ae_json eb) (sdp_msg ty k sdp)" "ty = ''webrtc.offer'' \<or> ty = ''webrtc.answer''"
    "find_call k cm = Some s" "other_party user s = peer"
  shows "handle (be_router_env eb cfg) user (json_dump (ae_json eb) (sdp_msg ty k sdp)) cm
    = Some ([(peer, json_dump (ae_json eb) (sdp_msg ty k sdp))], cm)"
  using assms by (auto simp: handle_def be_router_env_def json_ok_def onWebrtcRelay_def sendJson_def)

lemma descriptions_exchanged:
  assumes ready: "pair_ready secret cfg A a B b sys" "a \<noteq> b"
    and neg: "negotiating (sy_client sys A)" "negotiating (sy_client sys B)"
    and roles: "is_caller (client_call (sy_client sys A))" "\<not> is_caller (client_call (sy_client sys B))"
    and ids: "cc_callId (client_call (sy_client sys A)) = k" "cc_callId (client_call (sy_client sys B)) = k"
    and call: "find_call k (be_calls (sy_backend sys)) = Some s" "callerId s = a" "calleeId s = b"
    and js: "ae_json eb = ce_json ec" "json_ok (ce_json ec) (sdp_msg ''webrtc.offer'' k offer)" "json_ok (ce_json ec) (sdp_msg ''webrtc.answer'' k answer)"
    and sdp: "rtc_sdp_ok ec offer" "rtc_sdp_ok ec answer"
  obtains outs sys' where
    "sys_run eb ec [Local A (RtcEvent (LocalOffer offer)), ServerReads A, ClientReads B,
       Local B (RtcEvent (LocalAnswer answer)), ServerReads B, ClientReads A] sys = Some (outs, sys')"
    "pair_ready secret cfg A a B b sys'" "(B, PcRemoteOffer offer) \<in> set outs" "(A, PcRemoteAnswer answer) \<in> set outs"
    "sy_client sys' = sy_client sys" "be_calls (sy_backend sys') = be_calls (sy_backend sys)"
proof -
  let ?A = "sy_client sys A" and ?B = "sy_client sys B" and ?js = "ce_json ec" and ?cm = "be_calls (sy_backend sys)"
  have on: "online ?A" "online ?B" and inv: "cm_inv ?cm" using ready(1) by (auto simp: pair_ready_def be_inv_def)
  have other: "other_party a s = b" "other_party b s = a" using call ready(2) by (auto simp: other_party_def)
  have stepA: "app_step ec (RtcEvent (LocalOffer offer)) ?A = Some ([Sent (json_dump ?js (sdp_msg ''webrtc.offer'' k offer)), Shown ''[rtc] offer sent''], ?A)"
    and stepB: "app_step ec (RtcEvent (LocalAnswer answer)) ?B = Some ([Sent (json_dump ?js (sdp_msg ''webrtc.answer'' k answer)), Shown ''[rtc] answer sent''], ?B)"
    using local_description neg ids by simp_all
  have passA: "handle (be_router_env eb cfg) a (json_dump ?js (sdp_msg ''webrtc.offer'' k offer)) ?cm = Some ([(b, json_dump ?js (sdp_msg ''webrtc.offer'' k offer))], ?cm)"
    and passB: "handle (be_router_env eb cfg) b (json_dump ?js (sdp_msg ''webrtc.answer'' k answer)) ?cm = Some ([(a, json_dump ?js (sdp_msg ''webrtc.answer'' k answer))], ?cm)"
    using relay_description [of eb _ k _ ?cm s] js call(1) other by simp_all
  have readA: "app_step ec (app_event.Message (json_dump ?js (sdp_msg ''webrtc.answer'' k answer))) ?A = Some ([PcRemoteAnswer answer, Shown ''[rtc] answer applied''], ?A)"
    and readB: "app_step ec (app_event.Message (json_dump ?js (sdp_msg ''webrtc.offer'' k offer))) ?B = Some ([PcRemoteOffer offer], ?B)"
    using read_offer [OF js(2) neg(2) roles(2) sdp(1)] read_answer [OF js(3) neg(1) roles(1) sdp(2)] by simp_all
  obtain o1 sys1 where r1: "sys_run eb ec [Local A (RtcEvent (LocalOffer offer)), ServerReads A, ClientReads B] sys = Some (o1, sys1)"
    "pair_ready secret cfg A a B b sys1" "Pair B ` set [PcRemoteOffer offer] \<subseteq> set o1" "sy_client sys1 = (sy_client sys)(A := ?A, B := ?B)"
    "be_calls (sy_backend sys1) = ?cm"
    by (rule relay_reaches [OF ready stepA on(1) passA inv readB on(2)]) simp_all
  have same: "sy_client sys1 = sy_client sys" using r1(4) by simp
  note ready2 = r1(2) [unfolded pair_ready_sym [of secret cfg A]] ready(2) [symmetric]
  obtain o2 sys2 where r2: "sys_run eb ec [Local B (RtcEvent (LocalAnswer answer)), ServerReads B, ClientReads A] sys1 = Some (o2, sys2)"
    "pair_ready secret cfg B b A a sys2" "Pair A ` set [PcRemoteAnswer answer, Shown ''[rtc] answer applied''] \<subseteq> set o2"
    "sy_client sys2 = (sy_client sys1)(B := ?B, A := ?A)" "be_calls (sy_backend sys2) = ?cm"
    by (rule relay_reaches [OF ready2, unfolded same r1(5), OF stepB on(2) passB inv readA on(1)]) (simp_all add: same del: sys_run.simps)
  show ?thesis
    using sys_run_append [OF r1(1) r2(1)] r1(3) r2(2-5) same pair_ready_sym [of secret cfg A]
    by (intro that [of "o1 @ o2" sys2]) (auto simp del: sys_run.simps)
qed


text \<open>Both libraries report that the connection is up.\<close>

definition connection_up :: "App \<Rightarrow> App" where
  "connection_up app = app\<lparr>app_session := set_state InCall (app_session app), app_pc := map_option (\<lambda>pc. pc\<lparr>pc_connected := True\<rparr>) (app_pc app)\<rparr>"

lemma connection_up_online [simp]: "online (connection_up app) = online app"
  by (simp add: online_def connection_up_def isLoggedIn_def)

lemma connections_up:
  assumes ready: "pair_ready secret cfg A a B b sys" "a \<noteq> b" and neg: "negotiating (sy_client sys A)" "negotiating (sy_client sys B)"
  obtains outs sys' where
    "sys_run eb ec [Local A (RtcEvent (StateChange Connected)), Local B (RtcEvent (StateChange Connected))] sys = Some (outs, sys')"
    "pair_ready secret cfg A a B b sys'" "be_calls (sy_backend sys') = be_calls (sy_backend sys)"
    "sy_client sys' = (sy_client sys)(A := connection_up (sy_client sys A), B := connection_up (sy_client sys B))"
proof -
  have up: "app_rtc ec (StateChange Connected) app = ([Shown ''[rtc] connected''], connection_up app)" if "negotiating app" for app
    using that by (auto simp: negotiating_def app_rtc_def set_pc_connected_def connection_up_def Let_def split: option.splits)
  have AB: "A \<noteq> B" using pair_ready_sessions(3) [OF ready] .
  have "\<exists>outs sys'. sys_run eb ec [Local A (RtcEvent (StateChange Connected)), Local B (RtcEvent (StateChange Connected))] sys = Some (outs, sys')
      \<and> pair_ready secret cfg A a B b sys' \<and> be_calls (sy_backend sys') = be_calls (sy_backend sys)
      \<and> sy_client sys' = (sy_client sys)(A := connection_up (sy_client sys A), B := connection_up (sy_client sys B))"
    using ready(1) AB up neg by (simp add: client_acts_def pair_ready_def)
  with that show ?thesis by blast
qed

text \<open>The caller hangs up: the other client takes its connection down.\<close>

lemma read_ended:
  assumes "json_ok (ce_json e) (call_ended k why)" "\<not> call_cleanup_done app"
  obtains outs app' where "app_message e (json_dump (ce_json e) (call_ended k why)) app = Some (outs, app')"
    "concat (map sent_message outs) = []" "online app' = online app" "app_pc app' = None" "client_call app' = no_call"
    "app_pc app = Some pc \<Longrightarrow> pc_open pc \<Longrightarrow> PcClose \<in> set outs"
proof -
  let ?app = "set_client_call no_call app"
  obtain o1 app' where c: "cleanupCall ?app = (o1, app')" by force
  have "app_message e (json_dump (ce_json e) (call_ended k why)) app = Some (Shown (''[call] ended, reason: '' @ why) # o1, app')"
    using assms(1) c by (simp add: reading_defs call_ended_def handleCallEnded_def after_call_end_def)
  moreover have "concat (map sent_message o1) = []" "online app' = online app" "app_pc app' = None" "client_call app' = no_call"
    "app_pc app = Some pc \<Longrightarrow> pc_open pc \<Longrightarrow> PcClose \<in> set o1"
    using c assms(2)
    by (auto simp: cleanupCall_def stopAudio_def close_pc_def pc_close_def online_def isLoggedIn_def Let_def split: option.splits if_splits)
  ultimately show ?thesis by (intro that [of "Shown (''[call] ended, reason: '' @ why) # o1" app']) simp_all
qed

lemma call_hung_up:
  assumes ready: "pair_ready secret cfg A a B b sys" "a \<noteq> b"
    and A: "isInCall (app_session (sy_client sys A))" "cc_callId (client_call (sy_client sys A)) = k"
    and B: "\<not> call_cleanup_done (sy_client sys B)" "app_pc (sy_client sys B) = Some pc" "pc_open pc"
    and call: "find_call k (be_calls (sy_backend sys)) = Some s" "callerId s = a" "calleeId s = b"
    and js: "ae_json eb = ce_json ec" "json_ok (ce_json ec) (hangup_msg k)" "json_ok (ce_json ec) (call_ended k ''hangup'')"
  obtains outs sys' where "sys_run eb ec [Local A (Line ''hangup''), ServerReads A, ClientReads B] sys = Some (outs, sys')"
    "pair_ready secret cfg A a B b sys'" "(B, PcClose) \<in> set outs" "app_pc (sy_client sys' B) = None"
    "client_call (sy_client sys' A) = no_call" "client_call (sy_client sys' B) = no_call"
    "\<not> isBusy a (be_calls (sy_backend sys'))" "\<not> isBusy b (be_calls (sy_backend sys'))"
proof -
  let ?A = "sy_client sys A" and ?B = "sy_client sys B" and ?js = "ce_json ec" and ?cm = "be_calls (sy_backend sys)"
  have on: "online ?A" "online ?B" and inv: "cm_inv ?cm" and AB: "A \<noteq> B"
    using ready pair_ready_sessions(3) [OF ready] by (auto simp: pair_ready_def be_inv_def)
  define cm where "cm = ?cm\<lparr>calls := um_erase k (calls ?cm)\<rparr>"
  have h: "hangup k a ?cm = (Inr (s\<lparr>call_state := Ended\<rparr>), cm)" using call by (simp add: hangup_def find_call_def cm_def)
  have free: "\<not> isBusy a cm" "\<not> isBusy b cm"
    using call_control_spec(4) [OF inv call(1)] call(2,3) by (auto simp: cm_def in_call_def)
  have send: "app_step ec (Line ''hangup'') ?A = Some ([Sent (json_dump ?js (hangup_msg k)), Shown ''call ended''], set_client_call no_call ?A)"
    using line_hangup [OF on(1) A(1)] A(2) by simp
  have pass: "handle (be_router_env eb cfg) a (json_dump ?js (hangup_msg k)) ?cm = Some ([(b, json_dump ?js (call_ended k ''hangup''))], cm)"
    using handle_hangup [OF call, of eb] js by (simp add: cm_def)
  have cm: "cm_inv cm" using hangup_inv [OF inv, of k a] h by simp
  obtain o1 B' where r: "app_message ec (json_dump ?js (call_ended k ''hangup'')) ?B = Some (o1, B')" "concat (map sent_message o1) = []"
    "online B' = online ?B" "app_pc B' = None" "client_call B' = no_call" "PcClose \<in> set o1"
    using read_ended [OF js(3) B(1), of pc] B(2,3) by metis
  have reads: "app_step ec (app_event.Message (json_dump ?js (call_ended k ''hangup''))) ?B = Some (o1, B')" using r(1) by simp
  obtain outs sys' where x: "sys_run eb ec [Local A (Line ''hangup''), ServerReads A, ClientReads B] sys = Some (outs, sys')"
    "pair_ready secret cfg A a B b sys'" "Pair B ` set o1 \<subseteq> set outs"
    "sy_client sys' = (sy_client sys)(A := set_client_call no_call ?A, B := B')" "be_calls (sy_backend sys') = cm"
    by (rule relay_reaches [OF ready send _ pass cm reads _ r(2)]) (use on r(3) in simp_all)
  show ?thesis using x r free AB by (intro that [of outs sys']) (auto simp del: sys_run.simps)
qed

section \<open>Credentials\<close>

text \<open>The backend computes the user name and password that the TURN server's validator issues.\<close>

lemma backend_issues_turn_credentials:
  assumes "openssl_ok ssl" "tc_shared_secret cfg = shared_secret hv"
  obtains password where "turn_password ssl (turn_username wall user cfg) cfg = Inr password"
    "hv_generate ssl hv wall user (tc_ttl cfg)
       = Some \<lparr>cred_username = turn_username wall user cfg, cred_password = password\<rparr>"
  using hmac_sha1_str_ok [OF assms(1), of "shared_secret hv" "turn_username wall user cfg"] assms(2)
  by (auto simp: turn_password_def turn_username_def hv_generate_def computeHmac_def Let_def)

lemma backend_password_validates:
  assumes "openssl_ok ssl" "tc_shared_secret cfg = shared_secret hv" "0 \<le> wall0 + tc_ttl cfg" "wall0 + tc_ttl cfg < 2 ^ 63"
    and "turn_password ssl (turn_username wall0 user cfg) cfg = Inr password"
  shows "hv_validate ssl hv wall (turn_username wall0 user cfg) pw = Some (wall \<le> wall0 + tc_ttl cfg \<and> pw = password)"
proof -
  obtain pw' where p: "turn_password ssl (turn_username wall0 user cfg) cfg = Inr pw'"
    "hv_generate ssl hv wall0 user (tc_ttl cfg) = Some \<lparr>cred_username = turn_username wall0 user cfg, cred_password = pw'\<rparr>"
    using backend_issues_turn_credentials [OF assms(1,2)] by metis
  then show ?thesis using hv_generate_validates [OF assms(1) p(2) assms(3,4)] assms(5) by simp
qed

section \<open>Properties\<close>

definition call_events :: "session_id \<Rightarrow> session_id \<Rightarrow> string \<Rightarrow> string \<Rightarrow> string \<Rightarrow> sys_event list" where
  "call_events A B b offer answer =
     [Local A (Line (''call '' @ b)), ServerReads A, ClientReads A, ClientReads B] @
     [Local B (Line ''accept''), ServerReads B, ClientReads A, ClientReads B] @
     [Local A (RtcEvent (LocalOffer offer)), ServerReads A, ClientReads B,
      Local B (RtcEvent (LocalAnswer answer)), ServerReads B, ClientReads A] @
     [Local A (RtcEvent (StateChange Connected)), Local B (RtcEvent (StateChange Connected))]"

definition call_messages ::
    "string \<Rightarrow> string \<Rightarrow> string \<Rightarrow> TurnConfig \<Rightarrow> string \<Rightarrow> string \<Rightarrow> string \<Rightarrow> string \<Rightarrow> string \<Rightarrow> string \<Rightarrow> json list" where
  "call_messages k a b cfg ua pa ub pb offer answer =
     [create_msg b, created_msg k, incoming_msg k a, accept_msg k, obj (ice_config cfg ua pa), obj (ice_config cfg ub pb),
      config_msg k cfg ua pa, config_msg k cfg ub pb, sdp_msg ''webrtc.offer'' k offer, sdp_msg ''webrtc.answer'' k answer,
      hangup_msg k, call_ended k ''hangup'']"

definition talking_to :: "string \<Rightarrow> string \<Rightarrow> App \<Rightarrow> bool" where
  "talking_to k peer app \<longleftrightarrow> cc_state (client_call app) = InCall \<and> cc_callId (client_call app) = k \<and> remoteUser (client_call app) = peer
     \<and> (case app_pc app of None \<Rightarrow> False | Some pc \<Rightarrow> pc_open pc \<and> pc_connected pc)"

text \<open>
  C1. A whole voice call through the system: two logged-in, free users. One types the other's
  name after \<open>call\<close>, the other types \<open>accept\<close>; their clients exchange descriptions and the
  connection comes up. Then both clients are in the call with each other, each has
  created its connection with credentials that validate under the TURN server's secret
  (\<open>HmacValidator::validate\<close>) until they expire, each has got the other's description unchanged, and the backend has the call as
  active. When the caller then hangs up, the other client closes its connection and both
  users are free.
\<close>

theorem voice_call:
  assumes ready: "pair_ready secret cfg A a B b sys" "a \<noteq> b"
    and clients: "ses_userId (app_session (sy_client sys A)) = a" "client_call (sy_client sys A) = no_call" "client_call (sy_client sys B) = no_call"
    and name: "b \<noteq> []" "list_all (\<lambda>c. \<not> is_space c) b"
    and free: "\<not> isBusy a (be_calls (sy_backend sys))" "\<not> isBusy b (be_calls (sy_backend sys))"
    and k: "k = generateUuid (be_a eb) (be_b eb)" "find_call k (be_calls (sy_backend sys)) = None"
    and uab: "ua = turn_username (ae_wall eb) a cfg" "ub = turn_username (ae_wall eb) b cfg"
    and pw: "turn_password (ae_ssl eb) ua cfg = Inr pa" "turn_password (ae_ssl eb) ub cfg = Inr pb"
    and js: "ae_json eb = ce_json ec" "list_all (json_ok (ce_json ec)) (call_messages k a b cfg ua pa ub pb offer answer)"
    and rtc: "urls_ok ec cfg" "rtc_sdp_ok ec offer" "rtc_sdp_ok ec answer"
    and turn: "openssl_ok (ae_ssl eb)" "hv = hmac_validator (mk_turn_server tcfg)"
      "tc_shared_secret cfg = cfg_get ''SHARED_SECRET'' ''turn_shared_secret'' tcfg"
      "0 \<le> ae_wall eb + tc_ttl cfg" "ae_wall eb + tc_ttl cfg < 2 ^ 63"
  shows "\<exists>outs sys1. sys_run eb ec (call_events A B b offer answer) sys = Some (outs, sys1)
     \<and> talking_to k b (sy_client sys1 A) \<and> talking_to k a (sy_client sys1 B)
     \<and> (A, PcCreate (client_config cfg ua pa (sy_client sys A))) \<in> set outs
     \<and> (B, PcCreate (client_config cfg ub pb (sy_client sys B))) \<in> set outs
     \<and> (\<forall>wall. hv_validate (ae_ssl eb) hv wall ua pa = Some (wall \<le> ae_wall eb + tc_ttl cfg)
            \<and> hv_validate (ae_ssl eb) hv wall ub pb = Some (wall \<le> ae_wall eb + tc_ttl cfg))
     \<and> (B, PcRemoteOffer offer) \<in> set outs \<and> (A, PcRemoteAnswer answer) \<in> set outs
     \<and> (\<exists>s. find_call k (be_calls (sy_backend sys1)) = Some s \<and> call_state s = Active \<and> callerId s = a \<and> calleeId s = b)
     \<and> (\<exists>outs2 sys2. sys_run eb ec [Local A (Line ''hangup''), ServerReads A, ClientReads B] sys1 = Some (outs2, sys2)
          \<and> (B, PcClose) \<in> set outs2 \<and> app_pc (sy_client sys2 B) = None
          \<and> \<not> isInCall (app_session (sy_client sys2 A)) \<and> \<not> isInCall (app_session (sy_client sys2 B))
          \<and> \<not> isBusy a (be_calls (sy_backend sys2)) \<and> \<not> isBusy b (be_calls (sy_backend sys2)))"
proof -
  let ?A = "sy_client sys A" and ?B = "sy_client sys B"
  let ?tca = "client_config cfg ua pa ?A" and ?tcb = "client_config cfg ub pb ?B"
  let ?js = "ce_json ec"
  have ok: "json_ok ?js (create_msg b)" "json_ok ?js (created_msg k)" "json_ok ?js (incoming_msg k a)" "json_ok ?js (accept_msg k)"
    "json_ok ?js (obj (ice_config cfg ua pa))" "json_ok ?js (obj (ice_config cfg ub pb))"
    "json_ok ?js (config_msg k cfg ua pa)" "json_ok ?js (config_msg k cfg ub pb)"
    "json_ok ?js (sdp_msg ''webrtc.offer'' k offer)" "json_ok ?js (sdp_msg ''webrtc.answer'' k answer)"
    "json_ok ?js (hangup_msg k)" "json_ok ?js (call_ended k ''hangup'')"
    using js(2) by (simp_all add: call_messages_def)
  have AB: "A \<noteq> B" using pair_ready_sessions(3) [OF ready] .
  obtain o1 s1 where p1: "sys_run eb ec [Local A (Line (''call '' @ b)), ServerReads A, ClientReads A, ClientReads B] sys = Some (o1, s1)"
    "pair_ready secret cfg A a B b s1"
    "sy_client s1 A = set_client_call (no_call\<lparr>cc_callId := k, remoteUser := b, cc_state := Calling, is_caller := True\<rparr>) ?A"
    "sy_client s1 B = set_client_call (no_call\<lparr>cc_callId := k, remoteUser := a, cc_state := AppState.Ringing, is_caller := False\<rparr>) ?B"
    "find_call k (be_calls (sy_backend s1)) = Some \<lparr>callId = k, callerId = a, calleeId = b, call_state = CallState.Ringing, createdAt = be_now eb\<rparr>"
    by (rule call_rings [OF ready clients(1) _ name free k js(1) ok(1-3)])
      (use clients(2,3) in \<open>simp_all add: isInCall_def no_call_def del: sys_run.simps\<close>)
  obtain o2 s2 where p2: "sys_run eb ec [Local B (Line ''accept''), ServerReads B, ClientReads A, ClientReads B] s1 = Some (o2, s2)"
    "pair_ready secret cfg A a B b s2" "(A, PcCreate ?tca) \<in> set o2" "(B, PcCreate ?tcb) \<in> set o2"
    "sy_client s2 A = set_up_call ?tca True (sy_client s1 A)"
    "sy_client s2 B = set_up_call ?tcb False (set_client_call ((client_call (sy_client s1 B))\<lparr>cc_state := InCall\<rparr>) (sy_client s1 B))"
    "find_call k (be_calls (sy_backend s2)) = Some \<lparr>callId = k, callerId = a, calleeId = b, call_state = Active, createdAt = be_now eb\<rparr>"
    by (rule call_answered [OF p1(2) ready(2) _ _ _ p1(5) _ _ _ js(1) ok(4) uab pw ok(5-8) rtc(1)])
      (use p1(3,4) in \<open>simp_all add: client_config_def del: sys_run.simps\<close>)
  have neg: "negotiating (sy_client s2 A)" "negotiating (sy_client s2 B)"
    using p2(5,6) p1(3,4) ready(1) by (simp_all add: pair_ready_def online_def)
  obtain o3 s3 where p3: "sys_run eb ec [Local A (RtcEvent (LocalOffer offer)), ServerReads A, ClientReads B,
       Local B (RtcEvent (LocalAnswer answer)), ServerReads B, ClientReads A] s2 = Some (o3, s3)"
    "pair_ready secret cfg A a B b s3" "(B, PcRemoteOffer offer) \<in> set o3" "(A, PcRemoteAnswer answer) \<in> set o3"
    "sy_client s3 = sy_client s2" "be_calls (sy_backend s3) = be_calls (sy_backend s2)"
    by (rule descriptions_exchanged [OF p2(2) ready(2) neg _ _ _ _ p2(7) _ _ js(1) ok(9,10) rtc(2,3)])
      (use p2(5,6) p1(3,4) in \<open>simp_all add: set_up_call_def del: sys_run.simps\<close>)
  obtain o4 s4 where p4: "sys_run eb ec [Local A (RtcEvent (StateChange Connected)), Local B (RtcEvent (StateChange Connected))] s3 = Some (o4, s4)"
    "pair_ready secret cfg A a B b s4" "be_calls (sy_backend s4) = be_calls (sy_backend s3)"
    "sy_client s4 = (sy_client s3)(A := connection_up (sy_client s3 A), B := connection_up (sy_client s3 B))"
    by (rule connections_up [OF p3(2) ready(2), where eb = eb and ec = ec]) (use neg p3(5) in \<open>simp_all del: sys_run.simps\<close>)
  have run: "sys_run eb ec (call_events A B b offer answer) sys = Some (o1 @ o2 @ o3 @ o4, s4)"
    unfolding call_events_def by (intro sys_run_append [OF p1(1)] sys_run_append [OF p2(1)] sys_run_append [OF p3(1)] p4(1))
  have talk: "talking_to k b (sy_client s4 A)" "talking_to k a (sy_client s4 B)" "\<not> call_cleanup_done (sy_client s4 B)"
    using AB p4(4) p3(5) p2(5,6) p1(3,4) by (simp_all add: talking_to_def connection_up_def set_up_call_def)
  have call: "find_call k (be_calls (sy_backend s4)) = Some \<lparr>callId = k, callerId = a, calleeId = b, call_state = Active, createdAt = be_now eb\<rparr>"
    using p2(7) p3(6) p4(3) by simp
  obtain pc where pc: "app_pc (sy_client s4 B) = Some pc" "pc_open pc" using talk(2) by (auto simp: talking_to_def split: option.splits)
  obtain o5 s5 where p5: "sys_run eb ec [Local A (Line ''hangup''), ServerReads A, ClientReads B] s4 = Some (o5, s5)"
    "(B, PcClose) \<in> set o5" "app_pc (sy_client s5 B) = None" "client_call (sy_client s5 A) = no_call" "client_call (sy_client s5 B) = no_call"
    "\<not> isBusy a (be_calls (sy_backend s5))" "\<not> isBusy b (be_calls (sy_backend s5))"
    by (rule call_hung_up [OF p4(2) ready(2) _ _ talk(3) pc call _ _ js(1) ok(11,12)])
      (use talk(1) in \<open>simp_all add: talking_to_def isInCall_def del: sys_run.simps\<close>)
  have "tc_shared_secret cfg = shared_secret hv" using turn(2,3) by (simp add: mk_turn_server_def mk_dispatcher_def)
  note valid = backend_password_validates [OF turn(1) this turn(4,5)]
  have v: "hv_validate (ae_ssl eb) hv wall ua pa = Some (wall \<le> ae_wall eb + tc_ttl cfg)" "hv_validate (ae_ssl eb) hv wall ub pb = Some (wall \<le> ae_wall eb + tc_ttl cfg)" for wall
    using valid [of a pa wall pa] valid [of b pb wall pb] pw uab by simp_all
  show ?thesis
    using run talk(1,2) p2(3,4) v p3(3,4) call p5 by (intro exI [of _ "o1 @ o2 @ o3 @ o4"] exI [of _ s4]) (auto simp: isInCall_def no_call_def simp del: sys_run.simps)
qed


abbreviation demo_turn :: TurnConfig where
  "demo_turn \<equiv> turn_config (\<lambda>_. None)"

definition demo_password :: "string \<Rightarrow> string" where
  "demo_password user = (case turn_password demo_openssl (turn_username 100 user demo_turn) demo_turn of Inr p \<Rightarrow> p | Inl err \<Rightarrow> [])"

definition demo_messages :: "json list" where
  "demo_messages = call_messages (generateUuid 1 2) ''ann'' ''bob'' demo_turn (turn_username 100 ''ann'' demo_turn) (demo_password ''ann'')
     (turn_username 100 ''bob'' demo_turn) (demo_password ''bob'') ''o'' ''a''"

definition demo_call_env :: backend_env where
  "demo_call_env = demo_backend_env\<lparr>ae_json := list_json demo_messages\<rparr>"

definition demo_client_env :: app_env where
  "demo_client_env = demo_app_env\<lparr>ce_json := list_json demo_messages\<rparr>"

definition demo_client_of :: "string \<Rightarrow> App" where
  "demo_client_of user = mk_app\<lparr>app_session := mk_session_state\<lparr>ses_userId := user, ses_jwt := ''t''\<rparr>,
     app_ws := \<lparr>ws_connected = True, read_thread_joinable = True, last_token = ''t''\<rparr>\<rparr>"

definition demo_system :: System where
  "demo_system = \<lparr>sy_backend = demo_backend\<lparr>be_calls := mk_call_manager 30\<rparr>,
     sy_client = (\<lambda>sid. demo_client_of (if sid = 0 then ''ann'' else ''bob'')), sy_up = (\<lambda>_. []), sy_down = (\<lambda>_. [])\<rparr>"

lemma demo_system_ready: "pair_ready ''change_me_in_production'' demo_turn 0 ''ann'' 1 ''bob'' demo_system"
  using be_inv_calls [OF demo_backend_inv mk_call_manager_inv]
  by (simp add: pair_ready_def demo_system_def demo_client_of_def online_def isLoggedIn_def mk_app_def)
    (simp add: demo_backend_def mk_backend_def)

lemma demo_password_eq: "turn_password demo_openssl (turn_username 100 user demo_turn) demo_turn = Inr (demo_password user)"
  using hmac_sha1_str_ok [OF demo_openssl_ok, of "tc_shared_secret demo_turn" "turn_username 100 user demo_turn"]
  by (auto simp: demo_password_def turn_password_def)

lemma demo_urls_ok: "urls_ok demo_client_env demo_turn"
proof -
  have "turn_url demo_turn = ''turn:localhost:3478''"
    by (simp add: turn_config_def cfg_get_def getInt_def to_string_def nat_to_string.simps digit_char_def char_of_def bit_0)
  moreover have "find_substr ''turns:'' ''turn:localhost:3478'' = None" by code_simp
  ultimately have "find_substr ''turns:'' (turn_url demo_turn) = None" by simp
  then show ?thesis by (simp add: urls_ok_def demo_client_env_def demo_app_env_def)
qed

theorem voice_call_witness:
  "\<exists>outs sys1. sys_run demo_call_env demo_client_env (call_events 0 1 ''bob'' ''o'' ''a'') demo_system = Some (outs, sys1)
     \<and> talking_to (generateUuid 1 2) ''bob'' (sy_client sys1 0) \<and> talking_to (generateUuid 1 2) ''ann'' (sy_client sys1 1)"
proof -
  have env: "ae_wall demo_call_env = 100" "ae_ssl demo_call_env = demo_openssl" "be_a demo_call_env = 1" "be_b demo_call_env = 2"
    "ae_json demo_call_env = ce_json demo_client_env" "ce_json demo_client_env = list_json demo_messages"
    by (simp_all add: demo_call_env_def demo_client_env_def demo_backend_env_def demo_api_env_def demo_auth_env_def api_env.defs auth_env.defs)
  have msgs: "list_all (json_ok (ce_json demo_client_env)) demo_messages"
    using list_json_ok [of _ demo_messages] by (simp add: env list_all_iff)
  have calls: "be_calls (sy_backend demo_system) = mk_call_manager 30" by (simp add: demo_system_def)
  have idle: "\<not> isBusy u (be_calls (sy_backend demo_system))" "find_call k (be_calls (sy_backend demo_system)) = None" for u k
    by (simp_all add: calls isBusy_def mk_call_manager_def find_call_def)
  have clients: "ses_userId (app_session (sy_client demo_system 0)) = ''ann''"
    "client_call (sy_client demo_system 0) = no_call" "client_call (sy_client demo_system 1) = no_call"
    by (simp_all add: demo_system_def demo_client_of_def mk_session_state_def)
  have name: "''ann'' \<noteq> ''bob''" "''bob'' \<noteq> []" "list_all (\<lambda>c. \<not> is_space c) ''bob''" by (simp_all add: is_space_def)
  have sdp: "rtc_sdp_ok demo_client_env ''o''" "rtc_sdp_ok demo_client_env ''a''" by (simp_all add: demo_client_env_def demo_app_env_def)
  have ttl: "tc_ttl demo_turn = 3600" "tc_shared_secret demo_turn = cfg_get ''SHARED_SECRET'' ''turn_shared_secret'' (\<lambda>_. None)"
    by (simp_all add: turn_config_def getInt_def cfg_get_def)
  note pw = demo_password_eq [folded env(1,2)]
  have "0 \<le> ae_wall demo_call_env + tc_ttl demo_turn" "ae_wall demo_call_env + tc_ttl demo_turn < 2 ^ 63" by (simp_all add: env ttl)
  from voice_call [OF demo_system_ready name(1) clients name(2,3) idle(1,1) refl idle(2)
      refl refl pw pw env(5) _ demo_urls_ok sdp _ refl ttl(2) this] msgs demo_openssl_ok
  show ?thesis unfolding demo_messages_def by (simp add: env del: sys_run.simps) blast
qed

end
