(* ===== verification/Tls_Contexts.thy ===== *)
theory Tls_Contexts
  imports Prelude
begin

text \<open>
  The TLS and DTLS contexts: \<open>turn_server/src/transport/ssl_context_factory.hpp\<close>, the context
  of \<open>backend/main.cpp\<close>, and those of the client in \<open>http_client.cpp\<close> and \<open>ws_client.cpp\<close>. A
  context is the record of what has been set; whether OpenSSL can create a context, read a
  certificate chain or a key that fits is a parameter.
\<close>

section \<open>Contexts\<close>

datatype tls_method = TlsServer | TlsClient | DtlsServer

datatype tls_option = default_workarounds | no_sslv2 | no_sslv3 | no_tlsv1 | no_tlsv1_1 | single_dh_use

datatype verify_mode = VerifyNone | VerifyPeer

record SslContext =
  sc_method :: tls_method
  sc_options :: "tls_option list"
  sc_verify :: verify_mode
  sc_cert :: "string option"
  sc_key :: "string option"
  sc_cookies :: bool

definition new_context :: "tls_method \<Rightarrow> SslContext" where
  "new_context m = \<lparr>sc_method = m, sc_options = [], sc_verify = VerifyNone, sc_cert = None, sc_key = None, sc_cookies = False\<rparr>"

text \<open>
  What OpenSSL answers: whether a context can be allocated, whether a file holds a
  certificate chain, whether it holds a key that fits the certificate, and the text of the
  exception Asio throws.
\<close>

record ssl_lib =
  ctx_new :: bool
  cert_loads :: "string \<Rightarrow> bool"
  key_loads :: "string \<Rightarrow> string \<Rightarrow> bool"
  asio_error :: "string \<Rightarrow> string"

definition server_options :: "tls_option list" where
  "server_options = [default_workarounds, no_sslv2, no_sslv3, no_tlsv1, no_tlsv1_1, single_dh_use]"

text \<open>\<open>makeTlsContext\<close>; \<open>Inl\<close> is the text of the exception.\<close>

definition makeTlsContext :: "ssl_lib \<Rightarrow> string \<Rightarrow> string \<Rightarrow> string + SslContext" where
  "makeTlsContext lib cert_file key_file =
     (if \<not> ctx_new lib then Inl (asio_error lib ''context'')
      else
        let ctx = (new_context TlsServer)\<lparr>sc_options := server_options\<rparr>
        in if \<not> cert_loads lib cert_file then Inl (asio_error lib ''use_certificate_chain_file'')
           else if \<not> key_loads lib cert_file key_file then Inl (asio_error lib ''use_private_key_file'')
           else Inr (ctx\<lparr>sc_cert := Some cert_file, sc_key := Some key_file\<rparr>))"

text \<open>
  \<open>makeDtlsContext\<close>: the number counts the contexts that were allocated and neither freed nor
  returned. The exceptions are thrown past a raw pointer.
\<close>

definition makeDtlsContext :: "ssl_lib \<Rightarrow> string \<Rightarrow> string \<Rightarrow> (string + SslContext) \<times> nat" where
  "makeDtlsContext lib cert_file key_file =
     (if \<not> ctx_new lib then (Inl ''SSL_CTX_new(DTLS) failed'', 0)
      else
        let ctx = new_context DtlsServer
        in if \<not> cert_loads lib (c_str cert_file) then (Inl (''DTLS: cannot load cert: '' @ cert_file), 1)
           else if \<not> key_loads lib (c_str cert_file) (c_str key_file) then (Inl (''DTLS: cannot load key: '' @ key_file), 1)
           else (Inr (ctx\<lparr>sc_cert := Some (c_str cert_file), sc_key := Some (c_str key_file), sc_verify := VerifyNone,
                          sc_cookies := True\<rparr>), 0))"

text \<open>The cookie callbacks; \<open>rand\<close> are the bytes \<open>RAND_bytes\<close> leaves in the buffer.\<close>

definition cookie_generate :: "bytes \<Rightarrow> bytes" where
  "cookie_generate rand = take 16 rand"

definition cookie_verify :: "bytes \<Rightarrow> bool" where
  "cookie_verify cookie \<longleftrightarrow> length cookie = 16"

text \<open>
  The context of the backend: its \<open>try\<close> block, which ends the program with status 1 after two
  lines in the log when it fails. The context itself is created before.
\<close>

definition backend_tls :: "ssl_lib \<Rightarrow> string \<Rightarrow> string \<Rightarrow> string list + SslContext" where
  "backend_tls lib cert_file key_file =
     (let ctx = (new_context TlsServer)\<lparr>sc_options := server_options\<rparr>;
          failed = (\<lambda>what. [''[backend] TLS error: '' @ what,
                     ''[backend] generate cert: openssl req -x509 -newkey rsa:2048 -nodes -keyout tls/key.pem -out tls/cert.pem -days 365 -subj /CN=localhost''])
      in if \<not> cert_loads lib cert_file then Inl (failed (asio_error lib ''use_certificate_chain_file''))
         else if \<not> key_loads lib cert_file key_file then Inl (failed (asio_error lib ''use_private_key_file''))
         else Inr (ctx\<lparr>sc_cert := Some cert_file, sc_key := Some key_file\<rparr>))"

text \<open>\<open>makeSslContext\<close> of the HTTP client, and the same statements in the WebSocket client's constructor.\<close>

definition makeSslContext :: "bool \<Rightarrow> SslContext" where
  "makeSslContext verify_cert =
     (new_context TlsClient)\<lparr>sc_options := [default_workarounds, no_sslv2, no_sslv3],
        sc_verify := (if verify_cert then VerifyPeer else VerifyNone)\<rparr>"

definition ws_client_context :: "bool \<Rightarrow> SslContext" where
  "ws_client_context verify_cert =
     (let ctx = (new_context TlsClient)\<lparr>sc_options := [default_workarounds, no_sslv2, no_sslv3]\<rparr>
      in if verify_cert then ctx\<lparr>sc_verify := VerifyPeer\<rparr> else ctx\<lparr>sc_verify := VerifyNone\<rparr>)"

section \<open>Handshakes\<close>

datatype tls_version = SSLv2 | SSLv3 | TLSv1 | TLSv1_1 | TLSv1_2 | TLSv1_3

fun disabled_by :: "tls_option \<Rightarrow> tls_version option" where
  "disabled_by no_sslv2 = Some SSLv2"
| "disabled_by no_sslv3 = Some SSLv3"
| "disabled_by no_tlsv1 = Some TLSv1"
| "disabled_by no_tlsv1_1 = Some TLSv1_1"
| "disabled_by _ = None"

text \<open>The versions a TLS context negotiates are those no option disables.\<close>

definition negotiates :: "SslContext \<Rightarrow> tls_version \<Rightarrow> bool" where
  "negotiates ctx v \<longleftrightarrow> sc_method ctx \<noteq> DtlsServer \<and> Some v \<notin> disabled_by ` set (sc_options ctx)"

text \<open>A client context refuses a certificate only when it verifies the peer.\<close>

definition accepts_certificate :: "(string \<Rightarrow> bool) \<Rightarrow> SslContext \<Rightarrow> string \<Rightarrow> bool" where
  "accepts_certificate trusted ctx cert \<longleftrightarrow> sc_verify ctx = VerifyNone \<or> trusted cert"

text \<open>
  A server and a client of this repository agree on TLS 1.2 or 1.3 and on nothing older,
  although the client would.
\<close>

lemma server_versions:
  assumes "makeTlsContext lib cert_file key_file = Inr ctx \<or> backend_tls lib cert_file key_file = Inr ctx"
  shows "negotiates ctx v \<longleftrightarrow> v = TLSv1_2 \<or> v = TLSv1_3"
  using assms
  by (cases v) (auto simp: makeTlsContext_def backend_tls_def new_context_def server_options_def negotiates_def Let_def split: if_splits)

lemma client_versions: "negotiates (makeSslContext b) v \<longleftrightarrow> v \<notin> {SSLv2, SSLv3}" "ws_client_context b = makeSslContext b"
  by (cases v) (auto simp: makeSslContext_def ws_client_context_def new_context_def negotiates_def)

text \<open>Every client context of the program is made with \<open>verify_cert = false\<close>, and then any certificate will do.\<close>

lemma client_takes_any_certificate: "accepts_certificate trusted (makeSslContext False) cert"
  by (simp add: accepts_certificate_def makeSslContext_def)

lemma client_could_verify: "accepts_certificate trusted (makeSslContext True) cert = trusted cert"
  by (simp add: accepts_certificate_def makeSslContext_def)

text \<open>The two contexts of the TURN server load from the same files or fail together.\<close>

lemma tls_dtls_agree:
  assumes "c_str cert_file = cert_file" "c_str key_file = key_file"
  shows "(\<exists>ctx. makeTlsContext lib cert_file key_file = Inr ctx) \<longleftrightarrow> (\<exists>ctx. fst (makeDtlsContext lib cert_file key_file) = Inr ctx)"
  using assms by (simp add: makeTlsContext_def makeDtlsContext_def Let_def)

text \<open>A DTLS context that cannot load its files is not freed; nothing leaks otherwise.\<close>

lemma dtls_context_leak:
  "snd (makeDtlsContext lib cert_file key_file) =
     (if ctx_new lib \<and> \<not> (cert_loads lib (c_str cert_file) \<and> key_loads lib (c_str cert_file) (c_str key_file)) then 1 else 0)"
  by (simp add: makeDtlsContext_def Let_def)

text \<open>Any sixteen bytes pass as the cookie, whatever was generated.\<close>

lemma cookie_forged: "length forged = 16 \<Longrightarrow> cookie_verify forged"
  by (simp add: cookie_verify_def)

end
