(* ===== verification/Http_Client.thy ===== *)
theory Http_Client
  imports Http_Api Tls_Contexts
begin

text \<open>
  \<open>client_cli/src/http/http_client.cpp\<close>: the requests the client sends, and the blocking calls
  of one exchange with their exceptions. What Asio, OpenSSL and Beast answer to each call is
  a parameter, the \<open>network\<close>. The requests are defined over any \<open>exchange\<close>: the text of an
  exception, or the status and body of the response.
\<close>

type_synonym exchange = "string \<Rightarrow> u16 \<Rightarrow> http_request \<Rightarrow> string + nat \<times> string"

definition http_post :: "exchange \<Rightarrow> string \<Rightarrow> u16 \<Rightarrow> string \<Rightarrow> string \<Rightarrow> string \<Rightarrow> string + nat \<times> string" where
  "http_post ex host port path payload ctype =
     ex host port \<lparr>hr_method = ''POST'', hr_target = path, hr_body = payload,
       hr_fields = [(''Host'', host), (''Content-Type'', ctype), (''Connection'', ''close''),
                    (''Content-Length'', to_string (int (length payload)))],
       hr_upgrade = False\<rparr>"

definition http_get :: "exchange \<Rightarrow> string \<Rightarrow> u16 \<Rightarrow> string \<Rightarrow> string \<Rightarrow> string + nat \<times> string" where
  "http_get ex host port path bearer_token =
     ex host port \<lparr>hr_method = ''GET'', hr_target = path, hr_body = [],
       hr_fields = [(''Host'', host), (''Connection'', ''close'')]
                   @ (if bearer_token \<noteq> [] then [(''Authorization'', ''Bearer '' @ bearer_token)] else []),
       hr_upgrade = False\<rparr>"

section \<open>The exchange over the network\<close>

text \<open>The results of the calls; \<open>Inl\<close> is the text of the exception the library throws.\<close>

record network =
  net_resolve :: "string \<Rightarrow> string \<Rightarrow> string + string list"
  net_sni :: "string \<Rightarrow> bool"
  net_connect :: "string list \<Rightarrow> string option"
  net_handshake :: "SslContext \<Rightarrow> string option"
  net_write :: "http_request \<Rightarrow> string option"
  net_read :: "http_request \<Rightarrow> string + nat \<times> string"

datatype net_call = Resolve | SetSni | Connect | Handshake | WriteRequest | ReadResponse | ShutdownTls

text \<open>The calls of \<open>post\<close> and \<open>get\<close>, in order, up to the first that throws. The result of \<open>shutdown\<close> is ignored.\<close>

definition http_calls :: "network \<Rightarrow> bool \<Rightarrow> string \<Rightarrow> u16 \<Rightarrow> http_request \<Rightarrow> net_call list \<times> (string + nat \<times> string)" where
  "http_calls net verify_cert host port req =
     (let ctx = makeSslContext verify_cert
      in case net_resolve net host (to_string (uint port)) of
           Inl err \<Rightarrow> ([Resolve], Inl err)
         | Inr results \<Rightarrow>
             if \<not> net_sni net (c_str host) then ([Resolve, SetSni], Inl ''SNI setup failed'')
             else case net_connect net results of
               Some err \<Rightarrow> ([Resolve, SetSni, Connect], Inl err)
             | None \<Rightarrow> (case net_handshake net ctx of
                 Some err \<Rightarrow> ([Resolve, SetSni, Connect, Handshake], Inl err)
               | None \<Rightarrow> (case net_write net req of
                   Some err \<Rightarrow> ([Resolve, SetSni, Connect, Handshake, WriteRequest], Inl err)
                 | None \<Rightarrow> (case net_read net req of
                     Inl err \<Rightarrow> ([Resolve, SetSni, Connect, Handshake, WriteRequest, ReadResponse], Inl err)
                   | Inr resp \<Rightarrow> ([Resolve, SetSni, Connect, Handshake, WriteRequest, ReadResponse, ShutdownTls], Inr resp)))))"

definition http_exchange :: "network \<Rightarrow> bool \<Rightarrow> exchange" where
  "http_exchange net verify_cert host port req = snd (http_calls net verify_cert host port req)"

text \<open>
  A response comes back exactly when every call succeeds, and the request leaves the client
  only after the handshake.
\<close>

lemma http_exchange_Inr:
  "http_exchange net verify_cert host port req = Inr resp \<longleftrightarrow>
     (\<exists>results. net_resolve net host (to_string (uint port)) = Inr results \<and> net_sni net (c_str host)
        \<and> net_connect net results = None \<and> net_handshake net (makeSslContext verify_cert) = None
        \<and> net_write net req = None \<and> net_read net req = Inr resp)"
  by (simp add: http_exchange_def http_calls_def Let_def split: sum.split option.split)

lemma request_after_handshake:
  "WriteRequest \<in> set (fst (http_calls net verify_cert host port req)) \<Longrightarrow> net_handshake net (makeSslContext verify_cert) = None"
  by (auto simp: http_calls_def Let_def split: sum.splits option.splits if_splits)

text \<open>
  The client never verifies a certificate: whoever answers on the way to the server, with
  any certificate, gets the request, which for a login holds the password.
\<close>

lemma impostor_gets_request:
  assumes "net_resolve net host (to_string (uint port)) = Inr results" "net_sni net (c_str host)" "net_connect net results = None"
    and "\<And>ctx. net_handshake net ctx = (if accepts_certificate trusted ctx impostor_cert then None else Some ''certificate verify failed'')"
  shows "WriteRequest \<in> set (fst (http_calls net False host port req))"
  using assms client_takes_any_certificate
  by (simp add: http_calls_def Let_def split: sum.split option.split)

section \<open>The other end\<close>

text \<open>The exchange with a server whose handlers answer from the accounts \<open>svc\<close>.\<close>

definition answered_by :: "Routes \<Rightarrow> api_env \<Rightarrow> AuthService \<Rightarrow> exchange" where
  "answered_by routes e svc host port req =
     (case handle_request routes e req svc of
        (Respond resp, _) \<Rightarrow> Inr (status resp, body resp)
      | (Upgrade _, _) \<Rightarrow> Inl ''end of stream'')"

text \<open>The server finds the token a client sends with a request.\<close>

lemma bearer_sent:
  "token \<noteq> [] \<Longrightarrow> extractBearer \<lparr>rq_method = m, rq_target = t, rq_body = b,
     rq_headers = fold (\<lambda>(k, v). um_set k v) [(''Host'', host), (''Connection'', ''close''), (''Authorization'', ''Bearer '' @ token)] []\<rparr> = token"
  by (simp add: extractBearer_def)

text \<open>A login request with the right password is answered with a token.\<close>

lemma login_answered:
  fixes e :: api_env
  assumes "db_up (auth_env.truncate e)" "um_find (user_store svc) (c_str uid) = Some (hashPassword (auth_env.truncate e) pw)"
    and "json_ok (ae_json e) (obj [(''userId'', JStr uid), (''password'', JStr pw)])"
  shows "http_post (answered_by (registerRoutes cfg []) e svc) host port ''/api/auth/login''
      (json_dump (ae_json e) (obj [(''userId'', JStr uid), (''password'', JStr pw)])) ct =
    Inr (200, json_dump (ae_json e) (obj [(''token'', JStr (Jwt_sign (auth_env.truncate e) (jwt_secret svc) uid (token_ttl svc))), (''userId'', JStr uid)]))"
proof -
  have "login (auth_env.truncate e) uid pw svc =
      Inr \<lparr>lr_token = Jwt_sign (auth_env.truncate e) (jwt_secret svc) uid (token_ttl svc), lr_userId = uid\<rparr>"
    using assms(1,2) by (simp add: login_iff)
  then show ?thesis
    using assms(3) by (simp add: http_post_def answered_by_def handle_request_def find_routes path_of_def Let_def login_route_def
        json_ok_def json_response_def)
qed

end
