(* ===== verification/Login.thy ===== *)
theory Login
  imports Http_Client Backend Client_App
begin

text \<open>
  Logging in, across the client and the backend: the command of the terminal, the HTTP
  request, the login route, the token, and the web socket that is opened with it.
\<close>

definition upgrade_request :: "string \<Rightarrow> http_request" where
  "upgrade_request token = \<lparr>hr_method = ''GET'', hr_target = ws_target token, hr_body = [], hr_fields = [], hr_upgrade = True\<rparr>"

text \<open>A request with a token that verifies registers its session.\<close>

lemma upgrade_registers:
  assumes "Jwt_verify (auth_env.truncate eb) (jwt_secret (be_auth be)) token = Inr p" "token \<noteq> []" "CHR ''&'' \<notin> set token"
  obtains be' where "be_request eb (upgrade_request token) be = ([], be')"
    "um_find (ws_sessions (be_ws be')) (jp_userId p) = Some (be_next be)"
    "um_find (be_sessions be') (be_next be) = Some \<lparr>wss_userId = jp_userId p, wss_reading = True\<rparr>"
    "\<And>other. other \<noteq> jp_userId p \<Longrightarrow> um_find (ws_sessions (be_ws be')) other = um_find (ws_sessions (be_ws be)) other"
  using assms extractToken_target [OF assms(3)]
  by (simp add: be_request_def handle_request_def upgrade_request_def ws_accept_def verifyToken_def)

section \<open>Properties\<close>

text \<open>
  C20. Logging in works end to end: for a user of the database, a client that reaches the
  server and types \<open>login\<close> with the right password gets the user's token and connects with
  it; until the token expires the backend registers the web socket request of this client
  for exactly this user, so that the router's messages for the user go to it, and other
  users keep their sessions.
\<close>

theorem login_end_to_end:
  fixes ec :: app_env and eb eb' :: backend_env and be :: Backend and u :: string
  defines "token \<equiv> Jwt_sign (auth_env.truncate eb) (jwt_secret (be_auth be)) u (token_ttl (be_auth be))"
  assumes client: "accepts_login app" "\<not> read_thread_joinable (app_ws app)" "parse_command line = \<lparr>cmd_name = ''login'', cmd_args = [u, p]\<rparr>"
    and user: "um_find (user_store (be_auth be)) (c_str u) = Some (hashPassword (auth_env.truncate eb) p)" "db_up (auth_env.truncate eb)"
    and net: "ce_post ec = (\<lambda>host port path payload. http_post (answered_by (be_routes be) (api_env.truncate eb) (be_auth be)) host port path payload ''application/json'')"
      "ws_connect_ok ec token" "be_routes be = registerRoutes cfg []"
    and js: "ae_json eb = ce_json ec" "json_ok (ce_json ec) (obj [(''userId'', JStr u), (''password'', JStr p)])"
      "json_ok (ce_json ec) (obj [(''token'', JStr token), (''userId'', JStr u)])"
    and tok: "jwt_ok (ae_jwt eb)" "token \<noteq> []" "CHR ''&'' \<notin> set token"
    and later: "ae_jwt eb' = ae_jwt eb" "ae_wall eb \<le> ae_wall eb'" "ae_wall eb' \<le> ae_wall eb + token_ttl (be_auth be)"
  shows "\<exists>outs app'. app_line ec line app = Some (outs, app')
     \<and> ses_userId (app_session app') = u \<and> ses_jwt (app_session app') = token \<and> ws_connected (app_ws app')
     \<and> (\<exists>be'. be_request eb' (upgrade_request (ses_jwt (app_session app'))) be = ([], be')
          \<and> ws_send u m (be_ws be') = Some (be_next be, m)
          \<and> um_find (be_sessions be') (be_next be) = Some \<lparr>wss_userId = u, wss_reading = True\<rparr>
          \<and> (\<forall>other. other \<noteq> u \<longrightarrow> ws_send other m (be_ws be') = ws_send other m (be_ws be)))"
proof -
  let ?body = "json_dump (ce_json ec) (obj [(''token'', JStr token), (''userId'', JStr u)])"
  have tr: "auth_env.truncate (api_env.truncate eb) = auth_env.truncate eb" "ae_json (api_env.truncate eb) = ae_json eb"
    by (simp_all add: auth_env.truncate_def api_env.truncate_def)
  have post: "post_account (client_env.truncate ec) ''/api/auth/login'' [u, p] = Inr (200, ?body)"
    using login_answered [of "api_env.truncate eb" "be_auth be" u p cfg] user js net(1,3) tr
    by (simp add: post_account_def client_env.truncate_def token_def)
  obtain outs app' where a: "app_line ec line app = Some (outs, app')" "ws_connected (app_ws app')"
    "ses_jwt (app_session app') = token" "ses_userId (app_session app') = u"
    using login_line [OF client(1,3) post _ tok(2) net(2), of u] js(3) client(2) by (auto simp: json_ok_def)
  have "Jwt_verify (auth_env.truncate eb') (jwt_secret (be_auth be)) token
      = Inr \<lparr>jp_userId = u, jp_exp = ae_wall eb + token_ttl (be_auth be)\<rparr>"
    using tok(1) [unfolded jwt_ok_def, rule_format, of "ae_wall eb'" "ae_wall eb + token_ttl (be_auth be)" "ae_wall eb" "jwt_secret (be_auth be)" u] later
    by (simp add: Jwt_verify_def token_def Jwt_sign_def auth_env.truncate_def)
  then obtain be' where "be_request eb' (upgrade_request token) be = ([], be')" "um_find (ws_sessions (be_ws be')) u = Some (be_next be)"
    "um_find (be_sessions be') (be_next be) = Some \<lparr>wss_userId = u, wss_reading = True\<rparr>"
    "\<And>other. other \<noteq> u \<Longrightarrow> um_find (ws_sessions (be_ws be')) other = um_find (ws_sessions (be_ws be)) other"
    using upgrade_registers [OF _ tok(2,3)] by (metis JwtPayload.select_convs(1))
  then have "\<exists>be'. be_request eb' (upgrade_request token) be = ([], be') \<and> ws_send u m (be_ws be') = Some (be_next be, m)
      \<and> um_find (be_sessions be') (be_next be) = Some \<lparr>wss_userId = u, wss_reading = True\<rparr>
      \<and> (\<forall>other. other \<noteq> u \<longrightarrow> ws_send other m (be_ws be') = ws_send other m (be_ws be))" by (auto simp: ws_send_def)
  with a show ?thesis by blast
qed


definition demo_account :: Backend where
  "demo_account = (mk_backend (\<lambda>_. None) [])\<lparr>be_auth := demo_svc\<lparr>user_store := [(''ann'', hashPassword demo_auth_env ''pw'')]\<rparr>\<rparr>"

definition demo_login_json :: json_lib where
  "demo_login_json = list_json [obj [(''userId'', JStr ''ann''), (''password'', JStr ''pw'')], obj [(''token'', JStr demo_ws_token), (''userId'', JStr ''ann'')]]"

definition demo_login_backend_env :: backend_env where
  "demo_login_backend_env = demo_backend_env\<lparr>ae_json := demo_login_json\<rparr>"

definition demo_login_env :: app_env where
  "demo_login_env = demo_app_env\<lparr>ce_json := demo_login_json, ce_post := (\<lambda>host port path payload.
     http_post (answered_by (be_routes demo_account) (api_env.truncate demo_login_backend_env) (be_auth demo_account)) host port path payload ''application/json'')\<rparr>"

theorem login_end_to_end_witness:
  "\<exists>outs app'. app_line demo_login_env ''login ann pw'' mk_app = Some (outs, app')
     \<and> ses_userId (app_session app') = ''ann'' \<and> ses_jwt (app_session app') = demo_ws_token \<and> ws_connected (app_ws app')"
proof -
  have tr: "auth_env.truncate demo_login_backend_env = demo_auth_env" "ae_jwt demo_login_backend_env = demo_jwt" "ae_wall demo_login_backend_env = 100"
    by (simp_all add: demo_login_backend_env_def demo_backend_env_def demo_api_env_def auth_env.defs api_env.defs demo_auth_env_def)
  have svc: "jwt_secret (be_auth demo_account) = ''k''" "token_ttl (be_auth demo_account) = 60"
    "um_find (user_store (be_auth demo_account)) (c_str ''ann'') = Some (hashPassword demo_auth_env ''pw'')"
    by (simp_all add: demo_account_def demo_svc_def c_str_def)
  have token: "Jwt_sign demo_auth_env ''k'' ''ann'' 60 = demo_ws_token"
    by (simp add: Jwt_sign_def demo_ws_token_def demo_auth_env_def demo_jwt_def)
  have tok: "demo_ws_token \<noteq> []" "CHR ''&'' \<notin> set demo_ws_token" by (auto simp: demo_ws_token_def demo_sign_def)
  have js: "ae_json demo_login_backend_env = ce_json demo_login_env" "ce_json demo_login_env = demo_login_json"
    "json_ok demo_login_json (obj [(''userId'', JStr ''ann''), (''password'', JStr ''pw'')])"
    "json_ok demo_login_json (obj [(''token'', JStr demo_ws_token), (''userId'', JStr ''ann'')])"
    by (simp_all add: demo_login_backend_env_def demo_login_env_def demo_login_json_def list_json_ok)
  have line: "parse_command ''login ann pw'' = \<lparr>cmd_name = ''login'', cmd_args = [''ann'', ''pw'']\<rparr>" by code_simp
  have app: "accepts_login mk_app" "\<not> read_thread_joinable (app_ws mk_app)" by (simp_all add: accepts_login_def mk_app_def)
  have up: "db_up demo_auth_env" "ws_connect_ok demo_login_env demo_ws_token" "be_routes demo_account = registerRoutes (turn_config (\<lambda>_. None)) []"
    by (simp_all add: demo_auth_env_def demo_login_env_def demo_app_env_def demo_account_def mk_backend_def)
  have post: "ce_post demo_login_env = (\<lambda>host port path payload.
     http_post (answered_by (be_routes demo_account) (api_env.truncate demo_login_backend_env) (be_auth demo_account)) host port path payload ''application/json'')"
    by (simp add: demo_login_env_def)
  from login_end_to_end [OF app line, of demo_account demo_login_backend_env demo_login_env "turn_config (\<lambda>_. None)" demo_login_backend_env, unfolded tr svc(1,2) token]
  show ?thesis using svc(3) up post js tok demo_jwt_ok by simp blast
qed

end
