(* ===== verification/Ws_Client.thy ===== *)
theory Ws_Client
  imports Prelude
begin

text \<open>
  \<open>reconnectLoop\<close> of \<open>client_cli/src/signaling/ws_client.cpp\<close>. Time is counted in the sleeps of
  100 milliseconds; \<open>stop k i\<close> is what the flag says after \<open>i\<close> of them and before the end of the
  \<open>k\<close>-th attempt, so that it can change in a sleep and in an attempt, and \<open>conn k\<close> is whether
  the \<open>k\<close>-th attempt connects. The result is how the loop ends, with the sleeps it took and the
  attempts it made. The connection itself is part of the client's state machine.
\<close>

section \<open>The loop\<close>

definition kMaxRetries :: int where "kMaxRetries = 10"
definition kBaseDelayMs :: int where "kBaseDelayMs = 500"
definition kMaxDelayMs :: int where "kMaxDelayMs = 30000"

datatype reconnect_result = Returned | Reconnected | GaveUp

function wait_loop :: "(nat \<Rightarrow> bool) \<Rightarrow> int \<Rightarrow> int \<Rightarrow> nat \<Rightarrow> nat" where
  "wait_loop stop delay elapsed t =
     (if elapsed < delay \<and> \<not> stop t then wait_loop stop delay (elapsed + 100) (t + 1) else t)"
  by auto
termination by (relation "measure (\<lambda>(s, d, el, t). nat (d - el))") auto

function retry_loop ::
    "(int \<Rightarrow> nat \<Rightarrow> bool) \<Rightarrow> (int \<Rightarrow> bool) \<Rightarrow> int \<Rightarrow> int \<Rightarrow> nat \<Rightarrow> reconnect_result \<times> nat \<times> int list" where
  "retry_loop stop conn attempt delay t =
     (if attempt \<le> kMaxRetries \<and> \<not> stop attempt t then
        let t = wait_loop (stop attempt) delay 0 t
        in if stop attempt t then (Returned, t, [])
           else if conn attempt then (Reconnected, t, [attempt])
           else (case retry_loop stop conn (attempt + 1) (min (delay * 2) kMaxDelayMs) t of
                   (r, t', attempts) \<Rightarrow> (r, t', attempt # attempts))
      else (GaveUp, t, []))"
  by auto
termination by (relation "measure (\<lambda>(s, c, a, d, t). nat (kMaxRetries + 1 - a))") auto

definition reconnectLoop :: "(int \<Rightarrow> nat \<Rightarrow> bool) \<Rightarrow> (int \<Rightarrow> bool) \<Rightarrow> reconnect_result \<times> nat \<times> int list" where
  "reconnectLoop stop conn = retry_loop stop conn 1 kBaseDelayMs 0"

declare wait_loop.simps [simp del] retry_loop.simps [simp del]

section \<open>The schedule\<close>

text \<open>The sleeps before the first \<open>n\<close> attempts, when the first wait is \<open>d\<close> sleeps long.\<close>

fun ticks :: "nat \<Rightarrow> nat \<Rightarrow> nat" where
  "ticks 0 d = 0"
| "ticks (Suc n) d = d + ticks n (min (2 * d) 300)"

lemma wait_loop_bound:
  "wait_loop stop (100 * int (j + m)) (100 * int j) t \<le> t + m"
proof (induction m arbitrary: j t)
  case 0
  then show ?case by (subst wait_loop.simps) simp
next
  case (Suc m)
  then show ?case using Suc.IH [of "Suc j" "Suc t"] by (subst wait_loop.simps) (simp add: algebra_simps)
qed

lemma wait_loop_unstopped:
  "wait_loop (\<lambda>i. False) (100 * int (j + m)) (100 * int j) t = t + m"
proof (induction m arbitrary: j t)
  case 0
  then show ?case by (subst wait_loop.simps) simp
next
  case (Suc m)
  then show ?case using Suc.IH [of "Suc j" "Suc t"] by (subst wait_loop.simps) (simp add: algebra_simps)
qed

lemma next_delay: "min (100 * int d * 2) kMaxDelayMs = 100 * int (min (2 * d) 300)"
  by (simp add: kMaxDelayMs_def min_def)

lemma retry_bound:
  "retry_loop stop conn (11 - int n) (100 * int d) t = (r, t', attempts) \<Longrightarrow>
     t' \<le> t + ticks n d \<and> (\<exists>k \<le> n. attempts = map (\<lambda>i. 11 - int n + int i) [0..<k]) \<and>
     (r = Reconnected \<longrightarrow> attempts \<noteq> [] \<and> conn (last attempts))"
proof (induction n arbitrary: d t r t' attempts)
  case 0
  then show ?case by (subst (asm) retry_loop.simps) (auto simp: kMaxRetries_def)
next
  case (Suc n)
  let ?a = "11 - int (Suc n)" and ?t = "wait_loop (stop (11 - int (Suc n))) (100 * int d) 0 t"
  have w: "?t \<le> t + d" using wait_loop_bound [of "stop ?a" 0 d t] by simp
  obtain r1 t1 as1 where r1: "retry_loop stop conn (11 - int n) (100 * int (min (2 * d) 300)) ?t = (r1, t1, as1)"
    by (metis prod_cases3)
  note IH = Suc.IH [OF r1]
  have a1: "?a + 1 = 11 - int n" by simp
  show ?case
  proof (cases "stop ?a t \<or> stop ?a ?t \<or> conn ?a")
    case True
    then show ?thesis using Suc.prems w
      by (subst (asm) retry_loop.simps)
        (auto simp: kMaxRetries_def Let_def a1 split: if_splits prod.splits intro: exI [of _ 0] exI [of _ 1])
  next
    case False
    then have eq: "r = r1" "t' = t1" "attempts = ?a # as1"
      using Suc.prems r1 unfolding retry_loop.simps [of stop conn ?a] a1 next_delay
      by (simp_all add: kMaxRetries_def Let_def)
    obtain k where k: "k \<le> n" "as1 = map (\<lambda>i. 11 - int n + int i) [0..<k]" using IH by blast
    have "attempts = map (\<lambda>i. ?a + int i) [0..<Suc k]"
      unfolding eq(3) k(2) by (simp add: map_upt_Suc algebra_simps del: upt_Suc)
    then have "\<exists>k \<le> Suc n. attempts = map (\<lambda>i. ?a + int i) [0..<k]" using k(1) by (intro exI [of _ "Suc k"]) simp
    then show ?thesis using IH w eq by auto
  qed
qed

lemma retry_unstopped:
  "k < n \<Longrightarrow> (\<forall>i < k. \<not> conn (11 - int n + int i)) \<Longrightarrow> conn (11 - int n + int k) \<Longrightarrow>
    \<exists>as. retry_loop (\<lambda>k i. False) conn (11 - int n) (100 * int d) t = (Reconnected, t + ticks (Suc k) d, as)"
proof (induction n arbitrary: d t k)
  case (Suc n)
  let ?a = "11 - int (Suc n)"
  have w: "wait_loop (\<lambda>i. False) (100 * int d) 0 t = t + d"
    using wait_loop_unstopped [of 0 d t] by simp
  have a1: "?a + 1 = 11 - int n" by simp
  show ?case
  proof (cases k)
    case 0
    then show ?thesis using Suc.prems w
      by (subst retry_loop.simps) (simp add: kMaxRetries_def Let_def)
  next
    case (Suc j)
    have "\<forall>i < j. \<not> conn (11 - int n + int i)"
    proof (intro allI impI)
      fix i assume "i < j"
      then have "\<not> conn (?a + int (Suc i))" using Suc.prems(2) Suc by blast
      then show "\<not> conn (11 - int n + int i)" by (simp add: algebra_simps)
    qed
    moreover have "conn (11 - int n + int j)" using Suc.prems(3) Suc by (simp add: algebra_simps)
    moreover have "j < n" using Suc.prems(1) Suc by simp
    ultimately obtain as where
      "retry_loop (\<lambda>k i. False) conn (11 - int n) (100 * int (min (2 * d) 300)) (t + d) = (Reconnected, t + d + ticks (Suc j) (min (2 * d) 300), as)"
      using Suc.IH by blast
    moreover have "\<not> conn ?a" using Suc.prems(2) Suc by fastforce
    ultimately show ?thesis using w Suc
      unfolding retry_loop.simps [of "\<lambda>k i. False" conn ?a] a1 next_delay by (simp add: kMaxRetries_def Let_def)
  qed
qed simp

section \<open>Properties\<close>

text \<open>
  C29. Reconnecting ends: whatever the flag and the server do, the loop makes at most ten
  attempts, numbered from 1, sleeps at most 151.5 seconds in all, and reports success only
  after an attempt that connected. When the flag stays clear, the first attempt that can
  connect is made, after the waits of the doubling schedule before it.
\<close>

theorem reconnect_terminates:
  assumes "reconnectLoop stop conn = (r, t, attempts)"
  shows "t \<le> 1515 \<and> (\<exists>k \<le> 10. attempts = map (\<lambda>i. 1 + int i) [0..<k]) \<and>
    (r = Reconnected \<longrightarrow> attempts \<noteq> [] \<and> conn (last attempts)) \<and>
    (\<forall>k < 10. (\<forall>k i. \<not> stop k i) \<and> (\<forall>i < k. \<not> conn (1 + int i)) \<and> conn (1 + int k) \<longrightarrow>
       r = Reconnected \<and> t = ticks (Suc k) 5)"
proof -
  have eq: "retry_loop stop conn (11 - int 10) (100 * int 5) 0 = (r, t, attempts)"
    using assms by (simp add: reconnectLoop_def kBaseDelayMs_def)
  have "ticks 10 5 = 1515" by (simp add: numeral_eq_Suc)
  moreover have "r = Reconnected \<and> t = ticks (Suc k) 5"
    if k: "k < 10" "\<forall>k i. \<not> stop k i" "\<forall>i < k. \<not> conn (1 + int i)" "conn (1 + int k)" for k
  proof -
    have "stop = (\<lambda>k i. False)" using k(2) by blast
    then show ?thesis using retry_unstopped [of k 10 conn 5 0] k eq by auto
  qed
  ultimately show ?thesis using retry_bound [OF eq] by auto
qed

theorem reconnect_terminates_witness:
  "\<exists>r attempts. reconnectLoop (\<lambda>k i. False) (\<lambda>k. k = 3) = (r, 35, attempts) \<and> r = Reconnected"
proof -
  obtain r t attempts where l: "reconnectLoop (\<lambda>k i. False) (\<lambda>k. k = 3) = (r, t, attempts)" by (rule prod_cases3)
  have "ticks 3 5 = 35" by (simp add: numeral_eq_Suc)
  then show ?thesis using reconnect_terminates [OF l] l by (auto dest: spec [of _ 2])
qed

end
