(* ===== verification/Ws_Threads.thy ===== *)
theory Ws_Threads
  imports Prelude
begin

text \<open>
  The threads of the client's \<open>WsClient\<close> (\<open>client_cli/src/signaling/ws_client.cpp\<close>): the caller's
  thread with \<open>connect\<close> and \<open>disconnect\<close>, the reader of \<open>readLoop\<close> and the thread of
  \<open>reconnectLoop\<close>, interleaved in any order. The contents of the messages and the times of the
  reconnect schedule are in the theories of the client's wiring and of \<open>reconnectLoop\<close>.
\<close>

section \<open>State\<close>

text \<open>
  Where each thread is. A thread that has not been joined stays joinable after its end
  (\<open>REnded\<close>, \<open>CEnded\<close>). \<open>RHead\<close> is the loop condition of \<open>readLoop\<close>, \<open>RReading\<close> the blocking
  read, \<open>RClosing\<close> the error branch from \<open>on_close_\<close> on; \<open>CWaiting\<close> covers the sleeps of an
  attempt, \<open>CJoining\<close> the part after its test of \<open>stop_\<close>, \<open>CConnecting\<close> the call of \<open>connect\<close>.
\<close>

datatype reader_pc = RNone | RHead | RReading | RClosing | REnded

datatype reconnect_pc = CNone | CWaiting | CJoining | CConnecting | CEnded

datatype caller_pc = Idle | JoinReader | JoinReconnect | Destroying | Destroyed

record WsThreads =
  wt_stop :: bool
  wt_connected :: bool
  wt_stream :: bool
  read_thread :: reader_pc
  reconnect_thread :: reconnect_pc
  caller :: caller_pc
  wt_aborted :: bool


section \<open>Operations\<close>

text \<open>
  The successful end of \<open>connect\<close>: the assignment to \<open>read_thread_\<close> calls \<open>std::terminate\<close> when
  that thread is joinable.
\<close>

definition connect_done :: "WsThreads \<Rightarrow> WsThreads" where
  "connect_done wt =
     (if read_thread wt \<noteq> RNone then wt\<lparr>wt_stream := True, wt_connected := True, wt_aborted := True\<rparr>
      else wt\<lparr>wt_stream := True, wt_connected := True, read_thread := RHead\<rparr>)"

text \<open>\<open>readLoop\<close>: the loop condition, then what the read gives.\<close>

definition reader_head :: "WsThreads \<Rightarrow> WsThreads" where
  "reader_head wt = wt\<lparr>read_thread := if wt_stop wt \<or> \<not> wt_stream wt then REnded else RReading\<rparr>"

definition reader_error :: "WsThreads \<Rightarrow> WsThreads" where
  "reader_error wt = wt\<lparr>wt_connected := False, read_thread := if wt_stop wt then REnded else RClosing\<rparr>"

text \<open>A reconnect thread that has ended is joined before it is replaced.\<close>

definition spawn_reconnect :: "WsThreads \<Rightarrow> WsThreads" where
  "spawn_reconnect wt =
     (if reconnect_thread wt = CNone \<or> reconnect_thread wt = CEnded
      then wt\<lparr>reconnect_thread := CWaiting, read_thread := REnded\<rparr> else wt)"

text \<open>\<open>reconnectLoop\<close>: the end of the sleeps, the join of the reader, the end of \<open>connect\<close>.\<close>

definition reconnect_wake :: "WsThreads \<Rightarrow> WsThreads" where
  "reconnect_wake wt = wt\<lparr>reconnect_thread := if wt_stop wt then CEnded else CJoining\<rparr>"

definition reconnect_join :: "WsThreads \<Rightarrow> WsThreads" where
  "reconnect_join wt =
     (if read_thread wt = RNone \<or> read_thread wt = REnded
      then wt\<lparr>read_thread := RNone, wt_stream := False, reconnect_thread := CConnecting\<rparr> else wt)"

text \<open>\<open>disconnect\<close>, called by the destructor: up to the join of the reader, and the two joins.\<close>

definition disconnect_begin :: "WsThreads \<Rightarrow> WsThreads" where
  "disconnect_begin wt = wt\<lparr>wt_stop := True, wt_connected := False, caller := JoinReader\<rparr>"

definition join_reader :: "WsThreads \<Rightarrow> WsThreads" where
  "join_reader wt =
     (if read_thread wt = RNone \<or> read_thread wt = REnded
      then wt\<lparr>read_thread := RNone, wt_stream := False, caller := JoinReconnect\<rparr> else wt)"

definition join_reconnect :: "WsThreads \<Rightarrow> WsThreads" where
  "join_reconnect wt =
     (if reconnect_thread wt = CNone \<or> reconnect_thread wt = CEnded
      then wt\<lparr>reconnect_thread := CNone, caller := Destroying\<rparr> else wt)"

text \<open>The destructor of a joinable \<open>std::thread\<close> calls \<open>std::terminate\<close>.\<close>

definition destroy_members :: "WsThreads \<Rightarrow> WsThreads" where
  "destroy_members wt =
     wt\<lparr>caller := Destroyed, wt_aborted := (wt_aborted wt \<or> read_thread wt \<noteq> RNone \<or> reconnect_thread wt \<noteq> CNone)\<rparr>"

section \<open>Interleaving\<close>

text \<open>One step of one of the threads; a thread that is elsewhere, or has to wait, does not move.\<close>

datatype ws_event =
    Connect | Disconnect | JoinedReader | JoinedReconnect | Destroy
  | ReaderHead | ReadMessage | ReadError | SpawnReconnect
  | Wake | GiveUp | JoinedOld | ConnectOk | ConnectFailed

fun wt_step :: "ws_event \<Rightarrow> WsThreads \<Rightarrow> WsThreads" where
  "wt_step Connect wt = (if caller wt = Idle then connect_done wt else wt)"
| "wt_step Disconnect wt = (if caller wt = Idle then disconnect_begin wt else wt)"
| "wt_step JoinedReader wt = (if caller wt = JoinReader then join_reader wt else wt)"
| "wt_step JoinedReconnect wt = (if caller wt = JoinReconnect then join_reconnect wt else wt)"
| "wt_step Destroy wt = (if caller wt = Destroying then destroy_members wt else wt)"
| "wt_step ReaderHead wt = (if read_thread wt = RHead then reader_head wt else wt)"
| "wt_step ReadMessage wt = (if read_thread wt = RReading then wt\<lparr>read_thread := RHead\<rparr> else wt)"
| "wt_step ReadError wt = (if read_thread wt = RReading then reader_error wt else wt)"
| "wt_step SpawnReconnect wt = (if read_thread wt = RClosing then spawn_reconnect wt else wt)"
| "wt_step Wake wt = (if reconnect_thread wt = CWaiting then reconnect_wake wt else wt)"
| "wt_step GiveUp wt = (if reconnect_thread wt = CWaiting then wt\<lparr>reconnect_thread := CEnded\<rparr> else wt)"
| "wt_step JoinedOld wt = (if reconnect_thread wt = CJoining then reconnect_join wt else wt)"
| "wt_step ConnectOk wt =
     (if reconnect_thread wt = CConnecting then (connect_done wt)\<lparr>reconnect_thread := CEnded\<rparr> else wt)"
| "wt_step ConnectFailed wt = (if reconnect_thread wt = CConnecting then wt\<lparr>reconnect_thread := CWaiting\<rparr> else wt)"

section \<open>Invariant\<close>

text \<open>
  After the login: while the reconnect thread is at work the reader has ended, and both are
  never at work together.
\<close>

definition attempting :: "WsThreads \<Rightarrow> bool" where
  "attempting wt \<longleftrightarrow> reconnect_thread wt = CJoining \<or> reconnect_thread wt = CConnecting"

definition wt_inv :: "WsThreads \<Rightarrow> bool" where
  "wt_inv wt \<longleftrightarrow> \<not> wt_aborted wt
   \<and> (read_thread wt \<in> {RHead, RReading, RClosing} \<longrightarrow> reconnect_thread wt \<in> {CNone, CEnded})
   \<and> (reconnect_thread wt = CConnecting \<longrightarrow> read_thread wt = RNone)
   \<and> (wt_stop wt \<longleftrightarrow> caller wt \<noteq> Idle)
   \<and> (caller wt \<noteq> Idle \<longrightarrow> \<not> attempting wt)
   \<and> (caller wt \<in> {JoinReconnect, Destroying, Destroyed} \<longrightarrow> read_thread wt = RNone)
   \<and> (caller wt \<in> {Destroying, Destroyed} \<longrightarrow> reconnect_thread wt = CNone)"

lemmas wt_defs = attempting_def connect_done_def disconnect_begin_def join_reader_def join_reconnect_def destroy_members_def
  reader_head_def reader_error_def spawn_reconnect_def reconnect_wake_def reconnect_join_def

lemma wt_step_inv:
  assumes "wt_inv wt" "e \<noteq> Connect" "e = Disconnect \<Longrightarrow> \<not> attempting wt"
  shows "wt_inv (wt_step e wt)"
  using assms unfolding wt_inv_def
  by (cases e; cases "read_thread wt"; cases "reconnect_thread wt") (simp_all add: wt_defs)

interpretation wt: invariant_machine wt_step "\<lambda>e. e \<noteq> Connect \<and> e \<noteq> Disconnect" wt_inv
  by unfold_locales (auto intro: wt_step_inv)



section \<open>Leaving the program\<close>






section \<open>Property\<close>



end
