(* ===== verification/Exchange.thy ===== *)
theory Exchange
  imports Call_Manager
begin

text \<open>
  What the call manager promises to its users, without call ids, tables and clocks: a
  telephone exchange. Every user has one line, which is free, dials another user, is rung by
  one, or is in conversation with one. The call manager refines this: read as the state of
  everybody's line, each of its operations is a sequence of steps of the exchange.
\<close>

section \<open>The exchange\<close>

datatype line = Free | Dialing string | Rung string | Talking string

type_synonym exchange = "string \<Rightarrow> line"

inductive exchange_step :: "exchange \<Rightarrow> exchange \<Rightarrow> bool" where
  dial: "x a = Free \<Longrightarrow> x b = Free \<Longrightarrow> exchange_step x (x(a := Dialing b, b := Rung a))"
| answer: "x b = Rung a \<Longrightarrow> exchange_step x (x(a := Talking b, b := Talking a))"
| release: "x b = Rung a \<or> x b = Talking a \<Longrightarrow> exchange_step x (x(a := Free, b := Free))"

inductive_cases exchange_stepE: "exchange_step x y"






section \<open>The lines of the call manager's users\<close>

definition side :: "string \<Rightarrow> CallSession \<Rightarrow> line" where
  "side user s =
     (if call_state s = Active then Talking (if callerId s = user then calleeId s else callerId s)
      else if calleeId s = user then Rung (callerId s) else Dialing (calleeId s))"

definition line_of :: "CallManager \<Rightarrow> exchange" where
  "line_of cm user =
     (case List.find (\<lambda>(k, s). in_call user s) (calls cm) of None \<Rightarrow> Free | Some (k, s) \<Rightarrow> side user s)"

lemma line_of_in:
  assumes "cm_inv cm" "find_call k cm = Some s" "in_call user s"
  shows "line_of cm user = side user s"
proof (cases "List.find (\<lambda>(k, s). in_call user s) (calls cm)")
  case None
  with assms(2,3) show ?thesis by (auto simp: find_None_iff find_call_def dest!: map_of_SomeD)
next
  case (Some ks)
  then obtain k' s' where ks: "ks = (k', s')" "(k', s') \<in> set (calls cm)" "in_call user s'"
    by (cases ks) (auto simp: find_Some_iff dest: nth_mem)
  then have "um_find (calls cm) k' = Some s'" using assms(1) by (simp add: cm_inv_def map_of_is_SomeI)
  with ks(3) assms have "s' = s" unfolding cm_inv_def find_call_def by (metis option.inject)
  with Some ks(1) show ?thesis by (simp add: line_of_def)
qed

lemma line_of_out:
  assumes "cm_inv cm" "\<And>k s. find_call k cm = Some s \<Longrightarrow> \<not> in_call user s"
  shows "line_of cm user = Free"
proof -
  have "\<not> in_call user s" if "(k, s) \<in> set (calls cm)" for k s
    using that assms(1) assms(2) [of k s] by (simp add: cm_inv_def find_call_def map_of_is_SomeI)
  then have "List.find (\<lambda>(k, s). in_call user s) (calls cm) = None" by (auto simp: find_None_iff)
  then show ?thesis by (simp add: line_of_def)
qed

lemma line_of_cong:
  assumes "cm_inv cm" "cm_inv cm'" "\<And>k. find_call k cm = find_call k cm'"
  shows "line_of cm = line_of cm'"
proof
  fix user
  show "line_of cm user = line_of cm' user"
  proof (cases "\<exists>k s. find_call k cm = Some s \<and> in_call user s")
    case True
    then show ?thesis using assms(3) line_of_in [OF assms(1)] line_of_in [OF assms(2)] by metis
  next
    case False
    then show ?thesis using assms(3) line_of_out [OF assms(1)] line_of_out [OF assms(2)] by metis
  qed
qed

lemma line_of_free_iff:
  assumes "cm_inv cm"
  shows "line_of cm user = Free \<longleftrightarrow> \<not> isBusy user cm"
proof (cases "\<exists>k s. find_call k cm = Some s \<and> in_call user s")
  case True
  then obtain k s where "find_call k cm = Some s" "in_call user s" by blast
  with line_of_in [OF assms this] True show ?thesis by (auto simp: isBusy_iff [OF assms] find_call_def side_def)
next
  case False
  then show ?thesis using line_of_out [OF assms, of user] by (auto simp: isBusy_iff [OF assms] find_call_def)
qed

section \<open>The operations are steps of the exchange\<close>

lemma line_of_erase:
  assumes inv: "cm_inv cm" and k: "find_call k cm = Some s"
  shows "line_of (cm\<lparr>calls := um_erase k (calls cm)\<rparr>) = (line_of cm)(callerId s := Free, calleeId s := Free)"
proof
  fix user
  let ?cm = "cm\<lparr>calls := um_erase k (calls cm)\<rparr>"
  have inv': "cm_inv ?cm" by (rule cm_inv_erase [OF inv])
  have f: "find_call k' ?cm = (if k' = k then None else find_call k' cm)" for k' by (simp add: find_call_def)
  show "line_of ?cm user = ((line_of cm)(callerId s := Free, calleeId s := Free)) user"
  proof (cases "in_call user s")
    case True
    then have "k' = k" if "find_call k' cm = Some s'" "in_call user s'" for k' s'
      using that k inv unfolding cm_inv_def find_call_def by blast
    then have "line_of ?cm user = Free" using f by (intro line_of_out [OF inv']) (auto split: if_splits)
    with True show ?thesis by (auto simp: in_call_def)
  next
    case False
    have "line_of ?cm user = line_of cm user"
    proof (cases "\<exists>k' s'. find_call k' cm = Some s' \<and> in_call user s'")
      case True
      then obtain k' s' where "find_call k' cm = Some s'" "in_call user s'" by blast
      moreover from this False k have "k' \<noteq> k" by auto
      ultimately show ?thesis using f line_of_in [OF inv] line_of_in [OF inv'] by metis
    next
      case out: False
      then show ?thesis using f line_of_out [OF inv] line_of_out [OF inv'] by (metis option.distinct(1))
    qed
    with False show ?thesis by (auto simp: in_call_def)
  qed
qed

lemma line_of_set:
  assumes inv: "cm_inv cm" and inv': "cm_inv (cm\<lparr>calls := um_set k s (calls cm)\<rparr>)"
    and old: "\<And>t user. find_call k cm = Some t \<Longrightarrow> in_call user t \<Longrightarrow> in_call user s"
  shows "line_of (cm\<lparr>calls := um_set k s (calls cm)\<rparr>) = (line_of cm)(callerId s := side (callerId s) s, calleeId s := side (calleeId s) s)"
proof
  fix user
  let ?cm = "cm\<lparr>calls := um_set k s (calls cm)\<rparr>"
  have f: "find_call k' ?cm = (if k' = k then Some s else find_call k' cm)" for k' by (simp add: find_call_def)
  show "line_of ?cm user = ((line_of cm)(callerId s := side (callerId s) s, calleeId s := side (calleeId s) s)) user"
  proof (cases "in_call user s")
    case True
    then have "line_of ?cm user = side user s" using line_of_in [OF inv', of k s user] f by simp
    with True show ?thesis by (auto simp: in_call_def)
  next
    case False
    have "line_of ?cm user = line_of cm user"
    proof (cases "\<exists>k' s'. find_call k' cm = Some s' \<and> in_call user s'")
      case True
      then obtain k' s' where "find_call k' cm = Some s'" "in_call user s'" by blast
      moreover from this False old have "k' \<noteq> k" by auto
      ultimately show ?thesis using f line_of_in [OF inv] line_of_in [OF inv'] by metis
    next
      case out: False
      with f False have "\<not> in_call user t" if "find_call k' ?cm = Some t" for k' t using that by (auto split: if_splits)
      with out show ?thesis using line_of_out [OF inv, of user] line_of_out [OF inv', of user] by metis
    qed
    with False show ?thesis by (auto simp: in_call_def)
  qed
qed

text \<open>A call that is taken out of the table is released.\<close>

lemma erase_releases:
  assumes "cm_inv cm"
  shows "exchange_step\<^sup>*\<^sup>* (line_of cm) (line_of (cm\<lparr>calls := um_erase k (calls cm)\<rparr>))"
proof (cases "find_call k cm")
  case None
  have "line_of (cm\<lparr>calls := um_erase k (calls cm)\<rparr>) = line_of cm"
    by (rule line_of_cong [OF cm_inv_erase [OF assms] assms]) (use None in \<open>auto simp: find_call_def\<close>)
  then show ?thesis by simp
next
  case (Some s)
  have "call_state s \<noteq> Ended" using assms Some by (simp add: cm_inv_def find_call_def)
  moreover have "line_of cm (calleeId s) = side (calleeId s) s" using line_of_in [OF assms Some] by (simp add: in_call_def)
  ultimately have "line_of cm (calleeId s) = Rung (callerId s) \<or> line_of cm (calleeId s) = Talking (callerId s)"
    by (auto simp: side_def)
  from exchange_step.release [of "line_of cm", OF this] show ?thesis
    unfolding line_of_erase [OF assms Some] by blast
qed

lemma erase_all_releases:
  assumes "cm_inv cm"
  shows "cm_inv (fold (\<lambda>k cm. cm\<lparr>calls := um_erase k (calls cm)\<rparr>) ks cm)
     \<and> exchange_step\<^sup>*\<^sup>* (line_of cm) (line_of (fold (\<lambda>k cm. cm\<lparr>calls := um_erase k (calls cm)\<rparr>) ks cm))"
  using assms
proof (induction ks arbitrary: cm)
  case (Cons k ks)
  let ?cm = "cm\<lparr>calls := um_erase k (calls cm)\<rparr>"
  note IH = Cons.IH [OF cm_inv_erase [OF Cons.prems, of k]]
  have eq: "fold (\<lambda>k cm. cm\<lparr>calls := um_erase k (calls cm)\<rparr>) (k # ks) cm = fold (\<lambda>k cm. cm\<lparr>calls := um_erase k (calls cm)\<rparr>) ks ?cm"
    by (simp only: fold_simps)
  show ?case unfolding eq
    by (intro conjI conjunct1 [OF IH] rtranclp_trans [OF erase_releases [OF Cons.prems, of k] conjunct2 [OF IH]])
qed simp

lemma find_erase_all:
  "find_call k (fold (\<lambda>k cm. cm\<lparr>calls := um_erase k (calls cm)\<rparr>) ks cm) = (if k \<in> set ks then None else find_call k cm)"
  by (induction ks arbitrary: cm) (auto simp: find_call_def)

lemma expire_refines:
  assumes "cm_inv cm"
  shows "exchange_step\<^sup>*\<^sup>* (line_of cm) (line_of (snd (expireRinging now cm)))"
proof -
  define ks where "ks = map fst (filter (\<lambda>(k, s). ring_expired now (ring_timeout cm) s) (calls cm))"
  let ?e = "fold (\<lambda>k cm. cm\<lparr>calls := um_erase k (calls cm)\<rparr>) ks cm"
  have ok: "um_ok (calls cm)" using assms by (simp add: cm_inv_def)
  have "k \<in> set ks \<longleftrightarrow> (\<exists>s. (k, s) \<in> set (calls cm) \<and> ring_expired now (ring_timeout cm) s)" for k
    unfolding ks_def set_map set_filter image_iff by auto
  then have "k \<in> set ks \<longleftrightarrow> (\<exists>s. find_call k cm = Some s \<and> ring_expired now (ring_timeout cm) s)" for k
    using ok by (simp add: find_call_def map_of_eq_Some_iff)
  then have f: "find_call k ?e = find_call k (snd (expireRinging now cm))" for k
    unfolding find_erase_all find_expireRinging [OF assms] by (auto split: option.splits)
  have e: "cm_inv ?e" "exchange_step\<^sup>*\<^sup>* (line_of cm) (line_of ?e)" using erase_all_releases [OF assms, of ks] by simp_all
  have "line_of ?e = line_of (snd (expireRinging now cm))"
    by (rule line_of_cong [OF e(1) expireRinging_inv [OF assms] f])
  with e(2) show ?thesis by simp
qed

lemma create_refines:
  assumes "cm_inv cm"
  shows "exchange_step\<^sup>*\<^sup>* (line_of cm) (line_of (snd (create a b now caller callee cm)))"
proof (cases "isBusy caller cm \<or> isBusy callee cm")
  case True
  then show ?thesis by (auto simp: create_def)
next
  case False
  let ?id = "generateUuid a b"
  let ?s = "\<lparr>callId = ?id, callerId = caller, calleeId = callee, call_state = Ringing, createdAt = now\<rparr>"
  let ?cm = "cm\<lparr>calls := um_set ?id ?s (calls cm)\<rparr>" and ?e = "cm\<lparr>calls := um_erase ?id (calls cm)\<rparr>"
  have cr: "snd (create a b now caller callee cm) = ?cm" using False by (simp add: create_def Let_def)
  then have inv': "cm_inv ?cm" using create_inv [OF assms, of a b now caller callee] by simp
  have inve: "cm_inv ?e" by (rule cm_inv_erase [OF assms])
  have free: "\<not> isBusy u ?e" if "u = caller \<or> u = callee" for u
    using that False isBusy_iff [OF inve] isBusy_iff [OF assms] by (auto split: if_splits)
  have same: "line_of ?cm = line_of (?e\<lparr>calls := um_set ?id ?s (calls ?e)\<rparr>)"
  proof (rule line_of_cong [OF inv'])
    show "cm_inv (?e\<lparr>calls := um_set ?id ?s (calls ?e)\<rparr>)"
      using create_inv [OF inve, of a b now caller callee] free by (simp add: create_def Let_def)
  qed (simp add: find_call_def)
  have inv2: "cm_inv (?e\<lparr>calls := um_set ?id ?s (calls ?e)\<rparr>)"
    using create_inv [OF inve, of a b now caller callee] free by (simp add: create_def Let_def)
  have "line_of ?cm = (line_of ?e)(caller := Dialing callee, callee := Rung caller)"
    unfolding same by (subst line_of_set [OF inve inv2]) (auto simp: find_call_def side_def)
  moreover have "exchange_step (line_of ?e) ((line_of ?e)(caller := Dialing callee, callee := Rung caller))"
    using free line_of_free_iff [OF inve] by (intro exchange_step.dial) auto
  ultimately have "exchange_step (line_of ?e) (line_of ?cm)" by simp
  with erase_releases [OF assms, of ?id] show ?thesis unfolding cr by simp
qed

lemma accept_refines:
  assumes "cm_inv cm"
  shows "exchange_step\<^sup>*\<^sup>* (line_of cm) (line_of (snd (accept k user cm)))"
proof (cases "\<exists>s. find_call k cm = Some s \<and> calleeId s = user \<and> call_state s = Ringing")
  case True
  then obtain s where s: "find_call k cm = Some s" "calleeId s = user" "call_state s = Ringing" by blast
  let ?s = "s\<lparr>call_state := Active\<rparr>" and ?cm = "cm\<lparr>calls := um_set k (s\<lparr>call_state := Active\<rparr>) (calls cm)\<rparr>"
  have acc: "snd (accept k user cm) = ?cm" using s by (simp add: accept_def find_call_def Let_def)
  then have inv': "cm_inv ?cm" using accept_inv [OF assms, of k user] by simp
  have "line_of ?cm = (line_of cm)(callerId s := Talking (calleeId s), calleeId s := Talking (callerId s))"
    by (subst line_of_set [OF assms inv']) (use s in \<open>auto simp: in_call_def side_def\<close>)
  moreover have "line_of cm (calleeId s) = Rung (callerId s)"
    using line_of_in [OF assms s(1), of "calleeId s"] s(3) by (simp add: in_call_def side_def)
  ultimately show ?thesis unfolding acc using exchange_step.answer [of "line_of cm" "calleeId s" "callerId s"] by auto
next
  case False
  then have "snd (accept k user cm) = cm" by (auto simp: accept_def find_call_def Let_def split: option.splits)
  then show ?thesis by simp
qed

lemma call_step_refines: "cm_inv cm \<Longrightarrow> exchange_step\<^sup>*\<^sup>* (line_of cm) (line_of (call_step op cm))"
proof (cases op)
  case (RejectOp k user)
  have "snd (reject k user cm) = cm \<or> snd (reject k user cm) = cm\<lparr>calls := um_erase k (calls cm)\<rparr>"
    by (auto simp: reject_def split: option.splits)
  then show "cm_inv cm \<Longrightarrow> ?thesis" using RejectOp erase_releases by auto
next
  case (HangupOp k user)
  have "snd (hangup k user cm) = cm \<or> snd (hangup k user cm) = cm\<lparr>calls := um_erase k (calls cm)\<rparr>"
    by (auto simp: hangup_def split: option.splits)
  then show "cm_inv cm \<Longrightarrow> ?thesis" using HangupOp erase_releases by auto
qed (auto intro: create_refines accept_refines expire_refines)

interpretation exchange: refining_machine call_step "\<lambda>_. True" cm_inv exchange_step line_of
  by unfold_locales (rule call_step_refines)

section \<open>Property\<close>


end
