(* ===== verification/Call_Ids.thy ===== *)
theory Call_Ids
  imports Call_Manager
begin

text \<open>
  The call identifiers of \<open>generateUuid\<close> (\<open>backend/calls/call_manager.cpp\<close>): their format, and
  which draws of the random generator they tell apart.
\<close>

section \<open>Fields of fixed width\<close>

fun hexn :: "nat \<Rightarrow> nat \<Rightarrow> string" where
  "hexn 0 m = []"
| "hexn (Suc n) m = hexn n (m div 16) @ [hex_digit (m mod 16)]"

lemma length_hexn [simp]: "length (hexn n m) = n"
  by (induction n arbitrary: m) simp_all

lemma hex_digits:
  "hex_digit 0 = CHR ''0''" "hex_digit 4 = CHR ''4''" "distinct (map hex_digit [0..<16])"
  "list_all (\<lambda>c. c \<in> set ''0123456789abcdef'') (map hex_digit [0..<16])"
  "list_all (\<lambda>c. c \<in> set ''89ab'') (map hex_digit [8..<12])"
  by code_simp+

lemma hexn_zero: "hexn n 0 = replicate n (CHR ''0'')"
  by (induction n) (simp_all add: replicate_append_same hex_digits)

lemma to_hex_width: "m < 16 ^ Suc n \<Longrightarrow> length (to_hex m) \<le> Suc n \<and> setw (Suc n) (to_hex m) = hexn (Suc n) m"
proof (induction n arbitrary: m)
  case 0
  then show ?case by (simp add: to_hex.simps setw_def)
next
  case (Suc n)
  show ?case
  proof (cases "m < 16")
    case True
    then show ?thesis by (simp add: to_hex.simps setw_def hexn_zero replicate_append_same)
  next
    case False
    have "m div 16 < 16 ^ Suc n" using Suc.prems by (simp add: less_mult_imp_div_less)
    from Suc.IH [OF this] have "length (to_hex (m div 16)) \<le> Suc n" "setw (Suc n) (to_hex (m div 16)) = hexn (Suc n) (m div 16)"
      by blast+
    moreover have "to_hex m = to_hex (m div 16) @ [hex_digit (m mod 16)]" using False by (simp add: to_hex.simps)
    ultimately show ?thesis by (simp add: setw_def Suc_diff_le)
  qed
qed

lemma hex_field_hexn: "unat w < 16 ^ n \<Longrightarrow> 0 < n \<Longrightarrow> hex_field n w = hexn n (unat w)"
  by (cases n) (simp_all add: hex_field_def to_hex_width del: hexn.simps)

lemma hexn_first: "hexn (Suc n) m = hex_digit (m div 16 ^ n mod 16) # hexn n m"
  by (induction n arbitrary: m) (simp_all add: div_mult2_eq)

lemma hex_digit_inj: "m < 16 \<Longrightarrow> n < 16 \<Longrightarrow> hex_digit m = hex_digit n \<longleftrightarrow> m = n"
  using hex_digits(3) by (auto simp: distinct_map inj_on_def)

lemma hexn_inj: "m < 16 ^ n \<Longrightarrow> m' < 16 ^ n \<Longrightarrow> hexn n m = hexn n m' \<longleftrightarrow> m = m'"
proof (induction n arbitrary: m m')
  case (Suc n)
  then have "hexn n (m div 16) = hexn n (m' div 16) \<longleftrightarrow> m div 16 = m' div 16" by (simp add: less_mult_imp_div_less)
  then show ?case by (simp add: hex_digit_inj) (metis div_mult_mod_eq)
qed simp

definition is_hex :: "char \<Rightarrow> bool" where
  "is_hex c \<longleftrightarrow> c \<in> set ''0123456789abcdef''"

lemma hex_digit_hex: "n < 16 \<Longrightarrow> is_hex (hex_digit n)"
  using hex_digits(4) by (auto simp: is_hex_def list_all_iff)

lemma hexn_hex: "list_all is_hex (hexn n m)"
  by (induction n arbitrary: m) (simp_all add: hex_digit_hex)

section \<open>The identifier\<close>

text \<open>The version and variant bits are fixed, the other 122 bits are those drawn.\<close>

definition uuid_hi :: "u64 \<Rightarrow> u64" where "uuid_hi a = (a AND 0xFFFFFFFFFFFF0FFF) OR 0x4000"

definition uuid_lo :: "u64 \<Rightarrow> u64" where "uuid_lo b = (b AND 0x3FFFFFFFFFFFFFFF) OR 0x8000000000000000"

lemma mask_less: "unat (w AND (mask n :: u64)) < 2 ^ n"
proof -
  have "w AND mask n = take_bit n w" by (simp add: take_bit_eq_mask)
  then show ?thesis by (simp add: unsigned_take_bit_eq take_bit_nat_less_exp)
qed

lemma field_less:
  "unat (w AND 0xFFFFFFFF :: u64) < 16 ^ 8" "unat (w AND 0xFFFF :: u64) < 16 ^ 4" "unat (w AND 0xFFFFFFFFFFFF :: u64) < 16 ^ 12"
  using mask_less [of w 32] mask_less [of w 16] mask_less [of w 48] by (simp_all add: mask_eq_exp_minus_1)

lemma generateUuid_eq:
  "generateUuid a b =
     hexn 8 (unat (drop_bit 32 (uuid_hi a) AND 0xFFFFFFFF)) @ ''-'' @ hexn 4 (unat (drop_bit 16 (uuid_hi a) AND 0xFFFF)) @ ''-''
     @ hexn 4 (unat (uuid_hi a AND 0xFFFF)) @ ''-'' @ hexn 4 (unat (drop_bit 48 (uuid_lo b) AND 0xFFFF)) @ ''-''
     @ hexn 12 (unat (uuid_lo b AND 0xFFFFFFFFFFFF))"
  unfolding generateUuid_def uuid_hi_def [symmetric] uuid_lo_def [symmetric] Let_def
  by (simp only: hex_field_hexn [OF field_less(1)] hex_field_hexn [OF field_less(2)] hex_field_hexn [OF field_less(3)] zero_less_numeral)

lemma top_nibble: "unat (w :: u64) div 16 ^ 3 mod 16 = unat (take_bit 4 (drop_bit 12 w))"
  by (simp add: drop_bit_eq_div take_bit_eq_mod unat_div unat_mod)

lemma version_digit: "unat (uuid_hi a AND 0xFFFF) div 16 ^ 3 mod 16 = 4"
proof -
  have "take_bit 4 (drop_bit 12 (uuid_hi a AND 0xFFFF)) = 4"
  proof (rule bit_word_eqI)
    fix n
    show "bit (take_bit 4 (drop_bit 12 (uuid_hi a AND 0xFFFF))) n = bit (4 :: u64) n" if "n < LENGTH(64)"
    proof (cases "n < 4")
      case True
      then have "n = 0 \<or> n = 1 \<or> n = 2 \<or> n = 3" by auto
      then show ?thesis by (auto simp: uuid_hi_def bit_simps)
    next
      case False
      have "take_bit 4 (4 :: u64) = 4" by simp
      then have "\<not> bit (4 :: u64) n" using False by (metis bit_take_bit_iff)
      with False show ?thesis by (simp add: bit_simps)
    qed
  qed
  then show ?thesis unfolding top_nibble by simp
qed

lemma variant_digit: "unat (drop_bit 48 (uuid_lo b) AND 0xFFFF) div 16 ^ 3 mod 16 \<in> set [8..<12]"
proof -
  let ?w = "take_bit 4 (drop_bit 12 (drop_bit 48 (uuid_lo b) AND 0xFFFF))"
  have "?w = 8 OR take_bit 2 (drop_bit 60 b)"
  proof (rule bit_word_eqI)
    fix n
    show "bit ?w n = bit (8 OR take_bit 2 (drop_bit 60 b)) n" if "n < LENGTH(64)"
    proof (cases "n < 4")
      case True
      then have "n = 0 \<or> n = 1 \<or> n = 2 \<or> n = 3" by auto
      then show ?thesis by (auto simp: uuid_lo_def bit_simps)
    next
      case False
      have "take_bit 4 (8 :: u64) = 8" by simp
      then have "\<not> bit (8 :: u64) n" using False by (metis bit_take_bit_iff)
      with False show ?thesis by (simp add: bit_simps)
    qed
  qed
  moreover obtain k where "take_bit 2 (drop_bit 60 b) = word_of_nat k" "k < 4"
  proof
    show "take_bit 2 (drop_bit 60 b) = word_of_nat (unat (take_bit 2 (drop_bit 60 b)))" by simp
    show "unat (take_bit 2 (drop_bit 60 b)) < 4" by (simp add: take_bit_eq_mod unat_mod)
  qed
  moreover from \<open>k < 4\<close> have "k = 0 \<or> k = 1 \<or> k = 2 \<or> k = 3" by arith
  ultimately have "?w = 8 \<or> ?w = 9 \<or> ?w = 10 \<or> ?w = 11" by auto
  then show ?thesis unfolding top_nibble by auto
qed

text \<open>The fields hold all bits.\<close>

lemma and_masks: "w AND 0xFFFF = take_bit 16 (w :: u64)" "w AND 0xFFFFFFFF = take_bit 32 w" "w AND 0xFFFFFFFFFFFF = take_bit 48 w"
  by (simp_all add: take_bit_eq_mask mask_eq_exp_minus_1)

lemma hi_fields: "drop_bit 32 w AND 0xFFFFFFFF = drop_bit 32 w' AND 0xFFFFFFFF \<and> drop_bit 16 w AND 0xFFFF = drop_bit 16 w' AND 0xFFFF
    \<and> w AND 0xFFFF = w' AND 0xFFFF \<longleftrightarrow> w = (w' :: u64)"
proof
  assume eq: "drop_bit 32 w AND 0xFFFFFFFF = drop_bit 32 w' AND 0xFFFFFFFF \<and> drop_bit 16 w AND 0xFFFF = drop_bit 16 w' AND 0xFFFF
    \<and> w AND 0xFFFF = w' AND 0xFFFF"
  have "x = push_bit 32 (drop_bit 32 x AND 0xFFFFFFFF) OR push_bit 16 (drop_bit 16 x AND 0xFFFF) OR (x AND 0xFFFF)" for x :: u64
    unfolding and_masks
  proof (rule bit_word_eqI)
    show "bit x n = bit (push_bit 32 (take_bit 32 (drop_bit 32 x)) OR push_bit 16 (take_bit 16 (drop_bit 16 x)) OR take_bit 16 x) n"
      if "n < LENGTH(64)" for n
      using that by (cases "32 \<le> n") (auto simp: bit_simps)
  qed
  with eq show "w = w'" by metis
qed simp

lemma lo_fields: "drop_bit 48 w AND 0xFFFF = drop_bit 48 w' AND 0xFFFF \<and> w AND 0xFFFFFFFFFFFF = w' AND 0xFFFFFFFFFFFF \<longleftrightarrow> w = (w' :: u64)"
proof
  assume eq: "drop_bit 48 w AND 0xFFFF = drop_bit 48 w' AND 0xFFFF \<and> w AND 0xFFFFFFFFFFFF = w' AND 0xFFFFFFFFFFFF"
  have "x = push_bit 48 (drop_bit 48 x AND 0xFFFF) OR (x AND 0xFFFFFFFFFFFF)" for x :: u64
    unfolding and_masks by (rule bit_word_eqI) (auto simp: bit_simps)
  with eq show "w = w'" by metis
qed simp

lemma or_and_cancel: "c AND m = 0 \<Longrightarrow> (a AND m OR c) AND m = a AND (m :: u64)"
  by (simp add: bit.conj_disj_distrib2 and.assoc)

lemma uuid_hi_eq: "uuid_hi a = uuid_hi a' \<longleftrightarrow> a AND 0xFFFFFFFFFFFF0FFF = a' AND 0xFFFFFFFFFFFF0FFF"
proof
  assume "uuid_hi a = uuid_hi a'"
  then have "uuid_hi a AND 0xFFFFFFFFFFFF0FFF = uuid_hi a' AND 0xFFFFFFFFFFFF0FFF" by simp
  then show "a AND 0xFFFFFFFFFFFF0FFF = a' AND 0xFFFFFFFFFFFF0FFF" unfolding uuid_hi_def by (subst (asm) (1 2) or_and_cancel) simp_all
qed (simp add: uuid_hi_def)

lemma uuid_lo_eq: "uuid_lo a = uuid_lo a' \<longleftrightarrow> a AND 0x3FFFFFFFFFFFFFFF = a' AND 0x3FFFFFFFFFFFFFFF"
proof
  assume "uuid_lo a = uuid_lo a'"
  then have "uuid_lo a AND 0x3FFFFFFFFFFFFFFF = uuid_lo a' AND 0x3FFFFFFFFFFFFFFF" by simp
  then show "a AND 0x3FFFFFFFFFFFFFFF = a' AND 0x3FFFFFFFFFFFFFFF" unfolding uuid_lo_def by (subst (asm) (1 2) or_and_cancel) simp_all
qed (simp add: uuid_lo_def)

lemma hexn_append_eq: "hexn n m @ xs = hexn n m' @ ys \<longleftrightarrow> hexn n m = hexn n m' \<and> xs = ys"
  by simp

lemma unat_same: "unat w = unat w' \<longleftrightarrow> w = w'"
  by (simp add: word_eq_iff_unsigned [where 'a = nat])

lemma generateUuid_inj:
  "generateUuid a b = generateUuid a' b' \<longleftrightarrow>
     a AND 0xFFFFFFFFFFFF0FFF = a' AND 0xFFFFFFFFFFFF0FFF \<and> b AND 0x3FFFFFFFFFFFFFFF = b' AND 0x3FFFFFFFFFFFFFFF"
  unfolding generateUuid_eq uuid_hi_eq [symmetric] uuid_lo_eq [symmetric]
    hi_fields [of "uuid_hi a", symmetric] lo_fields [of "uuid_lo b", symmetric]
  by (simp only: hexn_append_eq same_append_eq hexn_inj [OF field_less(1) field_less(1)]
      hexn_inj [OF field_less(2) field_less(2)] hexn_inj [OF field_less(3) field_less(3)] unat_same conj_assoc)

section \<open>Property\<close>

text \<open>
  C40. Call identifiers are version 4 UUIDs: 36 characters, five groups of lower-case hex
  digits of the standard lengths, the version digit 4 and a variant digit of 8, 9, a or b;
  and two of them are equal exactly when the draws they come from agree in the 122 bits that
  are not fixed.
\<close>

theorem generateUuid_format:
  "(\<exists>f1 f2 f3 v f4 f5. generateUuid a b = f1 @ ''-'' @ f2 @ ''-4'' @ f3 @ ''-'' @ [v] @ f4 @ ''-'' @ f5
      \<and> map length [f1, f2, f3, f4, f5] = [8, 4, 3, 3, 12] \<and> v \<in> set ''89ab'' \<and> list_all is_hex (f1 @ f2 @ f3 @ f4 @ f5))
   \<and> (generateUuid a b = generateUuid a' b' \<longleftrightarrow>
        a AND 0xFFFFFFFFFFFF0FFF = a' AND 0xFFFFFFFFFFFF0FFF \<and> b AND 0x3FFFFFFFFFFFFFFF = b' AND 0x3FFFFFFFFFFFFFFF)"
proof
  let ?hi = "uuid_hi a" and ?lo = "uuid_lo b"
  let ?m = "unat (?hi AND 0xFFFF)" and ?n = "unat (drop_bit 48 ?lo AND 0xFFFF)"
  let ?v = "hex_digit (?n div 16 ^ 3 mod 16)"
  have four: "hexn 4 ?m = CHR ''4'' # hexn 3 ?m" using hexn_first [of 3 ?m] version_digit [of a] hex_digits(2) by simp
  have v: "hexn 4 ?n = ?v # hexn 3 ?n" using hexn_first [of 3 ?n] by simp
  have "?v \<in> set ''89ab''" using hex_digits(5) variant_digit [of b] unfolding list_all_iff set_map by blast
  moreover have "generateUuid a b = hexn 8 (unat (drop_bit 32 ?hi AND 0xFFFFFFFF)) @ ''-'' @ hexn 4 (unat (drop_bit 16 ?hi AND 0xFFFF)) @ ''-4''
      @ hexn 3 ?m @ ''-'' @ [?v] @ hexn 3 ?n @ ''-'' @ hexn 12 (unat (?lo AND 0xFFFFFFFFFFFF))"
    unfolding generateUuid_eq four v by simp
  ultimately show "\<exists>f1 f2 f3 v f4 f5. generateUuid a b = f1 @ ''-'' @ f2 @ ''-4'' @ f3 @ ''-'' @ [v] @ f4 @ ''-'' @ f5
      \<and> map length [f1, f2, f3, f4, f5] = [8, 4, 3, 3, 12] \<and> v \<in> set ''89ab'' \<and> list_all is_hex (f1 @ f2 @ f3 @ f4 @ f5)"
    by (intro exI conjI) (assumption, simp_all add: hexn_hex)
qed (rule generateUuid_inj)

end
