(* ===== verification/Stream_Writes.thy ===== *)
theory Stream_Writes
  imports Stream_Transport
begin

text \<open>
  The sending half of a TCP or TLS session, and the listening sockets
  (\<open>turn_server/src/transport/tcp_transport.cpp\<close>, \<open>tls_transport.cpp\<close>). \<open>send\<close> starts
  \<open>asio::async_write\<close>, a composed operation: it hands some of its remaining bytes to the
  stream whenever the stream takes some, until none is left. How much it takes each time is
  part of the events. Asio requires that no other write is started on the stream before the
  operation completes, and says nothing of a program that starts one.
\<close>

section \<open>The writes of a session\<close>

text \<open>
  \<open>Idle wire\<close>: no operation is under way and the stream has taken \<open>wire\<close> so far;
  \<open>Writing wire rest\<close>: one operation is under way and still holds \<open>rest\<close>; \<open>Overlapped\<close>: a write
  was started while another was under way, and nothing is known of the stream any more.
\<close>

datatype StreamWriter = Idle bytes | Writing bytes bytes | Overlapped

text \<open>\<open>send\<close> looks at nothing before it starts its write.\<close>

fun stream_send :: "bytes \<Rightarrow> StreamWriter \<Rightarrow> StreamWriter" where
  "stream_send data (Idle wire) = Writing wire data"
| "stream_send data (Writing wire rest) = Overlapped"
| "stream_send data Overlapped = Overlapped"

text \<open>
  The stream takes \<open>n\<close> bytes of the operation, at least one if there are any; with the last
  one the operation completes. A failed operation completes with what has been taken.
\<close>

fun write_some :: "nat \<Rightarrow> StreamWriter \<Rightarrow> StreamWriter" where
  "write_some n (Writing wire rest) =
     (if n \<le> length rest \<and> (0 < n \<or> rest = [])
      then if n = length rest then Idle (wire @ rest) else Writing (wire @ take n rest) (drop n rest)
      else Writing wire rest)"
| "write_some n wr = wr"

fun write_failed :: "StreamWriter \<Rightarrow> StreamWriter" where
  "write_failed (Writing wire rest) = Idle wire"
| "write_failed wr = wr"

fun writing :: "StreamWriter \<Rightarrow> bool" where
  "writing (Idle wire) = False"
| "writing wr = True"

definition writes :: "nat list \<Rightarrow> StreamWriter \<Rightarrow> StreamWriter" where
  "writes es wr = fold write_some es wr"

text \<open>The events \<open>es\<close> write all of \<open>data\<close>.\<close>

definition finishes :: "nat list \<Rightarrow> bytes \<Rightarrow> bool" where
  "finishes es data \<longleftrightarrow> \<not> writing (writes es (Writing [] data))"

lemma writes_simps [simp]: "writes [] wr = wr" "writes (n # es) wr = writes es (write_some n wr)"
  by (simp_all add: writes_def)

lemma writes_Idle [simp]: "writes es (Idle wire) = Idle wire"
  by (induction es) simp_all

lemma writes_Overlapped [simp]: "writes es Overlapped = Overlapped"
  by (induction es) simp_all

text \<open>One operation: whatever the stream takes each time, it gets the bytes in order.\<close>

lemma writes_Writing:
  obtains (idle) "\<And>wire. writes es (Writing wire data) = Idle (wire @ data)"
  | (busy) taken rest where "data = taken @ rest" "\<And>wire. writes es (Writing wire data) = Writing (wire @ taken) rest"
proof (induction es arbitrary: data thesis)
  case Nil
  show ?case by (rule Nil(2) [of "[]" data]) simp_all
next
  case (Cons n es)
  show ?case
  proof (cases "n < length data \<and> 0 < n")
    case True
    then have step: "writes (n # es) (Writing wire data) = writes es (Writing (wire @ take n data) (drop n data))" for wire by simp
    show ?thesis
    proof (rule Cons.IH [of "drop n data"])
      assume "\<And>wire. writes es (Writing wire (drop n data)) = Idle (wire @ drop n data)"
      then show ?thesis by (intro Cons.prems(1)) (simp add: step del: writes_simps)
    next
      fix taken rest
      assume "drop n data = taken @ rest" "\<And>wire. writes es (Writing wire (drop n data)) = Writing (wire @ taken) rest"
      then show ?thesis by (intro Cons.prems(2) [of "take n data @ taken" rest]) (simp_all add: step del: writes_simps flip: \<open>drop n data = taken @ rest\<close>)
    qed
  next
    case False
    then consider "n = length data" | "\<And>wire. write_some n (Writing wire data) = Writing wire data" by force
    then show ?thesis
    proof cases
      case 1
      then show ?thesis by (intro Cons.prems(1)) auto
    next
      case 2
      then have same: "writes (n # es) (Writing wire data) = writes es (Writing wire data)" for wire by (simp only: writes_simps)
      show ?thesis
        by (rule Cons.IH [of data]) (rule Cons.prems(1), subst same, assumption, rule Cons.prems(2), assumption, subst same, assumption)
    qed
  qed
qed

lemma writes_finishes: "writes es (Writing wire data) = Idle (wire @ data) \<longleftrightarrow> finishes es data"
  "finishes es data \<or> (\<exists>wire' rest. writes es (Writing wire data) = Writing wire' rest)"
  by (rule writes_Writing [of es data]; simp add: finishes_def)+

section \<open>Sends one after the other\<close>

text \<open>Each datum is sent, and then the stream takes some of what is under way.\<close>

fun send_all :: "(bytes \<times> nat list) list \<Rightarrow> StreamWriter \<Rightarrow> StreamWriter" where
  "send_all [] wr = wr"
| "send_all ((data, es) # xs) wr = send_all xs (writes es (stream_send data wr))"

lemma send_all_Overlapped [simp]: "send_all xs Overlapped = Overlapped"
  by (induction xs) auto

lemma send_all_done:
  "list_all (\<lambda>(data, es). finishes es data) xs \<Longrightarrow> send_all xs (Idle wire) = Idle (wire @ concat (map fst xs))"
proof (induction xs arbitrary: wire)
  case (Cons x xs)
  then show ?case by (cases x) (simp add: writes_finishes(1) [THEN iffD2])
qed simp

text \<open>Two writes overlap exactly when one but the last is not finished in time.\<close>

lemma send_all_overlap:
  "send_all xs (Idle wire) = Overlapped \<longleftrightarrow> \<not> list_all (\<lambda>(data, es). finishes es data) (butlast xs)"
proof (induction xs arbitrary: wire)
  case (Cons x xs)
  obtain data es where x: "x = (data, es)" by force
  show ?case
  proof (cases "finishes es data")
    case True
    then have "send_all (x # xs) (Idle wire) = send_all xs (Idle (wire @ data))"
      using writes_finishes(1) [of es wire data] x by simp
    then show ?thesis using Cons.IH [of "wire @ data"] True x by (cases xs) simp_all
  next
    case False
    then obtain wire' rest where "writes es (stream_send data (Idle wire)) = Writing wire' rest"
      using writes_finishes(2) [of es data wire] by auto
    then show ?thesis using False x by (cases xs) auto
  qed
qed simp

section \<open>The listening sockets\<close>

text \<open>
  How \<open>async_accept\<close> completes: with an error, with a socket whose peer has already reset
  the connection, or with a connected socket. The session's constructor asks the socket for
  its remote endpoint, which throws for a socket that is no longer connected; nothing on the
  way to the event loop catches the exception (\<open>None\<close>).
\<close>

datatype accept_event = AcceptError | PeerGone | Accepted Endpoint

definition tcp_on_accept :: "accept_event \<Rightarrow> StreamTransport \<Rightarrow> StreamTransport option" where
  "tcp_on_accept ev tr =
     (case ev of AcceptError \<Rightarrow> Some tr | PeerGone \<Rightarrow> None | Accepted remote \<Rightarrow> Some (tcp_accept remote tr))"

definition tls_on_accept :: "accept_event \<Rightarrow> StreamTransport \<Rightarrow> StreamTransport option" where
  "tls_on_accept ev tr =
     (case ev of AcceptError \<Rightarrow> Some tr | PeerGone \<Rightarrow> None | Accepted remote \<Rightarrow> Some (tls_accept remote tr))"

text \<open>The writers of the sessions, by their numbers.\<close>

type_synonym writers = "nat \<Rightarrow> StreamWriter"

text \<open>The sends of a handler: each starts a write in the session it finds, or is dropped.\<close>

fun start_writes :: "(nat \<times> bytes) option list \<Rightarrow> writers \<Rightarrow> writers" where
  "start_writes [] ws = ws"
| "start_writes (None # xs) ws = start_writes xs ws"
| "start_writes (Some (i, data) # xs) ws = start_writes xs (ws(i := stream_send data (ws i)))"

lemma start_writes_same:
  "start_writes (map (\<lambda>d. Some (i, d)) ds) ws = ws(i := fold stream_send ds (ws i))"
  by (induction ds arbitrary: ws) simp_all

end
