(* ===== verification/Turn_System.thy ===== *)
theory Turn_System
  imports Turn_Server Stream_Writes
begin

text \<open>
  The TURN server as \<open>turn_server/src/main.cpp\<close> assembles it: one dispatcher behind a UDP, a
  TCP, a TLS and a DTLS transport, all served by one thread. An event is the completion of
  one asynchronous operation; its handler runs to its end, with everything the dispatcher
  sends on the way. After overlapping writes on a stream only its contents are unknown; its
  events go on.
\<close>

section \<open>State and events\<close>

record 'ssl TurnServer =
  ts_td :: TurnDispatcher
  ts_udp :: UdpTransport
  ts_tcp :: StreamTransport
  ts_tls :: StreamTransport
  ts_dtls :: "'ssl DtlsTransport"
  tcp_out :: writers
  tls_out :: writers

definition start_server :: "config \<Rightarrow> 'ssl TurnServer" where
  "start_server cfg =
     \<lparr>ts_td = mk_turn_server cfg, ts_udp = mk_udp, ts_tcp = \<lparr>st_sessions = [], st_conns = []\<rparr>,
      ts_tls = \<lparr>st_sessions = [], st_conns = []\<rparr>, ts_dtls = \<lparr>dtls_sessions = [], dtls_receiving = True\<rparr>,
      tcp_out = (\<lambda>_. Idle []), tls_out = (\<lambda>_. Idle [])\<rparr>"

text \<open>The sessions of TCP and TLS are named by their numbers.\<close>

datatype server_event =
    UdpReceived Endpoint "unit + bytes"
  | TcpAccept accept_event
  | TcpBytes nat bytes
  | TcpReadError nat
  | TcpWrote nat nat
  | TcpWriteError nat
  | TlsAccept accept_event
  | TlsHandshake nat bool
  | TlsBytes nat bytes
  | TlsReadError nat
  | TlsWrote nat nat
  | TlsWriteError nat
  | DtlsReceived Endpoint "unit + bytes"

text \<open>
  A handler ends with datagrams sent and a new state, reads outside a buffer, lets an
  exception escape into the event loop, or locks a mutex that its thread owns, of which the
  language says nothing.
\<close>

datatype 'a server_result = Up 'a | Overread | Terminated | Relock

section \<open>Handlers\<close>

definition udp_sends :: "packet_out list \<Rightarrow> datagram list" where
  "udp_sends outs = map (\<lambda>(t, data, dst). (data, dst)) outs"

definition tcp_sends :: "StreamTransport \<Rightarrow> packet_out list \<Rightarrow> writers \<Rightarrow> writers" where
  "tcp_sends tr outs = start_writes (map (\<lambda>(t, data, dst). tcp_send data dst tr) outs)"

definition tls_sends :: "StreamTransport \<Rightarrow> packet_out list \<Rightarrow> writers \<Rightarrow> writers" where
  "tls_sends tr outs = start_writes (map (\<lambda>(t, data, dst). tls_send data dst tr) outs)"

fun server_step ::
    "'ssl ssl_engine \<Rightarrow> world \<Rightarrow> server_event \<Rightarrow> 'ssl TurnServer \<Rightarrow> (datagram list \<times> 'ssl TurnServer) server_result" where
  "server_step eng w (UdpReceived remote ev) ts =
     (case udp_receive remote ev (ts_udp ts) of (ds, udp) \<Rightarrow>
        case make_handler w 0 ds (ts_td ts) of
          None \<Rightarrow> Overread
        | Some (outs, td) \<Rightarrow> Up (udp_sends outs, ts\<lparr>ts_td := td, ts_udp := udp\<rparr>))"
| "server_step eng w (TcpAccept ev) ts =
     (case tcp_on_accept ev (ts_tcp ts) of None \<Rightarrow> Terminated | Some tr \<Rightarrow> Up ([], ts\<lparr>ts_tcp := tr\<rparr>))"
| "server_step eng w (TcpBytes i bs) ts =
     (case tcp_receive i bs (ts_tcp ts) of (ds, tr) \<Rightarrow>
        case make_handler w 1 ds (ts_td ts) of
          None \<Rightarrow> Overread
        | Some (outs, td) \<Rightarrow> Up ([], ts\<lparr>ts_td := td, ts_tcp := tr, tcp_out := tcp_sends tr outs (tcp_out ts)\<rparr>))"
| "server_step eng w (TcpReadError i) ts = Up ([], ts\<lparr>ts_tcp := tcp_read_error i (ts_tcp ts)\<rparr>)"
| "server_step eng w (TcpWrote i n) ts = Up ([], ts\<lparr>tcp_out := (tcp_out ts)(i := write_some n (tcp_out ts i))\<rparr>)"
| "server_step eng w (TcpWriteError i) ts =
     Up ([], if writing (tcp_out ts i)
             then ts\<lparr>ts_tcp := tcp_write_error i (ts_tcp ts), tcp_out := (tcp_out ts)(i := write_failed (tcp_out ts i))\<rparr> else ts)"
| "server_step eng w (TlsAccept ev) ts =
     (case tls_on_accept ev (ts_tls ts) of None \<Rightarrow> Terminated | Some tr \<Rightarrow> Up ([], ts\<lparr>ts_tls := tr\<rparr>))"
| "server_step eng w (TlsHandshake i ok) ts = Up ([], ts\<lparr>ts_tls := tls_handshake i ok (ts_tls ts)\<rparr>)"
| "server_step eng w (TlsBytes i bs) ts =
     (case tls_receive i bs (ts_tls ts) of (ds, tr) \<Rightarrow>
        case make_handler w 2 ds (ts_td ts) of
          None \<Rightarrow> Overread
        | Some (outs, td) \<Rightarrow> Up ([], ts\<lparr>ts_td := td, ts_tls := tr, tls_out := tls_sends tr outs (tls_out ts)\<rparr>))"
| "server_step eng w (TlsReadError i) ts = Up ([], ts\<lparr>ts_tls := tls_read_error i (ts_tls ts)\<rparr>)"
| "server_step eng w (TlsWrote i n) ts = Up ([], ts\<lparr>tls_out := (tls_out ts)(i := write_some n (tls_out ts i))\<rparr>)"
| "server_step eng w (TlsWriteError i) ts =
     Up ([], if writing (tls_out ts i)
             then ts\<lparr>ts_tls := tls_write_error i (ts_tls ts), tls_out := (tls_out ts)(i := write_failed (tls_out ts i))\<rparr> else ts)"
| "server_step eng w (DtlsReceived remote ev) ts =
     (case dtls_receive eng (dtls_handler w 3) remote ev (ts_dtls ts) (ts_td ts) of
        Relocked \<Rightarrow> Relock
      | BadRead \<Rightarrow> Overread
      | Done (outs, tr, td) \<Rightarrow> Up (outs, ts\<lparr>ts_dtls := tr, ts_td := td\<rparr>))"

section \<open>Invariant\<close>

definition streams_ok :: "StreamTransport \<Rightarrow> bool" where
  "streams_ok tr \<longleftrightarrow> (\<forall>i A s. reading tr i = Some (A, s) \<longrightarrow> session_ok s)"

definition ts_inv :: "asio_ip \<Rightarrow> 'ssl TurnServer \<Rightarrow> bool" where
  "ts_inv io ts \<longleftrightarrow> td_inv io (ts_td ts) \<and> streams_ok (ts_tcp ts) \<and> streams_ok (ts_tls ts) \<and> at_rest (ts_dtls ts)"

text \<open>A ChannelData message whose padded length does not fit into 16 bits.\<close>

definition oversized :: "bytes \<times> nat \<times> Endpoint \<Rightarrow> bool" where
  "oversized d \<longleftrightarrow> (case d of (obj, sz, src) \<Rightarrow> 0x40 \<le> obj ! 0 \<and> obj ! 0 \<le> 0x4F \<and> 65533 \<le> unat (attrs_len_of obj))"

definition delivery_ok :: "bytes \<times> nat \<times> Endpoint \<Rightarrow> bool" where
  "delivery_ok d \<longleftrightarrow> in_bounds (fst d, fst (snd d))"

lemma is_channel_div: "is_channel b \<longleftrightarrow> unat b div 64 = 1"
proof -
  have u: "unat (drop_bit 6 b AND 3) = unat b div 64"
  proof -
    have "drop_bit 6 b AND 3 = take_bit 2 (drop_bit 6 b)" by (simp add: take_bit_eq_mask mask_eq_exp_minus_1)
    then show ?thesis using unsigned_less [of b, where 'a = nat]
      by (simp add: drop_bit_eq_div take_bit_eq_mod unat_div unat_mod)
  qed
  have "drop_bit 6 b AND 3 = 1 \<longleftrightarrow> unat (drop_bit 6 b AND 3) = unat (1 :: u8)"
    by (simp only: word_eq_iff_unsigned [where 'a = nat])
  then show ?thesis unfolding u by (simp add: is_channel_def)
qed

lemma is_channel_iff: "is_channel b \<longleftrightarrow> b AND 0xC0 = 0x40" "is_channel b \<longleftrightarrow> 0x40 \<le> b \<and> b \<le> 0x7F"
proof -
  have "(0xC0 :: u8) = NOT (mask 6)" by code_simp
  then have "b AND 0xC0 = b AND NOT (mask 6)" by (simp only:)
  also have "\<dots> = push_bit 6 (drop_bit 6 b)" by (rule bit_word_eqI) (auto simp: bit_simps)
  finally have "unat (b AND 0xC0) = 64 * (unat b div 64)"
    using unsigned_less [of b, where 'a = nat] by (simp add: push_bit_eq_mult drop_bit_eq_div unat_word_ariths unat_div)
  moreover have "b AND 0xC0 = 0x40 \<longleftrightarrow> unat (b AND 0xC0) = unat (0x40 :: u8)" by (simp only: word_eq_iff_unsigned [where 'a = nat])
  ultimately show "is_channel b \<longleftrightarrow> b AND 0xC0 = 0x40" by (simp add: is_channel_div)
  show "is_channel b \<longleftrightarrow> 0x40 \<le> b \<and> b \<le> 0x7F" by (auto simp: is_channel_div word_le_nat_alt)
qed

lemma onPacket_oversized:
  assumes "length obj = 4" "is_channel (obj ! 0)" "65533 \<le> unat (attrs_len_of obj)"
  shows "onPacket w obj (4 + unat (attrs_len_of obj)) src t td = (if obj ! 0 \<le> 0x4F then None else Some ([], td))"
proof -
  obtain a b c d where obj: "obj = [a, b, c, d]" using assms(1) by (auto simp: length_Suc_conv numeral_eq_Suc)
  have a: "a AND 0xC0 = 0x40" "unat a \<ge> 64" using assms(2) obj by (simp_all add: is_channel_iff(1)) 
       (use assms(2) obj in \<open>simp add: is_channel_iff(2) word_le_nat_alt\<close>)
  have len: "65533 \<le> unat (be16 c d)" using assms(3) obj by simp
  have "be16 a b < 0x4000 \<longleftrightarrow> False" "be16 a b > 0x4FFF \<longleftrightarrow> \<not> a \<le> 0x4F"
    using a(2) unsigned_less [of b, where 'a = nat] by (auto simp: word_less_nat_alt word_le_nat_alt unat_be16)
  then have "parse_channel_data obj (4 + unat (be16 c d)) out = (if a \<le> 0x4F then None else Some (InvalidChannel, out))" for out
    using len by (simp add: obj parse_channel_data_def rd16_def rd_def rd_range_def)
  then show ?thesis using a(1) by (simp add: obj onPacket_def rd_def handleChannelData_def)
qed

text \<open>One byte completes at most one message.\<close>

lemma on_complete_one: "length (fst (on_complete s)) \<le> 1 \<and> (fst (on_complete s) = [] \<or> need (ss_phase (snd (on_complete s))) = 1)"
  by (auto simp: on_complete_def read_stun_body_def read_channel_body_def Let_def split: phase.split prod.split)

lemma feed_one: "length (fst (feed [b] s)) \<le> 1"
proof -
  let ?s = "s\<lparr>pending := pending s @ [b]\<rparr>"
  obtain ds1 s1 ds2 s2 where c: "on_complete ?s = (ds1, s1)" "on_complete s1 = (ds2, s2)" by fastforce
  then have "length ds1 \<le> 1" "length ds2 \<le> 1" "ds1 = [] \<or> need (ss_phase s1) = 1"
    using on_complete_one [of ?s] on_complete_one [of s1] by auto
  moreover have "ds1 = [] \<or> pending s1 = []"
    using c(1) by (auto simp: on_complete_def read_stun_body_def read_channel_body_def Let_def split: phase.splits prod.splits)
  ultimately show ?thesis using c by (auto simp: feed_byte_def settle_def split: prod.splits)
qed

text \<open>The receive callback on at most one message fails exactly on an oversized one.\<close>

lemma handler_single:
  assumes "td_inv (w_io w) td" "world_ok w td" "length ds \<le> 1" "list_all delivery_ok ds"
  shows "case make_handler w t ds td of
      None \<Rightarrow> list_ex oversized ds
    | Some (outs, td') \<Rightarrow> \<not> list_ex oversized ds \<and> td_inv (w_io w) td'"
proof (cases ds)
  case Nil
  then show ?thesis using assms(1) by simp
next
  case (Cons d ds')
  then obtain obj sz src where ds: "ds = [(obj, sz, src)]" using assms(3) by (cases d) auto
  then have ok: "in_bounds (obj, sz)" using assms(4) by (simp add: delivery_ok_def)
  then have big: "oversized (obj, sz, src) \<longleftrightarrow> is_channel (obj ! 0) \<and> obj ! 0 \<le> 0x4F \<and> 65533 \<le> unat (attrs_len_of obj)"
    by (auto simp: oversized_def is_channel_iff(2) word_le_nat_alt)
  show ?thesis
  proof (cases "is_channel (obj ! 0) \<and> 65533 \<le> unat (attrs_len_of obj)")
    case True
    then have "onPacket w obj sz src t td = (if obj ! 0 \<le> 0x4F then None else Some ([], td))"
      using ok onPacket_oversized [of obj w src t td] by (simp add: in_bounds_def)
    with True big ds assms(1) show ?thesis by simp
  next
    case False
    then have "sz \<le> length obj" using ok by (auto simp: in_bounds_def)
    then obtain outs td' where "onPacket w obj sz src t td = Some (outs, td')" "td_inv (w_io w) td'"
      using onPacket_inv [OF assms(1,2)] by blast
    with False big ds show ?thesis by simp
  qed
qed

lemma handler_sized:
  assumes "td_inv (w_io w) td" "world_ok w td" "length ds \<le> 1" "list_all (\<lambda>(obj, sz, src). sz \<le> length obj) ds"
  shows "\<exists>outs td'. make_handler w t ds td = Some (outs, td') \<and> td_inv (w_io w) td'"
proof (cases ds)
  case (Cons d ds')
  then obtain obj sz src where "ds = [(obj, sz, src)]" using assms(3) by (cases d) auto
  then show ?thesis using onPacket_inv [OF assms(1,2), of sz obj src t] assms(4) by auto
qed (use assms(1) in simp)

lemma udp_delivery:
  assumes "udp_receive remote ev tr = (ds, tr')"
  shows "length ds \<le> 1 \<and> list_all (\<lambda>(obj, sz, src). sz \<le> length obj) ds"
  using assms by (auto simp: udp_receive_def Let_def split: if_splits sum.splits)

lemma stream_delivery:
  assumes "tcp_receive i [b] tr = (ds, tr')" "streams_ok tr"
  shows "length ds \<le> 1 \<and> list_all delivery_ok ds \<and> streams_ok tr'"
proof (cases "reading tr i")
  case None
  then show ?thesis using assms by (auto simp: tcp_receive_reading)
next
  case (Some x)
  then obtain A s where r: "reading tr i = Some (A, s)" by (cases x) auto
  obtain fs s' where f: "feed [b] s = (fs, s')" by force
  have ok: "session_ok s" using assms(2) r by (auto simp: streams_ok_def)
  have ds: "ds = map (\<lambda>(obj, sz). (obj, sz, A)) fs" "tr' = set_stream i s' tr"
    using assms(1) r f by (auto simp: tcp_receive_reading)
  show ?thesis using ds feed_ok [OF ok, of "[b]"] feed_one [of b s] f assms(2) r
    by (auto simp: list_all_iff delivery_ok_def streams_ok_def reading_set_stream split: if_splits simp del: feed.simps)
qed

lemma stream_events_ok:
  "streams_ok tr \<Longrightarrow> streams_ok (tcp_read_error i tr)" "streams_ok tr \<Longrightarrow> streams_ok (tcp_write_error i tr)"
  "streams_ok tr \<Longrightarrow> streams_ok (tls_handshake i ok tr)"
  "streams_ok tr \<Longrightarrow> tcp_on_accept ev tr = Some tr' \<Longrightarrow> streams_ok tr'"
  "streams_ok tr \<Longrightarrow> tls_on_accept ev tr = Some tr' \<Longrightarrow> streams_ok tr'"
  unfolding streams_ok_def
  by (auto simp: tcp_on_accept_def tls_on_accept_def reading_accept dest!: reading_handshake split: accept_event.splits if_splits)

section \<open>What stops the server\<close>

text \<open>
  The bytes of a stream are taken one at a time, so that every event has at most one message
  and its own surroundings; \<open>feed_append\<close> puts longer segments together.
\<close>

fun bytewise :: "server_event \<Rightarrow> bool" where
  "bytewise (TcpBytes remote bs) = (length bs = 1)"
| "bytewise (TlsBytes remote bs) = (length bs = 1)"
| "bytewise ev = True"

fun oversized_event :: "server_event \<Rightarrow> 'ssl TurnServer \<Rightarrow> bool" where
  "oversized_event (TcpBytes i bs) ts = list_ex oversized (fst (tcp_receive i bs (ts_tcp ts)))"
| "oversized_event (TlsBytes i bs) ts = list_ex oversized (fst (tls_receive i bs (ts_tls ts)))"
| "oversized_event ev ts = False"

text \<open>A DTLS datagram that decrypts to something the dispatcher answers.\<close>

fun answered_datagram :: "'ssl ssl_engine \<Rightarrow> world \<Rightarrow> server_event \<Rightarrow> 'ssl TurnServer \<Rightarrow> bool" where
  "answered_datagram eng w (DtlsReceived remote (Inr d)) ts =
     (let d = take 65536 d; plain = plain_text eng remote d (ts_dtls ts)
      in dtls_receiving (ts_dtls ts) \<and> d \<noteq> [] \<and> plain \<noteq> [] \<and> answers_sender w 3 plain remote (ts_td ts))"
| "answered_datagram eng w ev ts = False"

lemma stream_handler:
  assumes "ts_inv (w_io w) ts" "world_ok w (ts_td ts)" "tcp_receive i [b] tr = (ds, tr')" "streams_ok tr"
  shows "case make_handler w t ds (ts_td ts) of
      None \<Rightarrow> list_ex oversized ds
    | Some (outs, td') \<Rightarrow> \<not> list_ex oversized ds \<and> td_inv (w_io w) td' \<and> streams_ok tr'"
proof -
  have "td_inv (w_io w) (ts_td ts)" using assms(1) by (simp add: ts_inv_def)
  from handler_single [OF this assms(2), of ds t] stream_delivery [OF assms(3,4)] show ?thesis by (auto split: option.splits)
qed

lemma stream_bytes_step:
  assumes "ts_inv (w_io w) ts" "world_ok w (ts_td ts)" "ev = TcpBytes i [b] \<or> ev = TlsBytes i [b]"
  shows "case server_step eng w ev ts of
      Up (outs, ts') \<Rightarrow> \<not> oversized_event ev ts \<and> ts_inv (w_io w) ts'
    | Overread \<Rightarrow> oversized_event ev ts
    | _ \<Rightarrow> False"
proof -
  obtain ds tr where r: "tcp_receive i [b] (ts_tcp ts) = (ds, tr)" by force
  obtain ds' tr' where r': "tcp_receive i [b] (ts_tls ts) = (ds', tr')" by force
  have ok: "streams_ok (ts_tcp ts)" "streams_ok (ts_tls ts)" using assms(1) by (simp_all add: ts_inv_def)
  from assms(3) show ?thesis
  proof
    assume "ev = TcpBytes i [b]"
    with r stream_handler [OF assms(1,2) r ok(1), of 1] assms(1) show ?thesis by (auto simp: ts_inv_def split: option.splits)
  next
    assume "ev = TlsBytes i [b]"
    with r' stream_handler [OF assms(1,2) r' ok(2), of 2] assms(1) show ?thesis by (auto simp: ts_inv_def tls_as_tcp split: option.splits)
  qed
qed

lemma udp_step:
  assumes "ts_inv (w_io w) ts" "world_ok w (ts_td ts)"
  shows "\<exists>outs ts'. server_step eng w (UdpReceived remote ev) ts = Up (outs, ts') \<and> ts_inv (w_io w) ts'"
proof -
  obtain ds udp where r: "udp_receive remote ev (ts_udp ts) = (ds, udp)" by force
  have "td_inv (w_io w) (ts_td ts)" using assms(1) by (simp add: ts_inv_def)
  then obtain outs td where "make_handler w 0 ds (ts_td ts) = Some (outs, td)" "td_inv (w_io w) td"
    using handler_sized [OF _ assms(2)] udp_delivery [OF r] by blast
  with r assms(1) show ?thesis by (simp add: ts_inv_def)
qed

lemma dtls_step:
  assumes "ts_inv (w_io w) ts" "world_ok w (ts_td ts)"
  shows "if answered_datagram eng w (DtlsReceived remote ev) ts then server_step eng w (DtlsReceived remote ev) ts = Relock
    else \<exists>outs ts'. server_step eng w (DtlsReceived remote ev) ts = Up (outs, ts') \<and> ts_inv (w_io w) ts'"
proof (cases "dtls_receiving (ts_dtls ts) \<and> (\<exists>d. ev = Inr d \<and> d \<noteq> [])")
  case True
  then obtain d where ev: "ev = Inr d" "d \<noteq> []" "dtls_receiving (ts_dtls ts)" by blast
  have inv: "at_rest (ts_dtls ts)" "td_inv (w_io w) (ts_td ts)" using assms(1) by (simp_all add: ts_inv_def)
  have "dtls_receive eng cb remote (Inr d) tr x = dtls_receive eng cb remote (Inr (take 65536 d)) tr x" for cb tr and x :: TurnDispatcher
    by (simp add: dtls_receive_def Let_def)
  with dtls_receive_answers [where eng = eng and t = 3, OF inv(1) ev(3) _ _ inv(2) assms(2) refl, of "take 65536 d" remote] ev assms(1)
  show ?thesis by (auto simp: Let_def ts_inv_def split: if_splits)
next
  case False
  then show ?thesis using assms(1) by (cases ev) (auto simp: dtls_receive_def Let_def ts_inv_def at_rest_def)
qed

lemma server_step_cases:
  assumes "ts_inv (w_io w) ts" "world_ok w (ts_td ts)" "bytewise ev"
  shows "case server_step eng w ev ts of
      Up (outs, ts') \<Rightarrow> ev \<noteq> TcpAccept PeerGone \<and> ev \<noteq> TlsAccept PeerGone \<and> \<not> oversized_event ev ts
        \<and> \<not> answered_datagram eng w ev ts \<and> ts_inv (w_io w) ts'
    | Overread \<Rightarrow> oversized_event ev ts
    | Terminated \<Rightarrow> ev = TcpAccept PeerGone \<or> ev = TlsAccept PeerGone
    | Relock \<Rightarrow> answered_datagram eng w ev ts"
proof (cases ev)
  case (UdpReceived remote d)
  then show ?thesis using udp_step [OF assms(1,2), of eng remote d] by (auto simp del: server_step.simps)
next
  case (TcpBytes i bs)
  then obtain b where "bs = [b]" using assms(3) by (auto simp: length_Suc_conv)
  with TcpBytes stream_bytes_step [where eng = eng and i = i and b = b and ev = ev, OF assms(1,2)] show ?thesis
    by (auto simp del: server_step.simps oversized_event.simps split: server_result.splits)
next
  case (TlsBytes i bs)
  then obtain b where "bs = [b]" using assms(3) by (auto simp: length_Suc_conv)
  with TlsBytes stream_bytes_step [where eng = eng and i = i and b = b and ev = ev, OF assms(1,2)] show ?thesis
    by (auto simp del: server_step.simps oversized_event.simps split: server_result.splits)
next
  case (DtlsReceived remote d)
  with dtls_step [OF assms(1,2), of eng remote d] show ?thesis
    by (auto simp del: server_step.simps answered_datagram.simps split: if_splits)
next
  case (TcpAccept e)
  then show ?thesis using stream_events_ok(4) [of "ts_tcp ts" e] assms(1) by (cases e) (auto simp: tcp_on_accept_def ts_inv_def)
next
  case (TlsAccept e)
  then show ?thesis using stream_events_ok(5) [of "ts_tls ts" e] assms(1) by (cases e) (auto simp: tls_on_accept_def ts_inv_def)
qed (use assms(1) stream_events_ok(1-3) in \<open>auto simp: ts_inv_def tls_as_tcp\<close>)

inductive server_trans :: "'ssl ssl_engine \<Rightarrow> asio_ip \<Rightarrow> 'ssl TurnServer \<Rightarrow> 'ssl TurnServer \<Rightarrow> bool" for eng io where
  event: "w_io w = io \<Longrightarrow> world_ok w (ts_td ts) \<Longrightarrow> bytewise ev \<Longrightarrow> server_step eng w ev ts = Up (outs, ts') \<Longrightarrow>
     server_trans eng io ts ts'"

inductive_cases server_transE: "server_trans eng io ts ts'"

lemma server_trans_inv: "server_trans eng io ts ts' \<Longrightarrow> ts_inv io ts \<Longrightarrow> ts_inv io ts'"
proof (elim server_transE)
  fix w ev outs
  assume "ts_inv io ts" "w_io w = io" "world_ok w (ts_td ts)" "bytewise ev" "server_step eng w ev ts = Up (outs, ts')"
  then show "ts_inv io ts'" using server_step_cases [of w ts ev eng] by simp
qed

lemma server_reach_inv: "(server_trans eng io)\<^sup>*\<^sup>* ts ts' \<Longrightarrow> ts_inv io ts \<Longrightarrow> ts_inv io ts'"
  by (induction rule: rtranclp_induct) (auto intro: server_trans_inv)

lemma start_server_inv: "ts_inv io (start_server cfg)"
  by (simp add: ts_inv_def start_server_def mk_turn_server_def mk_dispatcher_inv streams_ok_def reading_def at_rest_def)

section \<open>Relaying over TCP\<close>

text \<open>The channels of two clients are bound to each other.\<close>

definition channels_joined :: "world \<Rightarrow> TurnDispatcher \<Rightarrow> Endpoint \<Rightarrow> u16 \<Rightarrow> Endpoint \<Rightarrow> u16 \<Rightarrow> bool" where
  "channels_joined w td A num B num' \<longleftrightarrow>
     (\<exists>a b ch ch'. owned (alloc_manager td) A = Some a \<and> owned (alloc_manager td) B = Some b
       \<and> um_find (channels a) num = Some ch \<and> cb_peer ch = relayedAddr b
       \<and> um_find (channels b) num' = Some ch' \<and> cb_peer ch' = relayedAddr a
       \<and> hasPermission a (ep_address (relayedAddr b)) (w_now w))"

lemma channel_frame:
  assumes "0x4000 \<le> num" "num \<le> 0x4FFF" "length payload < 65533"
  shows "frame_ok (make_channel_data num payload)"
    "frame_size (make_channel_data num payload) = 4 + length payload"
proof -
  let ?f = "make_channel_data num payload"
  have "?f ! 0 = byte16 8 num" by (simp add: make_channel_data_def Let_def)
  then have ch: "is_channel (?f ! 0)" using channel_top_bits [OF assms(1,2)] by (simp add: is_channel_iff(1))
  have "attrs_len_of ?f = word_of_nat (length payload)" by (simp add: make_channel_data_def Let_def)
  then have len: "unat (attrs_len_of ?f) = length payload" using assms(3) by (simp add: unat_word_of_nat_u16)
  have "unat (padded_len (attrs_len_of ?f)) = length payload + pad4 (length payload)"
    using assms(3) unfolding unat_padded_len len by (auto simp: pad4_def)
  with ch len assms(3) show "frame_ok ?f" "frame_size ?f = 4 + length payload"
    by (simp_all add: frame_ok_def frame_size_def length_make_channel_data)
qed

lemma channel_packet:
  assumes "td_inv (w_io w) td" "channels_joined w td A num B num'" "length payload < 65533"
  shows "onPacket w (make_channel_data num payload) (4 + length payload) A t td =
     Some ([(t, make_channel_data num' payload, B)], td)"
  using assms(2,3) unfolding channels_joined_def by (auto intro!: channel_relay [OF assms(1)])

lemma channel_packets:
  assumes "td_inv (w_io w) td" "channels_joined w td A num B num'" "list_all (\<lambda>p. length p < 65533) ps"
  shows "make_handler w t (map (\<lambda>p. (make_channel_data num p, 4 + length p, A)) ps) td =
     Some (map (\<lambda>p. (t, make_channel_data num' p, B)) ps, td)"
  using assms(3) by (induction ps) (simp_all add: channel_packet [OF assms(1,2)])

text \<open>A sequence of events, each with its surroundings, as long as the server is up.\<close>

fun server_run :: "'ssl ssl_engine \<Rightarrow> (world \<times> server_event) list \<Rightarrow> 'ssl TurnServer \<Rightarrow> 'ssl TurnServer option" where
  "server_run eng [] ts = Some ts"
| "server_run eng ((w, ev) # evs) ts =
     (case server_step eng w ev ts of Up (outs, ts') \<Rightarrow> server_run eng evs ts' | _ \<Rightarrow> None)"

lemma server_run_append:
  "server_run eng (evs @ evs') ts = (case server_run eng evs ts of None \<Rightarrow> None | Some ts' \<Rightarrow> server_run eng evs' ts')"
  by (induction eng evs ts rule: server_run.induct) (auto split: server_result.split)

lemma server_run_writes:
  "server_run eng (map (\<lambda>n. (w, TcpWrote i n)) es) ts = Some (ts\<lparr>tcp_out := (tcp_out ts)(i := writes es (tcp_out ts i))\<rparr>)"
  by (induction es arbitrary: ts) auto

text \<open>Data for \<open>B\<close> go to session \<open>b\<close>.\<close>

definition tcp_connected :: "Endpoint \<Rightarrow> nat \<Rightarrow> 'ssl TurnServer \<Rightarrow> bool" where
  "tcp_connected B b ts \<longleftrightarrow> um_find (st_sessions (ts_tcp ts)) (endpointKey B) = Some b"

lemma tcp_sends_same:
  assumes "um_find (st_sessions tr) (endpointKey B) = Some b"
  shows "tcp_sends tr (map (\<lambda>d. (t, d, B)) ds) ws = ws(b := fold stream_send ds (ws b))"
proof -
  have "tcp_sends tr (map (\<lambda>d. (t, d, B)) ds) ws = start_writes (map (\<lambda>d. Some (b, d)) ds) ws"
    using assms by (simp add: tcp_sends_def tcp_send_def comp_def)
  then show ?thesis by (simp add: start_writes_same)
qed

lemma channel_chunks:
  assumes joined: "td_inv (w_io w) (ts_td ts)" "channels_joined w (ts_td ts) A num B num'"
    and "reading (ts_tcp ts) a = Some (A, s)" "tcp_connected B b ts"
    and "feed (concat chunks) s = (map (\<lambda>p. (make_channel_data num p, 4 + length p)) ps, s')"
    and "list_all (\<lambda>p. length p < 65533) ps"
  shows "\<exists>tr. server_run eng (map (\<lambda>c. (w, TcpBytes a c)) chunks) ts =
        Some (ts\<lparr>ts_tcp := tr, tcp_out := (tcp_out ts)(b := fold stream_send (map (make_channel_data num') ps) (tcp_out ts b))\<rparr>)
      \<and> reading tr a = Some (A, s') \<and> st_sessions tr = st_sessions (ts_tcp ts)"
  using assms
proof (induction chunks arbitrary: ts s ps)
  case Nil
  then show ?case by (intro exI [of _ "ts_tcp ts"]) simp
next
  case (Cons c chunks)
  obtain ds1 s1 ds2 where f: "feed c s = (ds1, s1)" "feed (concat chunks) s1 = (ds2, s')"
      "map (\<lambda>p. (make_channel_data num p, 4 + length p)) ps = ds1 @ ds2"
    using Cons.prems(5) by (auto simp: feed_append split: prod.splits)
  then obtain ps1 ps2 where ps: "ps = ps1 @ ps2" "ds1 = map (\<lambda>p. (make_channel_data num p, 4 + length p)) ps1"
      "ds2 = map (\<lambda>p. (make_channel_data num p, 4 + length p)) ps2"
    by (auto simp: map_eq_append_conv)
  let ?tr = "set_stream a s1 (ts_tcp ts)"
  let ?ts = "ts\<lparr>ts_tcp := ?tr, tcp_out := (tcp_out ts)(b := fold stream_send (map (make_channel_data num') ps1) (tcp_out ts b))\<rparr>"
  have r: "tcp_receive a c (ts_tcp ts) = (map (\<lambda>p. (make_channel_data num p, 4 + length p, A)) ps1, ?tr)"
    using Cons.prems(3) f(1) ps(2) by (simp add: tcp_receive_reading)
  have h: "make_handler w 1 (map (\<lambda>p. (make_channel_data num p, 4 + length p, A)) ps1) (ts_td ts) =
      Some (map (\<lambda>d. (1, d, B)) (map (make_channel_data num') ps1), ts_td ts)"
    using channel_packets [OF Cons.prems(1,2)] Cons.prems(6) ps(1) by (simp add: comp_def)
  have B: "um_find (st_sessions ?tr) (endpointKey B) = Some b" using Cons.prems(4) by (simp add: tcp_connected_def)
  have step: "server_step eng w (TcpBytes a c) ts = Up ([], ?ts)"
    using r h tcp_sends_same [OF B, of 1 "map (make_channel_data num') ps1"] by (simp del: map_map)
  have "td_inv (w_io w) (ts_td ?ts)" "channels_joined w (ts_td ?ts) A num B num'"
      "reading (ts_tcp ?ts) a = Some (A, s1)" "tcp_connected B b ?ts" "list_all (\<lambda>p. length p < 65533) ps2"
    using Cons.prems ps(1) by (simp_all add: tcp_connected_def reading_set_stream)
  note IH = Cons.IH [OF this(1-4) f(2) [unfolded ps(3)] this(5)]
  have eq: "?ts\<lparr>ts_tcp := tr, tcp_out := (tcp_out ?ts)(b := fold stream_send (map (make_channel_data num') ps2) (tcp_out ?ts b))\<rparr>
    = ts\<lparr>ts_tcp := tr, tcp_out := (tcp_out ts)(b := fold stream_send (map (make_channel_data num') ps) (tcp_out ts b))\<rparr>" for tr
    by (simp add: ps(1))
  from step have "server_run eng (map (\<lambda>c. (w, TcpBytes a c)) (c # chunks)) ts = server_run eng (map (\<lambda>c. (w, TcpBytes a c)) chunks) ?ts"
    by (simp del: server_step.simps)
  moreover have "st_sessions (ts_tcp ?ts) = st_sessions (ts_tcp ts)" by simp
  ultimately show ?case using IH unfolding eq by presburger
qed

lemma channels_joined_num:
  assumes "td_inv (w_io w) td" "channels_joined w td A num B num'"
  shows "0x4000 \<le> num \<and> num \<le> 0x4FFF"
proof -
  obtain a ch where a: "owned (alloc_manager td) A = Some a" "um_find (channels a) num = Some ch"
    using assms(2) by (auto simp: channels_joined_def)
  moreover have "am_inv (w_io w) (alloc_manager td)" using assms(1) by (simp add: td_inv_def)
  ultimately have "allocation_ok (w_io w) a" using owned_relayed by blast
  with a(2) show ?thesis by (auto simp: allocation_ok_def)
qed

text \<open>The bytes of one message on session \<open>a\<close>, cut anywhere, then some writing on session \<open>b\<close>.\<close>

type_synonym relay_item = "world \<times> bytes \<times> bytes list \<times> nat list"

fun relay_events :: "nat \<Rightarrow> nat \<Rightarrow> relay_item \<Rightarrow> (world \<times> server_event) list" where
  "relay_events a b (w, p, chunks, es) = map (\<lambda>c. (w, TcpBytes a c)) chunks @ map (\<lambda>n. (w, TcpWrote b n)) es"

fun relay_item_ok :: "TurnDispatcher \<Rightarrow> Endpoint \<Rightarrow> u16 \<Rightarrow> Endpoint \<Rightarrow> u16 \<Rightarrow> relay_item \<Rightarrow> bool" where
  "relay_item_ok td A num B num' (w, p, chunks, es) \<longleftrightarrow>
     td_inv (w_io w) td \<and> channels_joined w td A num B num' \<and> length p < 65533 \<and> concat chunks = make_channel_data num p"

text \<open>The copy of an item's message is written by the writing that follows it.\<close>

fun copy_written :: "u16 \<Rightarrow> relay_item \<Rightarrow> bool" where
  "copy_written num' (w, p, chunks, es) = finishes es (make_channel_data num' p)"

lemma relay_chunks:
  assumes "relay_item_ok (ts_td ts) A num B num' (w, p, chunks, es)"
    "reading (ts_tcp ts) a = Some (A, s)" "idle s" "tcp_connected B b ts"
  shows "\<exists>tr s'. server_run eng (map (\<lambda>c. (w, TcpBytes a c)) chunks) ts =
        Some (ts\<lparr>ts_tcp := tr, tcp_out := (tcp_out ts)(b := stream_send (make_channel_data num' p) (tcp_out ts b))\<rparr>)
      \<and> reading tr a = Some (A, s') \<and> idle s' \<and> st_sessions tr = st_sessions (ts_tcp ts)"
proof -
  have ok: "td_inv (w_io w) (ts_td ts)" "channels_joined w (ts_td ts) A num B num'" "length p < 65533"
    "concat chunks = make_channel_data num p" using assms(1) by simp_all
  note fr = channel_frame [OF conjunct1 [OF channels_joined_num [OF ok(1,2)]] conjunct2 [OF channels_joined_num [OF ok(1,2)]] ok(3)]
  obtain s' where f: "feed (make_channel_data num p) s = ([(make_channel_data num p, 4 + length p)], s')" "idle s'"
    using feed_frame [OF assms(3) fr(1)] fr(2) by metis
  have "feed (concat chunks) s = (map (\<lambda>p. (make_channel_data num p, 4 + length p)) [p], s')" using f(1) ok(4) by simp
  from channel_chunks [where eng = eng, OF ok(1,2) assms(2,4) this] ok(3) f(2) show ?thesis by simp blast
qed

lemma relay_items:
  assumes "list_all (relay_item_ok (ts_td ts) A num B num') items"
    "reading (ts_tcp ts) a = Some (A, s)" "idle s" "tcp_connected B b ts"
  shows "\<exists>ts'. server_run eng (concat (map (relay_events a b) items)) ts = Some ts'
    \<and> tcp_out ts' b = send_all (map (\<lambda>(w, p, chunks, es). (make_channel_data num' p, es)) items) (tcp_out ts b)"
  using assms
proof (induction items arbitrary: ts s)
  case (Cons item items)
  obtain w p chunks es where item: "item = (w, p, chunks, es)" by (metis prod_cases4)
  let ?wr = "stream_send (make_channel_data num' p) (tcp_out ts b)"
  have "relay_item_ok (ts_td ts) A num B num' (w, p, chunks, es)" using Cons.prems(1) item by simp
  from relay_chunks [OF this Cons.prems(2-4)] obtain tr s' where r:
    "server_run eng (map (\<lambda>c. (w, TcpBytes a c)) chunks) ts = Some (ts\<lparr>ts_tcp := tr, tcp_out := (tcp_out ts)(b := ?wr)\<rparr>)"
    "reading tr a = Some (A, s')" "idle s'" "st_sessions tr = st_sessions (ts_tcp ts)" by blast
  let ?ts = "ts\<lparr>ts_tcp := tr, tcp_out := (tcp_out ts)(b := writes es ?wr)\<rparr>"
  have run: "server_run eng (relay_events a b item) ts = Some ?ts"
    using r(1) by (simp add: item server_run_append server_run_writes)
  have "list_all (relay_item_ok (ts_td ?ts) A num B num') items" "tcp_connected B b ?ts" "reading (ts_tcp ?ts) a = Some (A, s')"
    using Cons.prems(1,4) r(2,4) by (simp_all add: tcp_connected_def)
  note IH = Cons.IH [OF this(1,3) r(3) this(2)]
  have "server_run eng (concat (map (relay_events a b) (item # items))) ts = server_run eng (concat (map (relay_events a b) items)) ?ts"
    using run by (simp add: server_run_append del: relay_events.simps)
  with IH item show ?case by simp
qed simp

section \<open>A server with two connected clients\<close>

definition demo_server :: "unit TurnServer" where
  "demo_server = (start_server Map.empty)\<lparr>ts_td := demo_td\<lparr>alloc_manager := demo_two\<rparr>,
     ts_tcp := tcp_accept (demo_client 2000) (tcp_accept (demo_client 1000) \<lparr>st_sessions = [], st_conns = []\<rparr>)\<rparr>"

definition demo_item :: "bytes \<Rightarrow> nat list \<Rightarrow> relay_item" where
  "demo_item p es = (demo_world, p, [take 3 (make_channel_data 0x4001 p), drop 3 (make_channel_data 0x4001 p)], es)"

lemma demo_item_ok:
  assumes "length p < 65533"
  shows "relay_item_ok (ts_td demo_server) (demo_client 1000) 0x4001 (demo_client 2000) 0x4002 (demo_item p es)"
proof -
  have "td_inv (w_io demo_world) (ts_td demo_server)"
    using demo_td_inv demo_two_facts(1) by (simp add: td_inv_def demo_server_def)
  moreover have "channels_joined demo_world (ts_td demo_server) (demo_client 1000) 0x4001 (demo_client 2000) 0x4002"
    unfolding channels_joined_def demo_server_def using demo_two_facts(2,3)
    by (simp add: hasPermission_def demo_perm_def demo_chan_def)
  ultimately show ?thesis using assms by (simp add: demo_item_def)
qed

lemma demo_server_connected:
  "reading (ts_tcp demo_server) 0 = Some (demo_client 1000, run_session)"
  "tcp_connected (demo_client 2000) 1 demo_server" "tcp_out demo_server 1 = Idle []"
  by (simp_all add: demo_server_def tcp_accept_def tcp_connected_def start_server_def reading_def)

lemma demo_world_start: "world_ok demo_world (ts_td (start_server Map.empty))"
proof -
  have "generateRandom (w_rnd demo_world) 0 = Some (concat (map hex_byte (replicate 16 0)))"
    by (simp add: generateRandom_def demo_world_def)
  then show ?thesis
    by (auto simp: world_ok_def start_server_def mk_turn_server_def mk_dispatcher_def mk_nonce_manager_def draws_ok_def port_range_def
        mk_manager_def setClientSendCallback_def setPeerSendCallback_def getInt_def cfg_get_def)
      (auto simp: demo_world_def)
qed

section \<open>Properties\<close>

text \<open>
  C11. What stops the server: in every state it reaches from its start, whatever its clients
  send over UDP, TCP, TLS and DTLS and in whatever order connections open, fail and close,
  the handler of the next event ends normally except in exactly three cases. A connection
  that is reset before the server has accepted it lets an exception escape, which terminates
  the process; a ChannelData header on a stream that declares 65533 bytes or more makes it
  read outside a buffer; and a DTLS datagram whose plain text the dispatcher answers makes it
  lock a mutex it owns, which is undefined behaviour.
\<close>

theorem turn_server_stops_only:
  assumes "(server_trans eng (w_io w))\<^sup>*\<^sup>* (start_server cfg) ts" "world_ok w (ts_td ts)" "bytewise ev"
  shows "(server_step eng w ev ts = Terminated \<longleftrightarrow> ev = TcpAccept PeerGone \<or> ev = TlsAccept PeerGone)
    \<and> (server_step eng w ev ts = Overread \<longleftrightarrow> oversized_event ev ts)
    \<and> (server_step eng w ev ts = Relock \<longleftrightarrow> answered_datagram eng w ev ts)"
proof -
  have "ts_inv (w_io w) ts" by (rule server_reach_inv [OF assms(1) start_server_inv])
  note c = server_step_cases [OF this assms(2,3), of eng]
  show ?thesis
  proof (cases "server_step eng w ev ts")
    case (Up r)
    then show ?thesis using c by (cases r) (auto simp del: server_step.simps)
  next
    case Overread
    then show ?thesis using c by (cases ev) auto
  next
    case Terminated
    then show ?thesis using c by (auto simp del: server_step.simps)
  next
    case Relock
    then show ?thesis using c by (cases ev) auto
  qed
qed

theorem turn_server_stops_only_witness:
  "server_step demo_engine demo_world (TcpAccept PeerGone) (start_server Map.empty) = Terminated
   \<and> server_step demo_engine demo_world (TlsBytes 0 [0x40]) (start_server Map.empty) \<noteq> Overread"
  using turn_server_stops_only [of demo_engine demo_world Map.empty "start_server Map.empty", OF _ demo_world_start]
  by (simp add: tls_receive_def start_server_def del: server_step.simps)

text \<open>
  C12. Relaying over TCP, end to end: two clients are connected over TCP and have bound
  channels to each other. The first sends ChannelData messages, its bytes cut into segments
  anywhere; when the copy of each has been written before the next one is complete, the
  second client's connection carries exactly these payloads, in order, on its own channel.
\<close>

theorem tcp_relay_in_order:
  assumes "list_all (relay_item_ok (ts_td ts) A num B num') items" "list_all (copy_written num') items"
    "reading (ts_tcp ts) a = Some (A, s)" "idle s" "tcp_connected B b ts" "tcp_out ts b = Idle wire"
  shows "\<exists>ts'. server_run eng (concat (map (relay_events a b) items)) ts = Some ts'
    \<and> tcp_out ts' b = Idle (wire @ concat (map (\<lambda>(w, p, chunks, es). make_channel_data num' p) items))"
proof -
  let ?xs = "map (\<lambda>(w, p, chunks, es). (make_channel_data num' p, es)) items"
  have "list_all (\<lambda>(data, es). finishes es data) ?xs" using assms(2) by (auto simp: list_all_iff)
  moreover have "map fst ?xs = map (\<lambda>(w, p, chunks, es). make_channel_data num' p) items" by auto
  ultimately have "send_all ?xs (Idle wire) = Idle (wire @ concat (map (\<lambda>(w, p, chunks, es). make_channel_data num' p) items))"
    using send_all_done [of ?xs wire] by (simp only:)
  with relay_items [where eng = eng, OF assms(1,3-5)] assms(6) show ?thesis by auto
qed

theorem tcp_relay_in_order_witness:
  "\<exists>ts'. server_run demo_engine (concat (map (relay_events 0 1) [demo_item [1, 2] [5, 3], demo_item [3] [8]])) demo_server = Some ts'
     \<and> tcp_out ts' 1 = Idle (make_channel_data 0x4002 [1, 2] @ make_channel_data 0x4002 [3])"
proof -
  have "list_all (copy_written 0x4002) [demo_item [1, 2] [5, 3], demo_item [3] [8]]"
    by (simp add: demo_item_def finishes_def make_channel_data_def Let_def pad4_def)
  from tcp_relay_in_order [where eng = demo_engine and ts = demo_server and num = "0x4001", OF _ this demo_server_connected(1) _
      demo_server_connected(2,3)]
  show ?thesis using demo_item_ok [of "[1, 2]"] demo_item_ok [of "[3]"] by (simp add: demo_item_def)
qed

text \<open>
  C13. That order is not enforced: Asio requires that no write is started on a stream before
  the last \<open>async_write\<close> on it has completed, and \<open>send\<close> does not wait for it. When one client
  sends another any sequence of ChannelData messages over TCP, with any progress of the
  writing in between, the server breaks this requirement exactly when some message but the
  last is followed by the next one before its copy has been written.
\<close>

theorem overlapping_relay_writes:
  assumes "list_all (relay_item_ok (ts_td ts) A num B num') items"
    "reading (ts_tcp ts) a = Some (A, s)" "idle s" "tcp_connected B b ts" "tcp_out ts b = Idle wire"
  shows "\<exists>ts'. server_run eng (concat (map (relay_events a b) items)) ts = Some ts'
    \<and> (tcp_out ts' b = Overlapped \<longleftrightarrow> \<not> list_all (copy_written num') (butlast items))"
proof -
  let ?f = "\<lambda>(w, p, chunks, es). (make_channel_data num' p, es)"
  have "list_all (\<lambda>(data, es). finishes es data) (butlast (map ?f items)) = list_all (copy_written num') (butlast items)"
    unfolding map_butlast [symmetric] by (auto simp: list_all_iff)
  with relay_items [where eng = eng, OF assms(1-4)] assms(5) send_all_overlap [of "map ?f items" wire] show ?thesis by auto
qed

theorem overlapping_relay_writes_witness:
  "\<exists>ts'. server_run demo_engine (concat (map (relay_events 0 1) [demo_item [1] [3], demo_item [2] []])) demo_server = Some ts'
     \<and> tcp_out ts' 1 = Overlapped"
proof -
  have "\<not> list_all (copy_written 0x4002) (butlast [demo_item [1] [3], demo_item [2] []])"
    by (simp add: demo_item_def finishes_def make_channel_data_def Let_def pad4_def)
  with overlapping_relay_writes [where eng = demo_engine and ts = demo_server and num = "0x4001" and num' = "0x4002"
      and items = "[demo_item [1] [3], demo_item [2] []]", OF _ demo_server_connected(1) _ demo_server_connected(2,3)]
  show ?thesis using demo_item_ok [of "[1]"] demo_item_ok [of "[2]"] by (simp add: demo_item_def)
qed

end
