(* ===== verification/Sound_Device.thy ===== *)
theory Sound_Device
  imports Client_App
begin

text \<open>
  The threads and the sound device of \<open>client_cli/src/audio/capture.cpp\<close> and \<open>playback.cpp\<close>.
  Both classes have the same life cycle: \<open>start\<close> starts a thread whose \<open>loop\<close> opens the
  device, handles frames while \<open>running_\<close> is set, and closes the device; \<open>stop\<close> clears
  \<open>running_\<close>, joins the thread and closes what is still open. The threads that call them and
  the audio thread are interleaved; the answers of the system calls are part of the events.
  Nothing orders \<open>start\<close> and \<open>stop\<close>: the client calls \<open>playback->start()\<close> on libdatachannel's
  thread and \<open>stop()\<close> on others. Both use \<open>thread_\<close> without a mutex, so the model records a
  call that overlaps another one and says nothing of what follows.
\<close>

section \<open>State\<close>

text \<open>Where the audio thread is; \<open>Looping\<close> and \<open>Finishing\<close> carry \<open>has_device\<close>.\<close>

datatype audio_pc = NoThread | Opening | Looping bool | Finishing bool | Finished

text \<open>The call of \<open>start\<close> or \<open>stop\<close> that is under way.\<close>

datatype device_call = NoCall | Starting | Stopping

record 'd SoundThread =
  dev_fd :: int
  dev_running :: bool
  dev_pc :: audio_pc
  dev_call :: device_call
  dev_overlap :: bool
  dev_aborted :: bool
  os_open :: "int list"
  dev_data :: 'd

definition mk_sound_thread :: "'d \<Rightarrow> 'd SoundThread" where
  "mk_sound_thread d = \<lparr>dev_fd = -1, dev_running = False, dev_pc = NoThread, dev_call = NoCall, dev_overlap = False, dev_aborted = False,
     os_open = [], dev_data = d\<rparr>"

text \<open>The answer of \<open>open\<close> and of the three \<open>ioctl\<close> calls: format, channels, speed.\<close>

datatype open_result = CannotOpen | Opened int bool bool bool

definition openDevice :: "open_result \<Rightarrow> 'd SoundThread \<Rightarrow> bool \<times> 'd SoundThread" where
  "openDevice r st =
     (case r of
        CannotOpen \<Rightarrow> (False, st\<lparr>dev_fd := -1\<rparr>)
      | Opened fd setfmt channels speed \<Rightarrow>
          (setfmt \<and> channels \<and> speed, st\<lparr>dev_fd := fd, os_open := fd # os_open st\<rparr>))"

definition closeDevice :: "'d SoundThread \<Rightarrow> 'd SoundThread" where
  "closeDevice st =
     (if dev_fd st \<ge> 0 then st\<lparr>dev_fd := -1, os_open := remove1 (dev_fd st) (os_open st)\<rparr> else st)"

text \<open>The playback device: the same calls, one after the other.\<close>

definition playback_openDevice :: "open_result \<Rightarrow> 'd SoundThread \<Rightarrow> bool \<times> 'd SoundThread" where
  "playback_openDevice r st =
     (case r of
        CannotOpen \<Rightarrow> (False, st\<lparr>dev_fd := -1\<rparr>)
      | Opened fd setfmt channels speed \<Rightarrow>
          let st = st\<lparr>dev_fd := fd, os_open := fd # os_open st\<rparr>
          in if \<not> setfmt then (False, st)
             else if \<not> channels then (False, st)
             else if \<not> speed then (False, st)
             else (True, st))"

definition playback_closeDevice :: "'d SoundThread \<Rightarrow> 'd SoundThread" where
  "playback_closeDevice st =
     (if dev_fd st \<ge> 0 then st\<lparr>os_open := remove1 (dev_fd st) (os_open st), dev_fd := -1\<rparr> else st)"

lemma playback_device: "playback_openDevice = openDevice" "playback_closeDevice = closeDevice"
  by (auto simp: playback_openDevice_def openDevice_def playback_closeDevice_def closeDevice_def fun_eq_iff Let_def split: open_result.split)

section \<open>Steps\<close>

text \<open>
  \<open>start\<close> looks at \<open>running_\<close> first; the rest of it sets \<open>running_\<close> and assigns to \<open>thread_\<close>,
  which calls \<open>std::terminate\<close> if that is joinable (\<open>dev_aborted\<close>).
\<close>

definition dev_start :: "'d SoundThread \<Rightarrow> 'd SoundThread" where
  "dev_start st =
     (if dev_running st then st
      else if dev_call st \<noteq> NoCall then st\<lparr>dev_overlap := True\<rparr>
      else st\<lparr>dev_call := Starting\<rparr>)"

definition dev_started :: "'d SoundThread \<Rightarrow> 'd SoundThread" where
  "dev_started st =
     (if dev_pc st \<noteq> NoThread then st\<lparr>dev_running := True, dev_aborted := True, dev_call := NoCall\<rparr>
      else st\<lparr>dev_running := True, dev_pc := Opening, dev_call := NoCall\<rparr>)"

definition dev_stop :: "('d \<Rightarrow> 'd) \<Rightarrow> 'd SoundThread \<Rightarrow> 'd SoundThread" where
  "dev_stop on_stop st =
     (if dev_call st \<noteq> NoCall then st\<lparr>dev_overlap := True\<rparr>
      else st\<lparr>dev_running := False, dev_call := Stopping, dev_data := on_stop (dev_data st)\<rparr>)"

definition dev_joined :: "'d SoundThread \<Rightarrow> 'd SoundThread" where
  "dev_joined st = closeDevice (st\<lparr>dev_pc := NoThread, dev_call := NoCall\<rparr>)"

text \<open>
  Events: the calls, the return of \<open>start\<close>, that of \<open>stop\<close> once the thread has ended, and the steps
  of the thread: the device has been opened, one iteration with the answer of \<open>read\<close> or
  \<open>write\<close>, the loop condition found false, the end of \<open>loop\<close>. An event that is not possible
  in a state leaves it as it is. \<open>frame_body\<close> is the body of the loop: whether the loop goes on.
\<close>

datatype 'r device_event = StartCall | StartReturn | StopCall | StopReturn | OpenDone open_result | Iterate 'r | Leave | CloseDone

fun dev_step ::
    "('r \<Rightarrow> bool \<Rightarrow> 'd \<Rightarrow> bool \<times> 'd) \<Rightarrow> ('d \<Rightarrow> 'd) \<Rightarrow> 'r device_event \<Rightarrow> 'd SoundThread \<Rightarrow> 'd SoundThread" where
  "dev_step frame_body on_stop StartCall st = dev_start st"
| "dev_step frame_body on_stop StartReturn st = (if dev_call st = Starting then dev_started st else st)"
| "dev_step frame_body on_stop StopCall st = dev_stop on_stop st"
| "dev_step frame_body on_stop StopReturn st =
     (if dev_call st = Stopping \<and> (dev_pc st = NoThread \<or> dev_pc st = Finished) then dev_joined st else st)"
| "dev_step frame_body on_stop (OpenDone r) st =
     (if dev_pc st = Opening then (case openDevice r st of (has_device, st') \<Rightarrow> st'\<lparr>dev_pc := Looping has_device\<rparr>) else st)"
| "dev_step frame_body on_stop (Iterate r) st =
     (case dev_pc st of
        Looping has_device \<Rightarrow>
          if dev_running st then
            (case frame_body r has_device (dev_data st) of (go_on, d) \<Rightarrow>
               st\<lparr>dev_data := d, dev_pc := if go_on then Looping has_device else Finishing has_device\<rparr>)
          else st
      | _ \<Rightarrow> st)"
| "dev_step frame_body on_stop Leave st =
     (case dev_pc st of Looping has_device \<Rightarrow> if dev_running st then st else st\<lparr>dev_pc := Finishing has_device\<rparr> | _ \<Rightarrow> st)"
| "dev_step frame_body on_stop CloseDone st =
     (case dev_pc st of Finishing has_device \<Rightarrow> (if has_device then closeDevice st else st)\<lparr>dev_pc := Finished\<rparr> | _ \<Rightarrow> st)"

section \<open>The loop bodies\<close>

text \<open>
  Capture: the frames handed to the callback so far, and the capture state. \<open>read\<close> fails or
  yields the samples it has read; without a device the callback gets silence.
\<close>

definition capture_body :: "nat \<Rightarrow> sample list option \<Rightarrow> bool \<Rightarrow> sample list list \<times> Capture \<Rightarrow> bool \<times> sample list list \<times> Capture" where
  "capture_body frame_size r has_device d =
     (case d of (frames, cap) \<Rightarrow>
        if has_device then
          (case r of
             None \<Rightarrow> (False, frames, cap)
           | Some samples \<Rightarrow> (case cap_frame samples cap of (data, cap') \<Rightarrow> (True, frames @ [data], cap')))
        else (True, frames @ [replicate frame_size 0], cap))"

definition capture_stop :: "sample list list \<times> Capture \<Rightarrow> sample list list \<times> Capture" where
  "capture_stop d = (fst d, cap_stop (snd d))"

text \<open>Playback: the frames written to the device; each iteration takes one from the jitter buffer.\<close>

definition playback_body :: "bool \<Rightarrow> bool \<Rightarrow> sample list list \<times> Playback \<Rightarrow> bool \<times> sample list list \<times> Playback" where
  "playback_body written has_device d =
     (case d of (frames, pb) \<Rightarrow>
        case jb_read (pb_frame_size pb) (jitter_buffer pb) of (frame, i, jb) \<Rightarrow>
          if has_device \<and> \<not> written then (False, frames, pb\<lparr>jitter_buffer := jb\<rparr>)
          else (True, if has_device then frames @ [frame] else frames, pb\<lparr>jitter_buffer := jb\<rparr>))"

definition playback_stop :: "sample list list \<times> Playback \<Rightarrow> sample list list \<times> Playback" where
  "playback_stop d = (fst d, pb_stop (snd d))"

section \<open>Invariant\<close>

definition sound_inv :: "'d SoundThread \<Rightarrow> bool" where
  "sound_inv st \<longleftrightarrow> dev_overlap st \<or>
     \<not> dev_aborted st \<and> dev_fd st \<ge> -1
   \<and> os_open st = (if dev_fd st \<ge> 0 then [dev_fd st] else [])
   \<and> (dev_pc st = NoThread \<or> dev_pc st = Opening \<longrightarrow> dev_fd st = -1)
   \<and> (dev_running st \<longrightarrow> dev_call st = NoCall \<and> dev_pc st \<noteq> NoThread)
   \<and> (\<not> dev_running st \<and> dev_call st \<noteq> Stopping \<longrightarrow> dev_pc st = NoThread)"

fun sound_event_ok :: "'r device_event \<Rightarrow> bool" where
  "sound_event_ok (OpenDone (Opened fd f c s)) = (fd \<ge> 0)"
| "sound_event_ok e = True"

lemma sound_inv_mk: "sound_inv (mk_sound_thread d)"
  by (simp add: sound_inv_def mk_sound_thread_def)

lemma dev_step_inv:
  assumes "sound_inv st" "sound_event_ok e"
  shows "sound_inv (dev_step frame_body on_stop e st)"
proof (cases e)
  case (OpenDone r)
  then show ?thesis using assms by (cases r) (auto simp: sound_inv_def openDevice_def)
next
  case (Iterate r)
  then show ?thesis using assms by (auto simp: sound_inv_def split: audio_pc.splits prod.splits)
qed (use assms in \<open>auto simp: sound_inv_def dev_start_def dev_started_def dev_stop_def dev_joined_def closeDevice_def
      split: audio_pc.splits if_splits\<close>)

interpretation snd_dev: invariant_machine "dev_step frame_body on_stop" sound_event_ok sound_inv
  by unfold_locales (rule dev_step_inv)

text \<open>However far the thread is, its remaining steps let \<open>stop\<close> return with everything closed.\<close>

lemma stop_returns:
  assumes "sound_inv st" "\<not> dev_overlap st" "dev_call st = Stopping" "sound_event_ok (OpenDone r :: 'r device_event)"
  shows "let st' = fold (dev_step frame_body on_stop) [OpenDone r :: 'r device_event, Leave, CloseDone, StopReturn] st
     in \<not> dev_overlap st' \<and> dev_pc st' = NoThread \<and> dev_call st' = NoCall \<and> \<not> dev_running st' \<and> os_open st' = []"
proof -
  have inv: "dev_fd st \<ge> -1" "os_open st = (if dev_fd st \<ge> 0 then [dev_fd st] else [])" "\<not> dev_running st"
    "dev_pc st = NoThread \<or> dev_pc st = Opening \<longrightarrow> dev_fd st = -1" using assms(1-3) by (auto simp: sound_inv_def)
  show ?thesis
  proof (cases "dev_pc st")
    case Opening
    show ?thesis
    proof (cases r)
      case CannotOpen
      then show ?thesis using Opening inv assms(2,3) by (simp add: dev_joined_def openDevice_def closeDevice_def)
    next
      case (Opened fd f c s)
      then show ?thesis using Opening inv assms(2-4)
        by (cases "f \<and> c \<and> s") (auto simp: dev_joined_def openDevice_def closeDevice_def)
    qed
  next
    case (Looping has_device)
    then show ?thesis using inv assms(2,3) by (cases has_device) (auto simp: dev_joined_def closeDevice_def split: if_splits)
  next
    case (Finishing has_device)
    then show ?thesis using inv assms(2,3) by (cases has_device) (auto simp: dev_joined_def closeDevice_def split: if_splits)
  qed (use inv assms(2,3) in \<open>auto simp: dev_joined_def closeDevice_def split: if_splits\<close>)
qed

text \<open>The events that lead to a \<open>stop\<close> under way.\<close>

fun to_stop :: "device_call \<Rightarrow> 'r device_event list" where
  "to_stop NoCall = [StopCall]"
| "to_stop Starting = [StartReturn, StopCall]"
| "to_stop Stopping = []"

lemma to_stop_stops:
  "dev_call (fold (dev_step frame_body on_stop) (to_stop (dev_call st) :: 'r device_event list) st) = Stopping
   \<and> dev_overlap (fold (dev_step frame_body on_stop) (to_stop (dev_call st) :: 'r device_event list) st) = dev_overlap st"
  by (cases "dev_call st") (simp_all add: dev_stop_def dev_started_def)

lemma to_stop_ok: "list_all sound_event_ok (to_stop c)"
  by (cases c) simp_all

text \<open>After the loop has been left by a failed system call, only \<open>stop\<close> changes anything.\<close>

definition loop_left :: "'d SoundThread \<Rightarrow> bool" where
  "loop_left st \<longleftrightarrow> dev_running st \<and> dev_call st = NoCall \<and> ((\<exists>has_device. dev_pc st = Finishing has_device) \<or> dev_pc st = Finished)"

lemma loop_left_step:
  assumes "loop_left st" "e \<noteq> StopCall"
  shows "loop_left (dev_step frame_body on_stop e st) \<and> dev_data (dev_step frame_body on_stop e st) = dev_data st"
  using assms by (cases e) (auto simp: loop_left_def dev_start_def closeDevice_def split: audio_pc.splits)

lemma loop_left_run:
  "loop_left st \<Longrightarrow> StopCall \<notin> set es \<Longrightarrow>
     loop_left (fold (dev_step frame_body on_stop) es st) \<and> dev_data (fold (dev_step frame_body on_stop) es st) = dev_data st"
proof (induction es arbitrary: st)
  case (Cons e es)
  then have "loop_left (dev_step frame_body on_stop e st)" "dev_data (dev_step frame_body on_stop e st) = dev_data st"
    using loop_left_step [of st e] by auto
  with Cons show ?case by simp
qed simp

section \<open>Properties\<close>

text \<open>
  C31. The life cycle of the audio threads: however the calls of \<open>start\<close> and \<open>stop\<close> and the
  steps of the thread interleave, and whatever the system calls answer, as long as no call of
  \<open>start\<close> or \<open>stop\<close> is made while another one is under way, no thread is started over a joinable
  one, at most one descriptor is open, and when nothing runs and no call is under way no
  thread is left and nothing is open; and then \<open>stop\<close> returns, after at most three more steps
  of the audio thread, with the thread joined and the device closed.
\<close>

theorem sound_thread_lifecycle:
  fixes frame_body :: "'r \<Rightarrow> bool \<Rightarrow> 'd \<Rightarrow> bool \<times> 'd"
  assumes "list_all sound_event_ok es" "sound_event_ok (OpenDone r :: 'r device_event)"
    and "\<not> dev_overlap (fold (dev_step frame_body on_stop) es (mk_sound_thread d))"
  shows "let st = fold (dev_step frame_body on_stop) es (mk_sound_thread d);
      st' = fold (dev_step frame_body on_stop) (to_stop (dev_call st) @ [OpenDone r, Leave, CloseDone, StopReturn]) st
    in \<not> dev_aborted st \<and> length (os_open st) \<le> 1
     \<and> (\<not> dev_running st \<and> dev_call st = NoCall \<longrightarrow> dev_pc st = NoThread \<and> os_open st = [])
     \<and> \<not> dev_overlap st' \<and> dev_pc st' = NoThread \<and> dev_call st' = NoCall \<and> \<not> dev_running st' \<and> os_open st' = []"
proof -
  let ?st = "fold (dev_step frame_body on_stop) es (mk_sound_thread d)"
  let ?st1 = "fold (dev_step frame_body on_stop) (to_stop (dev_call ?st) :: 'r device_event list) ?st"
  have inv: "sound_inv ?st" by (rule snd_dev.run_inv [OF sound_inv_mk assms(1)])
  have inv1: "sound_inv ?st1" by (rule snd_dev.run_inv [OF inv to_stop_ok])
  have "\<not> dev_overlap ?st1" "dev_call ?st1 = Stopping" using to_stop_stops [of frame_body on_stop ?st] assms(3) by auto
  note stop_returns [OF inv1 this assms(2), of frame_body on_stop]
  moreover have "\<not> dev_aborted ?st \<and> length (os_open ?st) \<le> 1
     \<and> (\<not> dev_running ?st \<and> dev_call ?st = NoCall \<longrightarrow> dev_pc ?st = NoThread \<and> os_open ?st = [])"
    using inv assms(3) by (auto simp: sound_inv_def)
  ultimately show ?thesis unfolding Let_def fold_append comp_apply by blast
qed

definition demo_capture_events :: "sample list option device_event list" where
  "demo_capture_events = [StartCall, StartReturn, OpenDone (Opened 5 True True False), Iterate (Some [1, 2])]"

theorem sound_thread_lifecycle_witness:
  "length (os_open (fold (dev_step (capture_body 3) capture_stop) demo_capture_events (mk_sound_thread ([], cap_start)))) = 1
   \<and> os_open (fold (dev_step (capture_body 3) capture_stop) (demo_capture_events @ [StopCall, OpenDone CannotOpen, Leave, CloseDone, StopReturn])
        (mk_sound_thread ([], cap_start))) = []"
proof -
  let ?st = "fold (dev_step (capture_body 3) capture_stop) demo_capture_events (mk_sound_thread ([], cap_start))"
  have ok: "list_all sound_event_ok demo_capture_events" by (simp add: demo_capture_events_def)
  have st: "\<not> dev_overlap ?st" "dev_call ?st = NoCall" "length (os_open ?st) = 1"
    by (simp_all add: demo_capture_events_def mk_sound_thread_def dev_start_def dev_started_def openDevice_def capture_body_def)
  from sound_thread_lifecycle [OF ok _ st(1), of CannotOpen]
  have "os_open (fold (dev_step (capture_body 3) capture_stop) [StopCall, OpenDone CannotOpen, Leave, CloseDone, StopReturn] ?st) = []"
    by (simp only: Let_def st(2) to_stop.simps append_Cons append_Nil sound_event_ok.simps)
  with st(3) show ?thesis by (simp only: fold_append comp_apply simp_thms)
qed

text \<open>
  A failed read ends the microphone for good: when \<open>read\<close> returns nothing or an error
  during a call, the thread ends while \<open>running_\<close> stays set. From then on no frame reaches
  the callback, \<open>isRunning\<close> still answers true and calling \<open>start\<close> again does nothing, until
  somebody calls \<open>stop\<close>.
\<close>

lemma failed_read_ends_capture:
  assumes "dev_pc st = Looping True" "dev_running st" "dev_call st = NoCall" "StopCall \<notin> set es"
  shows "let st' = fold (dev_step (capture_body n) capture_stop) (Iterate None # es) st
    in dev_running st' \<and> dev_data st' = dev_data st"
proof -
  let ?st = "dev_step (capture_body n) capture_stop (Iterate None) st"
  have "loop_left ?st" "dev_data ?st = dev_data st"
    using assms(1-3) by (auto simp: loop_left_def capture_body_def split: prod.splits)
  with loop_left_run [OF this(1) assms(4)] show ?thesis by (simp add: Let_def loop_left_def)
qed

end
