(* ===== verification/Backend_Threads.thy ===== *)
theory Backend_Threads
  imports Backend
begin

text \<open>
  The thread pool of \<open>backend/main.cpp\<close>. Completion handlers of different connections run at
  the same time; \<open>Backend\<close> runs each of them at once. Here a handler is taken apart where it
  releases a mutex: a message handler or the timer handler makes one call of the call
  manager under \<open>CallManager::mutex_\<close>, then hands its messages to \<open>WsServer::send\<close>, each under
  \<open>sessions_mutex_\<close>, and steps of other handlers come in between. A session reads its next
  message, and the timer is armed again, only after the handler has returned.
\<close>

section \<open>Handlers that run at the same time\<close>

datatype task = Reader session_id | Expiry

text \<open>The handlers that have made their call of the call manager, with the messages still to be sent.\<close>

record Pool =
  pool_backend :: Backend
  pool_tasks :: "(task, sends) umap"

datatype pool_event =
    Reads backend_env session_id string
  | Expires backend_env
  | SendNext task
  | Returns task
  | HttpRequest backend_env http_request
  | ReadFails session_id
  | WriteEnds session_id bool

text \<open>What is seen from outside: an answered request, or a call of \<open>WsServer::send\<close> with the session it found.\<close>

datatype pool_out = Reply backend_out | Attempt task string string "session_id option"

definition mk_pool :: "Backend \<Rightarrow> Pool" where
  "mk_pool be = \<lparr>pool_backend = be, pool_tasks = []\<rparr>"

abbreviation task_idle :: "task \<Rightarrow> Pool \<Rightarrow> bool" where
  "task_idle t p \<equiv> um_find (pool_tasks p) t = None"

text \<open>\<open>Router::handle\<close> up to the point where the call manager has answered.\<close>

definition pool_reads :: "backend_env \<Rightarrow> session_id \<Rightarrow> string \<Rightarrow> Pool \<Rightarrow> (pool_out list \<times> Pool) option" where
  "pool_reads e sid msg p =
     (let be = pool_backend p
      in case um_find (be_sessions be) sid of
           None \<Rightarrow> Some ([], p)
         | Some s \<Rightarrow>
             if \<not> wss_reading s then Some ([], p)
             else case handle (be_router_env e (be_turn be)) (wss_userId s) msg (be_calls be) of
               None \<Rightarrow> None
             | Some (outs, cm) \<Rightarrow>
                 Some ([], p\<lparr>pool_backend := be\<lparr>be_calls := cm\<rparr>, pool_tasks := um_set (Reader sid) outs (pool_tasks p)\<rparr>))"

definition pool_expires :: "backend_env \<Rightarrow> Pool \<Rightarrow> Pool" where
  "pool_expires e p =
     (let be = pool_backend p
      in case checkExpired (be_router_env e (be_turn be)) (be_calls be) of
           (outs, cm) \<Rightarrow> p\<lparr>pool_backend := be\<lparr>be_calls := cm\<rparr>, pool_tasks := um_set Expiry outs (pool_tasks p)\<rparr>)"

text \<open>One call of \<open>WsServer::send\<close> under \<open>sessions_mutex_\<close>.\<close>

definition send_one :: "task \<Rightarrow> string \<Rightarrow> string \<Rightarrow> Backend \<Rightarrow> pool_out \<times> Backend" where
  "send_one t user m be =
     (case ws_send user m (be_ws be) of
        None \<Rightarrow> (Attempt t user m None, be)
      | Some (sid, m) \<Rightarrow> (Attempt t user m (Some sid), be\<lparr>be_writing := be_writing be @ [sid]\<rparr>))"

definition pool_send :: "task \<Rightarrow> Pool \<Rightarrow> pool_out list \<times> Pool" where
  "pool_send t p =
     (case um_find (pool_tasks p) t of
        Some ((user, m) # outs) \<Rightarrow>
          (case send_one t user m (pool_backend p) of
             (out, be) \<Rightarrow> ([out], p\<lparr>pool_backend := be, pool_tasks := um_set t outs (pool_tasks p)\<rparr>))
      | _ \<Rightarrow> ([], p))"

definition pool_returns :: "task \<Rightarrow> Pool \<Rightarrow> Pool" where
  "pool_returns t p = (if um_find (pool_tasks p) t = Some [] then p\<lparr>pool_tasks := um_erase t (pool_tasks p)\<rparr> else p)"

definition pool_request :: "backend_env \<Rightarrow> http_request \<Rightarrow> Pool \<Rightarrow> pool_out list \<times> Pool" where
  "pool_request e req p =
     (case be_request e req (pool_backend p) of (outs, be) \<Rightarrow> (map Reply outs, p\<lparr>pool_backend := be\<rparr>))"

text \<open>An event that a handler under way rules out does nothing.\<close>

fun pool_step :: "pool_event \<Rightarrow> Pool \<Rightarrow> (pool_out list \<times> Pool) option" where
  "pool_step (Reads e sid msg) p = (if task_idle (Reader sid) p then pool_reads e sid msg p else Some ([], p))"
| "pool_step (Expires e) p = Some ([], if task_idle Expiry p then pool_expires e p else p)"
| "pool_step (SendNext t) p = Some (pool_send t p)"
| "pool_step (Returns t) p = Some ([], pool_returns t p)"
| "pool_step (HttpRequest e req) p = Some (pool_request e req p)"
| "pool_step (ReadFails sid) p =
     Some ([], if task_idle (Reader sid) p then p\<lparr>pool_backend := be_read_failed sid (pool_backend p)\<rparr> else p)"
| "pool_step (WriteEnds sid ec) p = Some ([], p\<lparr>pool_backend := be_write_done sid ec (pool_backend p)\<rparr>)"

fun pool_run :: "pool_event list \<Rightarrow> Pool \<Rightarrow> (pool_out list \<times> Pool) option" where
  "pool_run [] p = Some ([], p)"
| "pool_run (ev # evs) p =
     (case pool_step ev p of
        None \<Rightarrow> None
      | Some (outs, p1) \<Rightarrow>
          (case pool_run evs p1 of None \<Rightarrow> None | Some (outs1, p2) \<Rightarrow> Some (outs @ outs1, p2)))"

section \<open>The order of the calls\<close>

text \<open>
  The events of the backend that runs each handler at once, in the order in which the
  concurrent handlers made their call of the call manager.
\<close>

fun commit :: "pool_event \<Rightarrow> Pool \<Rightarrow> backend_event list" where
  "commit (Reads e sid msg) p = (if task_idle (Reader sid) p then [WsIn e sid msg] else [])"
| "commit (Expires e) p = (if task_idle Expiry p then [Timer e] else [])"
| "commit (SendNext t) p = []"
| "commit (Returns t) p = []"
| "commit (HttpRequest e req) p = [HttpIn e req]"
| "commit (ReadFails sid) p = (if task_idle (Reader sid) p then [ReadFailed sid] else [])"
| "commit (WriteEnds sid ec) p = [WriteDone sid ec]"

fun serial :: "pool_event list \<Rightarrow> Pool \<Rightarrow> backend_event list" where
  "serial [] p = []"
| "serial (ev # evs) p =
     commit ev p @ (case pool_step ev p of None \<Rightarrow> [] | Some (outs, p1) \<Rightarrow> serial evs p1)"

text \<open>The state apart from the registry and the writes under way, which the moment of a send decides.\<close>

definition core :: "Backend \<Rightarrow> Backend" where
  "core be = be\<lparr>be_ws := mk_ws_server, be_writing := []\<rparr>"

fun task_of :: "backend_event \<Rightarrow> task option" where
  "task_of (WsIn e sid msg) = Some (Reader sid)"
| "task_of (Timer e) = Some Expiry"
| "task_of _ = None"

text \<open>What the handlers of one task are to send, in a run that handles each event at once.\<close>

fun routed_by :: "task \<Rightarrow> backend_event list \<Rightarrow> Backend \<Rightarrow> sends" where
  "routed_by t [] be = []"
| "routed_by t (ev # evs) be = (if task_of ev = Some t then routed ev be else []) @ routed_by t evs (backend_next ev be)"

fun attempt_of :: "task \<Rightarrow> pool_out \<Rightarrow> sends" where
  "attempt_of t (Attempt t' user m found) = (if t' = t then [(user, m)] else [])"
| "attempt_of t (Reply out) = []"

definition attempts :: "task \<Rightarrow> pool_out list \<Rightarrow> sends" where
  "attempts t outs = concat (map (attempt_of t) outs)"

definition pending :: "task \<Rightarrow> Pool \<Rightarrow> sends" where
  "pending t p = (case um_find (pool_tasks p) t of None \<Rightarrow> [] | Some outs \<Rightarrow> outs)"

lemma attempts_simps [simp]:
  "attempts t [] = []" "attempts t (out # outs) = attempt_of t out @ attempts t outs"
  "attempts t (xs @ ys) = attempts t xs @ attempts t ys" "attempts t (map Reply rs) = []"
  by (simp_all add: attempts_def)

lemma pending_mk_pool [simp]: "pending t (mk_pool be) = []"
  by (simp add: pending_def mk_pool_def)

lemma routed_by_append [simp]:
  "routed_by t (xs @ ys) be = routed_by t xs be @ routed_by t ys (fold backend_next xs be)"
  by (induction xs arbitrary: be) auto

section \<open>Simulation\<close>

lemma core_fields:
  assumes "core be = core be'"
  shows "be_auth be = be_auth be'" "be_calls be = be_calls be'" "be_turn be = be_turn be'" "be_routes be = be_routes be'"
    "be_sessions be = be_sessions be'" "be_next be = be_next be'"
  using assms by (cases be; cases be'; simp add: core_def)+

lemma core_eqI:
  assumes "be_auth be = be_auth be'" "be_calls be = be_calls be'" "be_turn be = be_turn be'" "be_routes be = be_routes be'"
    "be_sessions be = be_sessions be'" "be_next be = be_next be'"
  shows "core be = core be'"
  using assms by (simp add: core_def)

lemma core_upd [simp]: "core (be\<lparr>be_writing := w\<rparr>) = core be" "core (be\<lparr>be_ws := ws\<rparr>) = core be"
  by (simp_all add: core_def)

lemma core_request:
  assumes "core be = core be'"
  shows "core (snd (be_request e req be)) = core (snd (be_request e req be'))"
proof -
  note same = core_fields [OF assms]
  obtain act svc where h: "handle_request (be_routes be) (api_env.truncate e) req (be_auth be) = (act, svc)" by fastforce
  show ?thesis
  proof (cases act)
    case (Upgrade req')
    let ?acc = "\<lambda>ws. ws_accept (auth_env.truncate e) (be_next be) (hr_target req') svc ws"
    have "fst (?acc (be_ws be)) = fst (?acc (be_ws be'))"
      by (auto simp: ws_accept_def Let_def split: sum.splits)
    then obtain u ws ws' where "?acc (be_ws be) = (u, ws)" "?acc (be_ws be') = (u, ws')" by (metis prod.collapse)
    then show ?thesis using h same Upgrade by (cases u) (auto simp: be_request_def intro!: core_eqI)
  qed (use h same in \<open>auto simp: be_request_def intro!: core_eqI\<close>)
qed

text \<open>Neither the calls nor the sessions depend on the registry or on the writes.\<close>

lemma core_message:
  assumes "core be = core be'"
  shows "rel_option (\<lambda>r r'. core (snd r) = core (snd r')) (be_message e sid msg be) (be_message e sid msg be')"
  using core_fields [OF assms] assms
  by (auto simp: be_message_def intro!: core_eqI split: option.splits)

lemma core_next:
  assumes "core be = core be'"
  shows "core (backend_next ev be) = core (backend_next ev be')"
proof (cases ev)
  case (HttpIn e req)
  then have "backend_next ev b = snd (be_request e req b)" for b by (simp add: backend_next_def split: prod.split)
  with core_request [OF assms] show ?thesis by simp
next
  case (WsIn e sid msg)
  with core_message [OF assms, of e sid msg] assms show ?thesis
    by (auto simp: backend_next_def split: option.splits)
next
  case (ReadFailed sid)
  with core_fields [OF assms] assms show ?thesis
    by (auto simp: backend_next_def be_read_failed_def intro!: core_eqI split: option.splits)
next
  case (WriteDone sid ec)
  with core_fields [OF assms] assms show ?thesis
    by (auto simp: backend_next_def be_write_done_def Let_def split: option.splits)
next
  case (Timer e)
  with core_fields [OF assms] show ?thesis
    by (auto simp: backend_next_def be_timer_def do_sends_def Let_def intro!: core_eqI split: prod.splits)
qed

lemma core_fold: "core be = core be' \<Longrightarrow> core (fold backend_next evs be) = core (fold backend_next evs be')"
proof (induction evs arbitrary: be be')
  case (Cons ev evs)
  show ?case using Cons.IH [OF core_next [OF Cons.prems], of ev] by simp
qed simp

lemma core_routed:
  assumes "core be = core be'"
  shows "routed ev be = routed ev be'"
  using core_fields [OF assms] by (cases ev) (simp_all split: option.split)

lemma core_routed_by: "core be = core be' \<Longrightarrow> routed_by t evs be = routed_by t evs be'"
proof (induction evs arbitrary: be be')
  case (Cons ev evs)
  show ?case using Cons.IH [OF core_next [OF Cons.prems], of ev] core_routed [OF Cons.prems, of ev] by simp
qed simp

text \<open>One step: the state moves as the serial events move it, and what is routed is queued or attempted.\<close>

lemma pool_step_sim:
  assumes "pool_step ev p = Some (outs, p')"
  shows "core (pool_backend p') = core (fold backend_next (commit ev p) (pool_backend p))
     \<and> attempts t outs @ pending t p' = pending t p @ routed_by t (commit ev p) (pool_backend p)"
proof (cases ev)
  case (Reads e sid msg)
  with assms show ?thesis
    by (auto simp: pool_reads_def backend_next_def be_message_def do_sends_def pending_def core_def Let_def split: if_splits option.splits)
next
  case (Expires e)
  with assms show ?thesis
    by (auto simp: pool_expires_def backend_next_def be_timer_def do_sends_def pending_def core_def Let_def split: if_splits prod.splits)
next
  case (SendNext t')
  with assms show ?thesis
    by (auto simp: pool_send_def send_one_def ws_send_def pending_def split: option.splits list.splits prod.splits if_splits)
next
  case (Returns t')
  with assms show ?thesis by (auto simp: pool_returns_def pending_def split: if_splits)
next
  case (HttpRequest e req)
  with assms show ?thesis by (auto simp: pool_request_def backend_next_def pending_def split: prod.splits)
next
  case (ReadFails sid)
  with assms show ?thesis by (auto simp: backend_next_def pending_def split: if_splits)
next
  case (WriteEnds sid ec)
  with assms show ?thesis by (auto simp: backend_next_def pending_def)
qed

lemma pool_run_sim:
  assumes "pool_run evs p = Some (outs, p')" "core (pool_backend p) = core be"
  shows "core (pool_backend p') = core (fold backend_next (serial evs p) be)
     \<and> attempts t outs @ pending t p' = pending t p @ routed_by t (serial evs p) be"
  using assms
proof (induction evs arbitrary: p be outs)
  case (Cons ev evs)
  obtain o1 p1 o2 where s: "pool_step ev p = Some (o1, p1)" "pool_run evs p1 = Some (o2, p')" "outs = o1 @ o2"
    using Cons.prems(1) by (auto split: option.splits)
  let ?be = "fold backend_next (commit ev p) be"
  have "core (fold backend_next (commit ev p) (pool_backend p)) = core ?be" using Cons.prems(2) by (rule core_fold)
  with pool_step_sim [OF s(1), of t] core_routed_by [OF Cons.prems(2), of t "commit ev p"]
  have 1: "core (pool_backend p1) = core ?be" "attempts t o1 @ pending t p1 = pending t p @ routed_by t (commit ev p) be"
    by simp_all
  from Cons.IH [OF s(2) 1(1)] 1(2) s show ?case by simp
qed simp

section \<open>Invariant\<close>

text \<open>The RTC configurations the backend generates are JSON objects.\<close>

fun pool_event_ok :: "TurnConfig \<Rightarrow> pool_event \<Rightarrow> bool" where
  "pool_event_ok cfg (Reads e sid msg) = gen_ok (be_router_env e cfg)"
| "pool_event_ok cfg _ = True"

abbreviation pool_inv :: "string \<Rightarrow> TurnConfig \<Rightarrow> Pool \<Rightarrow> bool" where
  "pool_inv secret cfg p \<equiv> be_inv secret cfg (\<lambda>_. True) (pool_backend p)"

definition session_user :: "Pool \<Rightarrow> session_id \<Rightarrow> string option" where
  "session_user p sid = map_option wss_userId (um_find (be_sessions (pool_backend p)) sid)"

lemma pool_expires_inv:
  assumes "pool_inv secret cfg p"
  shows "pool_inv secret cfg (pool_expires e p)"
proof -
  obtain outs cm where c: "checkExpired (be_router_env e (be_turn (pool_backend p))) (be_calls (pool_backend p)) = (outs, cm)" by force
  with be_timer_inv [OF assms, of e] show ?thesis by (simp add: pool_expires_def be_timer_def)
qed

lemma pool_send_inv:
  assumes "pool_inv secret cfg p" "pool_send t p = (outs, p')"
  shows "pool_inv secret cfg p' \<and> session_user p' = session_user p
    \<and> (Attempt t' user m (Some sid) \<in> set outs \<longrightarrow> session_user p sid = Some user)"
  using assms
  by (auto simp: pool_send_def send_one_def ws_send_def session_user_def be_inv_def fun_eq_iff
      split: option.splits list.splits prod.splits)

lemma request_sessions:
  assumes "be_inv secret cfg V be" "um_find (be_sessions be) sid = Some s"
  shows "um_find (be_sessions (snd (be_request e req be))) sid = Some s"
proof -
  have "sid \<noteq> be_next be" using assms by (auto simp: be_inv_def)
  with assms(2) show ?thesis by (auto simp: be_request_def split: prod.splits http_action.splits option.splits)
qed

text \<open>Every step returns, keeps the invariant and the owners of the sessions, and writes to a session of the addressed user.\<close>

lemma pool_step_inv:
  assumes inv: "pool_inv secret cfg p" and ok: "pool_event_ok cfg ev"
  obtains outs p' where "pool_step ev p = Some (outs, p')" "pool_inv secret cfg p'"
    "\<And>sid user. session_user p sid = Some user \<Longrightarrow> session_user p' sid = Some user"
    "\<And>t user m sid. Attempt t user m (Some sid) \<in> set outs \<Longrightarrow> session_user p' sid = Some user"
proof (cases ev)
  case (Reads e sid msg)
  show ?thesis
  proof (cases "task_idle (Reader sid) p \<and> (\<exists>s. um_find (be_sessions (pool_backend p)) sid = Some s \<and> wss_reading s)")
    case True
    then obtain s where s: "task_idle (Reader sid) p" "um_find (be_sessions (pool_backend p)) sid = Some s" "wss_reading s" by blast
    have "cm_inv (be_calls (pool_backend p))" "gen_ok (be_router_env e cfg)" using inv ok Reads by (simp_all add: be_inv_def)
    from handle_inv [OF this, of "wss_userId s" msg]
    obtain outs cm where "handle (be_router_env e cfg) (wss_userId s) msg (be_calls (pool_backend p)) = Some (outs, cm)" "cm_inv cm"
      by blast
    moreover have "be_turn (pool_backend p) = cfg" using inv by (simp add: be_inv_def)
    ultimately show ?thesis
      using inv Reads s
      by (intro that [of "[]" "p\<lparr>pool_backend := (pool_backend p)\<lparr>be_calls := cm\<rparr>, pool_tasks := um_set (Reader sid) outs (pool_tasks p)\<rparr>"])
        (simp_all add: pool_reads_def session_user_def be_inv_calls)
  next
    case False
    then have "pool_step ev p = Some ([], p)" using Reads by (auto simp: pool_reads_def Let_def split: option.split)
    with inv show ?thesis by (intro that [of "[]" p]) simp_all
  qed
next
  case (Expires e)
  have "be_sessions (pool_backend (pool_expires e p)) = be_sessions (pool_backend p)"
    by (simp add: pool_expires_def Let_def split: prod.split)
  with that Expires inv pool_expires_inv [OF inv, of e] show ?thesis by (auto simp: session_user_def)
next
  case (SendNext t)
  obtain outs p' where s: "pool_send t p = (outs, p')" by force
  with that SendNext pool_send_inv [OF inv s] show ?thesis by auto
next
  case (Returns t)
  with that inv show ?thesis by (auto simp: pool_returns_def session_user_def)
next
  case (HttpRequest e req)
  obtain outs be where r: "be_request e req (pool_backend p) = (outs, be)" by force
  have "be_inv secret cfg (\<lambda>_. True) be" using be_request_inv [OF inv, of e req] r by simp
  with that HttpRequest inv r request_sessions [OF inv, of _ _ e req] show ?thesis
    by (auto simp: pool_request_def session_user_def)
next
  case (ReadFails sid)
  have "session_user (p\<lparr>pool_backend := be_read_failed sid (pool_backend p)\<rparr>) = session_user p"
    by (auto simp: session_user_def be_read_failed_def fun_eq_iff split: option.split)
  with ReadFails inv be_read_failed_inv [OF inv, of sid] show ?thesis
    by (intro that [of "[]" "if task_idle (Reader sid) p then p\<lparr>pool_backend := be_read_failed sid (pool_backend p)\<rparr> else p"]) simp_all
next
  case (WriteEnds sid ec)
  with that inv be_write_done_inv [OF inv, of sid ec] show ?thesis
    by (auto simp: session_user_def be_write_done_def Let_def split: option.splits if_splits)
qed

lemma pool_run_inv:
  assumes "pool_inv secret cfg p" "list_all (pool_event_ok cfg) evs"
  obtains outs p' where "pool_run evs p = Some (outs, p')" "pool_inv secret cfg p'"
    "\<And>sid user. session_user p sid = Some user \<Longrightarrow> session_user p' sid = Some user"
    "\<And>t user m sid. Attempt t user m (Some sid) \<in> set outs \<Longrightarrow> session_user p' sid = Some user"
  using assms
proof (induction evs arbitrary: p thesis)
  case (Cons ev evs)
  have ok: "pool_event_ok cfg ev" "list_all (pool_event_ok cfg) evs" using Cons.prems(3) by simp_all
  obtain o1 p1 where s: "pool_step ev p = Some (o1, p1)" "pool_inv secret cfg p1"
    "\<And>sid user. session_user p sid = Some user \<Longrightarrow> session_user p1 sid = Some user"
    "\<And>t user m sid. Attempt t user m (Some sid) \<in> set o1 \<Longrightarrow> session_user p1 sid = Some user"
    using pool_step_inv [OF Cons.prems(2) ok(1)] by blast
  obtain o2 p2 where r: "pool_run evs p1 = Some (o2, p2)" "pool_inv secret cfg p2"
    "\<And>sid user. session_user p1 sid = Some user \<Longrightarrow> session_user p2 sid = Some user"
    "\<And>t user m sid. Attempt t user m (Some sid) \<in> set o2 \<Longrightarrow> session_user p2 sid = Some user"
    using Cons.IH [OF _ s(2) ok(2)] by blast
  show ?case using s(1,3,4) r by (intro Cons.prems(1) [of "o1 @ o2" p2]) auto
qed simp

section \<open>Properties\<close>

text \<open>
  C15. Handlers that run at the same time behave as if they ran one after the other: for
  every interleaving of the steps of any number of handlers, no exception escapes, and the
  accounts, the calls and the sessions are those of the backend that runs each handler at
  once, in the order of their calls of the call manager; each session's handlers and the
  timer's pass exactly the messages to \<open>WsServer::send\<close> that they pass there, in that
  order, some of them not yet; and a message goes to a socket of the user it is addressed to.
\<close>

theorem handlers_linearizable:
  fixes cfg db evs defines "p0 \<equiv> mk_pool (mk_backend cfg db)"
  assumes "list_all (pool_event_ok (turn_config cfg)) evs"
  shows "\<exists>outs p. pool_run evs p0 = Some (outs, p)
     \<and> core (pool_backend p) = core (fold backend_next (serial evs p0) (mk_backend cfg db))
     \<and> (\<forall>t. attempts t outs @ pending t p = routed_by t (serial evs p0) (mk_backend cfg db))
     \<and> (\<forall>t user m sid. Attempt t user m (Some sid) \<in> set outs \<longrightarrow> session_user p sid = Some user)"
proof -
  have inv: "pool_inv (cfg_get ''JWT_SECRET'' ''change_me_in_production'' cfg) (turn_config cfg) p0"
    using mk_backend_inv by (simp add: p0_def mk_pool_def)
  obtain outs p where r: "pool_run evs p0 = Some (outs, p)"
    "\<And>t user m sid. Attempt t user m (Some sid) \<in> set outs \<Longrightarrow> session_user p sid = Some user"
    by (rule pool_run_inv [OF inv assms(2)]) simp_all
  have "core (pool_backend p0) = core (mk_backend cfg db)" by (simp add: p0_def mk_pool_def)
  from pool_run_sim [OF r(1) this] have "core (pool_backend p) = core (fold backend_next (serial evs p0) (mk_backend cfg db))"
    "\<And>t. attempts t outs @ pending t p = routed_by t (serial evs p0) (mk_backend cfg db)"
    by (simp_all add: p0_def)
  with r show ?thesis by blast
qed

text \<open>A message and the timer, handled at the same time.\<close>

theorem handlers_linearizable_witness:
  "\<exists>outs p. pool_run [HttpRequest demo_backend_env demo_upgrade, Reads demo_backend_env 0 ''x'', Expires demo_backend_env,
       SendNext (Reader 0), Returns Expiry] (mk_pool (mk_backend (\<lambda>_. None) [])) = Some (outs, p)
     \<and> core (pool_backend p) = core (fold backend_next
         (serial [HttpRequest demo_backend_env demo_upgrade, Reads demo_backend_env 0 ''x'', Expires demo_backend_env,
            SendNext (Reader 0), Returns Expiry] (mk_pool (mk_backend (\<lambda>_. None) []))) (mk_backend (\<lambda>_. None) []))"
  using handlers_linearizable [of "\<lambda>_. None" "[HttpRequest demo_backend_env demo_upgrade, Reads demo_backend_env 0 ''x'',
      Expires demo_backend_env, SendNext (Reader 0), Returns Expiry]" "[]"] demo_backend_gen_ok
  by auto

end
