(* ===== verification/Crossed_Calls.thy ===== *)
theory Crossed_Calls
  imports Voice_Call Backend_Threads
begin

text \<open>
  The concurrent handlers of \<open>Backend_Threads\<close> together with the clients of \<open>Client_App\<close>: what
  happens when the acceptance of a call and the hang-up of the caller cross.
\<close>

section \<open>Messages of a concurrent run\<close>

text \<open>The messages written to a web socket, in order.\<close>

fun written_to :: "session_id \<Rightarrow> pool_out \<Rightarrow> string list" where
  "written_to sid (Attempt t user m (Some sid')) = (if sid' = sid then [m] else [])"
| "written_to sid _ = []"

definition delivered :: "session_id \<Rightarrow> pool_out list \<Rightarrow> string list" where
  "delivered sid outs = concat (map (written_to sid) outs)"

text \<open>
  Two handlers at the same time: the first one to call the call manager has two messages to
  send, but the message of the second one goes out before them.
\<close>

lemma overtaken:
  assumes "um_find (be_sessions be) B = Some \<lparr>wss_userId = b, wss_reading = True\<rparr>"
    "um_find (be_sessions be) A = Some \<lparr>wss_userId = a, wss_reading = True\<rparr>" "A \<noteq> B"
    and "handle (be_router_env e (be_turn be)) b m (be_calls be) = Some ([(a, x), (b, y)], cm)"
    and "handle (be_router_env e (be_turn be)) a m' cm = Some ([(b, z)], cm')"
    and "um_find (ws_sessions (be_ws be)) a = Some A" "um_find (ws_sessions (be_ws be)) b = Some B"
  shows "\<exists>p. pool_run [Reads e B m, Reads e A m', SendNext (Reader A), SendNext (Reader B), SendNext (Reader B),
       Returns (Reader A), Returns (Reader B)] (mk_pool be) =
     Some ([Attempt (Reader A) b z (Some B), Attempt (Reader B) a x (Some A), Attempt (Reader B) b y (Some B)], p)
     \<and> be_calls (pool_backend p) = cm' \<and> pool_tasks p = []"
  using assms by (simp add: mk_pool_def pool_reads_def pool_send_def send_one_def ws_send_def pool_returns_def)

section \<open>A client that gets a configuration for a call it has left\<close>

definition microphone_on :: "App \<Rightarrow> bool" where
  "microphone_on app \<longleftrightarrow> map_option cap_running (app_capture app) = Some True"

lemma config_without_call:
  assumes "json_ok (ce_json e) (config_msg k cfg user password)" "urls_ok e cfg" "client_call app = no_call"
  shows "\<exists>outs app'. app_message e (json_dump (ce_json e) (config_msg k cfg user password)) app = Some (outs, app')
     \<and> microphone_on app' \<and> client_call app' = no_call"
proof -
  obtain outs tc track where
    "app_message e (json_dump (ce_json e) (config_msg k cfg user password)) app = Some (outs, set_up_call tc track app)"
    by (rule read_config [OF assms(1,2)]) blast
  with assms(3) show ?thesis by (auto simp: microphone_on_def set_up_call_def cap_start_def)
qed

lemma ended_leaves_call:
  assumes "json_ok (ce_json e) (call_ended k why)"
  shows "\<exists>outs app'. app_message e (json_dump (ce_json e) (call_ended k why)) app = Some (outs, app') \<and> client_call app' = no_call"
proof -
  let ?app = "set_client_call no_call app"
  obtain o1 app' where c: "cleanupCall ?app = (o1, app')" by force
  have "app_message e (json_dump (ce_json e) (call_ended k why)) app = Some (Shown (''[call] ended, reason: '' @ why) # o1, app')"
    using assms(1) c by (simp add: reading_defs call_ended_def handleCallEnded_def after_call_end_def)
  moreover have "client_call app' = no_call" using cleanupCall_fields [OF c] by auto
  ultimately show ?thesis by blast
qed

section \<open>Properties\<close>

text \<open>
  C35. A hang-up that crosses the acceptance leaves both microphones on: the call of \<open>a\<close> to
  \<open>b\<close> rings, \<open>b\<close> accepts and \<open>a\<close> hangs up, and the two handlers run at the same time. The call is
  gone from the server, but the end of the call can reach \<open>b\<close> before the configuration for
  it; the caller, who is in no call any more, gets a configuration too. Neither client
  compares it with a call: both set up a connection and start to record, in no call.
\<close>

theorem crossing_hangup_opens_microphones:
  assumes inv: "be_inv secret cfg V be" and ab: "a \<noteq> b"
    and reg: "um_find (ws_sessions (be_ws be)) a = Some A" "um_find (ws_sessions (be_ws be)) b = Some B"
    and call: "find_call k (be_calls be) = Some s" "callerId s = a" "calleeId s = b" "call_state s = CallState.Ringing"
    and uab: "ua = turn_username (ae_wall eb) a cfg" "ub = turn_username (ae_wall eb) b cfg"
    and pw: "turn_password (ae_ssl eb) ua cfg = Inr pa" "turn_password (ae_ssl eb) ub cfg = Inr pb"
    and js: "ae_json eb = ce_json ec" "list_all (json_ok (ce_json ec)) (call_messages k a b cfg ua pa ub pb offer answer)"
    and urls: "urls_ok ec cfg" and left: "client_call appA = no_call"
  shows "\<exists>outs p. pool_run [Reads eb B (json_dump (ae_json eb) (accept_msg k)), Reads eb A (json_dump (ae_json eb) (hangup_msg k)),
         SendNext (Reader A), SendNext (Reader B), SendNext (Reader B), Returns (Reader A), Returns (Reader B)] (mk_pool be) = Some (outs, p)
     \<and> find_call k (be_calls (pool_backend p)) = None \<and> pool_tasks p = []
     \<and> (\<exists>oA appA'. app_run ec (map app_event.Message (delivered A outs)) appA = Some (oA, appA')
          \<and> microphone_on appA' \<and> client_call appA' = no_call)
     \<and> (\<exists>oB appB'. app_run ec (map app_event.Message (delivered B outs)) appB = Some (oB, appB')
          \<and> microphone_on appB' \<and> client_call appB' = no_call)"
proof -
  let ?js = "ae_json eb" and ?cm = "be_calls be"
  let ?s1 = "s\<lparr>call_state := Active\<rparr>"
  let ?cm1 = "?cm\<lparr>calls := um_set k ?s1 (calls ?cm)\<rparr>"
  let ?ca = "json_dump ?js (config_msg k cfg ua pa)" and ?cb = "json_dump ?js (config_msg k cfg ub pb)"
    and ?ended = "json_dump ?js (call_ended k ''hangup'')"
  have ok: "json_ok ?js (accept_msg k)" "json_ok ?js (obj (ice_config cfg ua pa))" "json_ok ?js (obj (ice_config cfg ub pb))"
    "json_ok ?js (config_msg k cfg ua pa)" "json_ok ?js (config_msg k cfg ub pb)"
    "json_ok ?js (hangup_msg k)" "json_ok ?js (call_ended k ''hangup'')"
    using js by (simp_all add: call_messages_def)
  have ses: "um_find (be_sessions be) B = Some \<lparr>wss_userId = b, wss_reading = True\<rparr>"
    "um_find (be_sessions be) A = Some \<lparr>wss_userId = a, wss_reading = True\<rparr>" and t: "be_turn be = cfg"
    using inv reg by (simp_all add: be_inv_def)
  then have AB: "A \<noteq> B" using ab by auto
  have h1: "handle (be_router_env eb (be_turn be)) b (json_dump ?js (accept_msg k)) ?cm = Some ([(a, ?ca), (b, ?cb)], ?cm1)"
    using handle_accept [OF call ok(1) uab pw ok(2,3)] t by simp
  have "find_call k ?cm1 = Some ?s1" "callerId ?s1 = a" "calleeId ?s1 = b" using call by (simp_all add: find_call_def)
  from handle_hangup [OF this ok(6), of cfg] t
  have h2: "handle (be_router_env eb (be_turn be)) a (json_dump ?js (hangup_msg k)) ?cm1 = Some ([(b, ?ended)], ?cm1\<lparr>calls := um_erase k (calls ?cm1)\<rparr>)"
    by simp
  let ?outs = "[Attempt (Reader A) b ?ended (Some B), Attempt (Reader B) a ?ca (Some A), Attempt (Reader B) b ?cb (Some B)]"
  have d: "delivered A ?outs = [?ca]" "delivered B ?outs = [?ended, ?cb]" using AB by (simp_all add: delivered_def)
  have "\<exists>oA appA'. app_run ec (map app_event.Message (delivered A ?outs)) appA = Some (oA, appA') \<and> microphone_on appA' \<and> client_call appA' = no_call"
    unfolding d using config_without_call [OF ok(4) [unfolded js(1)] urls left] by (auto simp: js(1))
  moreover have "\<exists>oB appB'. app_run ec (map app_event.Message (delivered B ?outs)) appB = Some (oB, appB') \<and> microphone_on appB' \<and> client_call appB' = no_call"
  proof -
    obtain o1 app1 where e: "app_message ec ?ended appB = Some (o1, app1)" "client_call app1 = no_call"
      using ended_leaves_call [OF ok(7) [unfolded js(1)], of appB] by (auto simp: js(1))
    with config_without_call [OF ok(5) [unfolded js(1)] urls e(2)] show ?thesis unfolding d by (auto simp: js(1))
  qed
  moreover have "find_call k (?cm1\<lparr>calls := um_erase k (calls ?cm1)\<rparr>) = None" by (simp add: find_call_def)
  ultimately show ?thesis using overtaken [OF ses AB h1 h2 reg] by fastforce
qed

definition ringing_backend :: Backend where
  "ringing_backend = demo_backend\<lparr>be_calls := (mk_call_manager 30)\<lparr>calls := [(generateUuid 1 2,
     \<lparr>callId = generateUuid 1 2, callerId = ''ann'', calleeId = ''bob'', call_state = CallState.Ringing, createdAt = 0\<rparr>)]\<rparr>\<rparr>"

lemma ringing_backend_inv: "be_inv ''change_me_in_production'' demo_turn (\<lambda>_. True) ringing_backend"
proof -
  have "\<exists>cm. create 1 2 0 ''ann'' ''bob'' (mk_call_manager 30) = (Inr (generateUuid 1 2), cm) \<and> be_calls ringing_backend = cm"
    by (simp add: create_def isBusy_def mk_call_manager_def ringing_backend_def Let_def)
  then have "cm_inv (be_calls ringing_backend)"
    using create_inv [OF mk_call_manager_inv, of 1 2 0 "''ann''" "''bob''"] by (metis snd_conv)
  with be_inv_calls [OF demo_backend_inv] show ?thesis by (simp add: ringing_backend_def)
qed

theorem crossing_hangup_opens_microphones_witness:
  "\<exists>outs p. pool_run [Reads demo_call_env 1 (json_dump (ae_json demo_call_env) (accept_msg (generateUuid 1 2))),
         Reads demo_call_env 0 (json_dump (ae_json demo_call_env) (hangup_msg (generateUuid 1 2))),
         SendNext (Reader 0), SendNext (Reader 1), SendNext (Reader 1), Returns (Reader 0), Returns (Reader 1)] (mk_pool ringing_backend) = Some (outs, p)
     \<and> (\<exists>o1 app1. app_run demo_client_env (map app_event.Message (delivered 1 outs)) (demo_client_of ''bob'') = Some (o1, app1)
          \<and> microphone_on app1 \<and> client_call app1 = no_call)"
proof -
  have env: "ae_wall demo_call_env = 100" "ae_ssl demo_call_env = demo_openssl"
    "ae_json demo_call_env = ce_json demo_client_env" "ce_json demo_client_env = list_json demo_messages"
    by (simp_all add: demo_call_env_def demo_client_env_def demo_backend_env_def demo_api_env_def demo_auth_env_def api_env.defs auth_env.defs)
  have msgs: "list_all (json_ok (ce_json demo_client_env)) demo_messages"
    using list_json_ok [of _ demo_messages] by (simp add: env list_all_iff)
  have reg: "um_find (ws_sessions (be_ws ringing_backend)) ''ann'' = Some 0" "um_find (ws_sessions (be_ws ringing_backend)) ''bob'' = Some 1"
    by (simp_all add: ringing_backend_def demo_backend_def mk_backend_def)
  have call: "find_call (generateUuid 1 2) (be_calls ringing_backend) =
      Some \<lparr>callId = generateUuid 1 2, callerId = ''ann'', calleeId = ''bob'', call_state = CallState.Ringing, createdAt = 0\<rparr>"
    by (simp add: ringing_backend_def find_call_def)
  note pw = demo_password_eq [folded env(1,2)]
  have left: "client_call (demo_client_of ''ann'') = no_call" by (simp add: demo_client_of_def mk_session_state_def)
  have msgs': "list_all (json_ok (ce_json demo_client_env)) (call_messages (generateUuid 1 2) ''ann'' ''bob'' demo_turn
      (turn_username (ae_wall demo_call_env) ''ann'' demo_turn) (demo_password ''ann'')
      (turn_username (ae_wall demo_call_env) ''bob'' demo_turn) (demo_password ''bob'') ''o'' ''a'')"
    using msgs unfolding demo_messages_def env(1) .
  have "''ann'' \<noteq> ''bob''" by simp
  from crossing_hangup_opens_microphones [OF ringing_backend_inv this reg call _ _ _ refl refl pw pw env(3) msgs' demo_urls_ok left,
      of "demo_client_of ''bob''", simplified CallSession.simps, OF refl refl refl]
  show ?thesis by blast
qed

end
