(* ===== verification/Client_Main.thy ===== *)
theory Client_Main
  imports Client_App
begin

text \<open>
  \<open>Repl::run\<close> of \<open>client_cli/src/cli/repl.cpp\<close>: the thread that reads the terminal, with the point
  at which it is. The other threads of the client run their handlers in between. \<open>main\<close>
  returns when this loop has ended.
\<close>

section \<open>The loop\<close>

datatype stdin_pc = AtHead | InGetline | LoopEnded

record Console =
  con_app :: App
  con_pc :: stdin_pc

definition mk_console :: Console where
  "mk_console = \<lparr>con_app = mk_app, con_pc = AtHead\<rparr>"

definition prompt :: "Session \<Rightarrow> string" where
  "prompt s = (if isLoggedIn s then ''['' @ ses_userId s @ ''] > '' else ''> '')"

text \<open>\<open>processLine\<close> for the line that \<open>getline\<close> has returned, with everything the command causes.\<close>

definition typed_line :: "app_env \<Rightarrow> string \<Rightarrow> App \<Rightarrow> app_result" where
  "typed_line e line app =
     (case processLine (client_env.truncate e) line (app_repl app) (app_session app) of
        (effs, r, s) \<Rightarrow> run_effects e effs (app\<lparr>app_repl := r, app_session := s\<rparr>))"

text \<open>
  Events: the thread comes to the head of the loop, a line is typed, the terminal is closed,
  or another thread runs a handler.
\<close>

datatype console_event = LoopHead | Typed string | EndOfInput | Elsewhere app_event

datatype console_out = Prompted string | Does app_out

fun not_a_line :: "app_event \<Rightarrow> bool" where
  "not_a_line (Line l) = False"
| "not_a_line _ = True"

fun console_step :: "app_env \<Rightarrow> console_event \<Rightarrow> Console \<Rightarrow> (console_out list \<times> Console) option" where
  "console_step e LoopHead con =
     (if con_pc con \<noteq> AtHead then Some ([], con)
      else if repl_quit (app_repl (con_app con)) then Some ([], con\<lparr>con_pc := LoopEnded\<rparr>)
      else Some ([Prompted (prompt (app_session (con_app con)))], con\<lparr>con_pc := InGetline\<rparr>))"
| "console_step e (Typed line) con =
     (if con_pc con \<noteq> InGetline then Some ([], con)
      else case typed_line e line (con_app con) of
        None \<Rightarrow> None
      | Some (outs, app) \<Rightarrow> Some (map Does outs, con\<lparr>con_app := app, con_pc := AtHead\<rparr>))"
| "console_step e EndOfInput con = Some ([], if con_pc con = InGetline then con\<lparr>con_pc := LoopEnded\<rparr> else con)"
| "console_step e (Elsewhere ev) con =
     (if \<not> not_a_line ev then Some ([], con)
      else case app_step e ev (con_app con) of
        None \<Rightarrow> None
      | Some (outs, app) \<Rightarrow> Some (map Does outs, con\<lparr>con_app := app\<rparr>))"

fun console_run :: "app_env \<Rightarrow> console_event list \<Rightarrow> Console \<Rightarrow> (console_out list \<times> Console) option" where
  "console_run e [] con = Some ([], con)"
| "console_run e (ev # evs) con =
     (case console_step e ev con of
        None \<Rightarrow> None
      | Some (outs, con1) \<Rightarrow>
          (case console_run e evs con1 of None \<Rightarrow> None | Some (outs1, con2) \<Rightarrow> Some (outs @ outs1, con2)))"

section \<open>Typed commands\<close>

lemma typed_line_app_line: "\<not> repl_quit (app_repl app) \<Longrightarrow> typed_line e line app = app_line e line app"
  by (simp add: typed_line_def app_line_def)

text \<open>The events of a user who types lines while the loop waits for each.\<close>

fun typing :: "string list \<Rightarrow> console_event list" where
  "typing [] = []"
| "typing (l # ls) = LoopHead # Typed l # typing ls"

definition does :: "console_out list \<Rightarrow> app_out list" where
  "does outs = concat (map (\<lambda>out. case out of Does d \<Rightarrow> [d] | Prompted p \<Rightarrow> []) outs)"

lemma does_simps [simp]: "does (xs @ ys) = does xs @ does ys" "does (map Does ds) = ds" "does (Prompted p # outs) = does outs" "does [] = []"
  by (simp_all add: does_def comp_def)

text \<open>
  Without signals the loop is the sequence of the lines: as many prompts as lines up to the
  command that quits, and what the lines do; what is typed afterwards has no effect.
\<close>

lemma typed_lines:
  assumes "con_pc con = AtHead \<or> con_pc con = LoopEnded \<and> repl_quit (app_repl (con_app con))"
  shows "map_option (\<lambda>(outs, con'). (does outs, con_app con')) (console_run e (typing ls) con) = app_run e (map Line ls) (con_app con)"
  using assms
proof (induction ls arbitrary: con)
  case (Cons l ls)
  show ?case
  proof (cases "repl_quit (app_repl (con_app con))")
    case True
    have "console_run e (LoopHead # Typed l # typing ls) con = console_run e (typing ls) (con\<lparr>con_pc := LoopEnded\<rparr>)"
    proof (cases "con_pc con")
      case LoopEnded
      then have same: "con\<lparr>con_pc := LoopEnded\<rparr> = con" by simp
      show ?thesis unfolding same using LoopEnded by (simp split: option.split)
    qed (use Cons.prems True in \<open>simp_all split: option.split\<close>)
    moreover have "app_line e l (con_app con) = Some ([], con_app con)" using True by (simp add: app_line_def)
    ultimately show ?thesis using Cons.IH [of "con\<lparr>con_pc := LoopEnded\<rparr>"] True
      by (cases "app_run e (map Line ls) (con_app con)") auto
  next
    case False
    then have pc: "con_pc con = AtHead" using Cons.prems by simp
    show ?thesis
    proof (cases "app_line e l (con_app con)")
      case None
      then show ?thesis using False pc by (simp add: typed_line_app_line)
    next
      case (Some r)
      obtain outs app where r: "r = (outs, app)" by force
      let ?con = "con\<lparr>con_app := app, con_pc := AtHead\<rparr>"
      from Cons.IH [of ?con] have ih:
        "map_option (\<lambda>(outs, con'). (does outs, con_app con')) (console_run e (typing ls) ?con) = app_run e (map Line ls) app" by simp
      show ?thesis
        using False pc Some r ih [symmetric]
        by (cases "console_run e (typing ls) ?con") (auto simp: typed_line_app_line split: prod.split)
    qed
  qed
qed simp

section \<open>Signals\<close>

fun no_input :: "console_event \<Rightarrow> bool" where
  "no_input (Typed l) = False"
| "no_input EndOfInput = False"
| "no_input _ = True"

lemma waiting_stays:
  assumes "con_pc con = InGetline" "list_all no_input evs" "console_run e evs con = Some (outs, con')"
  shows "con_pc con' = InGetline"
  using assms
proof (induction evs arbitrary: con outs)
  case (Cons ev evs)
  obtain o1 con1 o2 where s: "console_step e ev con = Some (o1, con1)" "console_run e evs con1 = Some (o2, con')"
    using Cons.prems(3) by (auto split: option.splits)
  have "con_pc con1 = InGetline"
    using s(1) Cons.prems(1,2) by (cases ev) (auto split: if_splits option.splits)
  with Cons.IH [OF _ _ s(2)] Cons.prems(2) show ?case by simp
qed simp

text \<open>Nothing takes the request to quit back.\<close>

lemma run_effect_repl: "run_effect e eff app = Some (outs, app') \<Longrightarrow> app_repl app' = app_repl app"
  by (cases eff) (auto simp: capture_callback_def sendfile_callback_def login_callback_def offer_callback_def answer_callback_def
      ice_callback_def split: option.splits if_splits sum.splits wav_error.splits wav_result.splits prod.splits)

lemma run_effects_repl: "run_effects e effs app = Some (outs, app') \<Longrightarrow> app_repl app' = app_repl app"
proof (induction effs arbitrary: app outs)
  case (Cons eff effs)
  then show ?case by (auto split: option.splits dest!: run_effect_repl)
qed simp

lemma app_handle_repl: "app_handle e raw app = Some (outs, app', threw) \<Longrightarrow> app_repl app' = app_repl app"
  by (auto simp: app_handle_def split: option.splits dest!: run_effects_repl)

lemma handle_uncaught_repl: "handle_uncaught e raw outs app = Some (outs', app') \<Longrightarrow> app_repl app' = app_repl app"
  by (auto simp: handle_uncaught_def split: option.splits if_splits dest!: app_handle_repl)

lemma cleanupCall_repl: "app_repl (snd (cleanupCall app)) = app_repl app"
  using cleanupCall_fields [of app "fst (cleanupCall app)" "snd (cleanupCall app)"] by simp

lemma after_repl:
  "app_repl (fst (snd (after_error app))) = app_repl app" "app_repl (fst (snd (after_rtc_config e app))) = app_repl app"
  "app_repl (fst (snd (after_call_end app))) = app_repl app"
  using cleanupCall_repl [of app]
  by (auto simp: after_error_def after_rtc_config_def after_call_end_def initRtc_def startCall_def createOffer_def Let_def
      split: prod.splits option.splits)

lemma handle_caught_repl:
  assumes "handle_caught e raw k app = Some (outs, app')" "\<And>a. app_repl (fst (snd (k a))) = app_repl a"
  shows "app_repl app' = app_repl app"
proof -
  obtain o1 app1 threw where h: "app_handle e raw app = Some (o1, app1, threw)" using assms(1) by (auto simp: handle_caught_def split: option.splits)
  obtain o2 app2 threw2 where k: "k app1 = (o2, app2, threw2)" by (metis prod_cases3)
  have "app_repl app1 = app_repl app" "app_repl app2 = app_repl app1" using app_handle_repl [OF h] assms(2) [of app1] k by simp_all
  with assms(1) h k handle_uncaught_repl show ?thesis by (cases threw; cases threw2) (fastforce simp: handle_caught_def)+
qed

lemma app_message_repl: "app_message e raw app = Some (outs, app') \<Longrightarrow> app_repl app' = app_repl app"
  by (erule app_message_cases) (blast intro: handle_uncaught_repl handle_caught_repl after_repl)+

lemma app_rtc_repl: "app_repl (snd (app_rtc e ev app)) = app_repl app"
proof -
  have "app_repl (snd (handleStateChange e st app)) = app_repl app" for st
    using cleanupCall_repl [of "set_pc_connected False app"]
    by (cases st) (auto simp: set_pc_connected_def failed_callback_def Let_def split: prod.splits)
  then have "app_repl (snd (rtc_callback e ev app)) = app_repl app" by (cases ev) simp_all
  then show ?thesis by (auto simp: app_rtc_def split: option.split)
qed

lemma app_step_quit:
  assumes "app_step e ev app = Some (outs, app')" "not_a_line ev" "repl_quit (app_repl app)"
  shows "repl_quit (app_repl app')"
proof (cases ev)
  case (RtcEvent r)
  then show ?thesis using assms app_rtc_repl [of e r app] by simp
next
  case WsClosed
  then show ?thesis using assms cleanupCall_repl [of "app\<lparr>app_ws := (app_ws app)\<lparr>ws_connected := False\<rparr>\<rparr>"]
    by (auto simp: app_ws_closed_def Let_def split: if_splits prod.splits)
qed (use assms in \<open>auto simp: app_reconnect_def app_frame_def signal_handler_def dest: app_message_repl split: option.splits sum.splits if_splits prod.splits\<close>)

lemma typed_line_quit: "typed_line e line app = Some (outs, app') \<Longrightarrow> repl_quit (app_repl app) \<Longrightarrow> repl_quit (app_repl app')"
  by (auto simp: typed_line_def processLine_def Let_def dest!: run_effects_repl split: prod.splits if_splits)

lemma console_run_quit:
  assumes "console_run e evs con = Some (outs, con')" "repl_quit (app_repl (con_app con))"
  shows "repl_quit (app_repl (con_app con'))"
  using assms
proof (induction evs arbitrary: con outs)
  case (Cons ev evs)
  obtain o1 con1 o2 where s: "console_step e ev con = Some (o1, con1)" "console_run e evs con1 = Some (o2, con')"
    using Cons.prems(1) by (auto split: option.splits)
  have "repl_quit (app_repl (con_app con1))"
    using s(1) Cons.prems(2) by (cases ev) (auto split: if_splits option.splits dest: typed_line_quit app_step_quit)
  with Cons.IH [OF s(2)] show ?case by simp
qed simp

section \<open>Properties\<close>

text \<open>
  Ctrl-C does not end the client: the signal handler only sets a flag that the loop looks
  at between two lines. A client whose terminal thread waits for a line does not leave the
  loop after SIGINT or SIGTERM, whatever messages, network events and further signals
  follow, until a line is typed; and that line is still executed as a command before the
  loop ends.
\<close>

lemma signal_waits_for_line:
  assumes "con_pc con = InGetline" "list_all no_input evs" "console_run e (Elsewhere Signal # evs) con = Some (outs, con')"
  shows "con_pc con' = InGetline
     \<and> (\<forall>line outs' app'. typed_line e line (con_app con') = Some (outs', app') \<longrightarrow>
          console_run e [Typed line, LoopHead] con' = Some (map Does outs', \<lparr>con_app = app', con_pc = LoopEnded\<rparr>))"
proof -
  have "list_all no_input (Elsewhere Signal # evs)" using assms(2) by simp
  from waiting_stays [OF assms(1) this assms(3)] have pc: "con_pc con' = InGetline" .
  have "repl_quit (app_repl (con_app con'))"
    using assms(3) console_run_quit [of e evs "con\<lparr>con_app := signal_handler (con_app con)\<rparr>"]
    by (auto simp: signal_handler_def split: option.splits)
  with pc show ?thesis by (auto dest: typed_line_quit)
qed

end
