(* ===== verification/Http_Server.thy ===== *)
theory Http_Server
  imports Backend
begin

text \<open>
  \<open>backend/api/http_server.cpp\<close>: the connections of the HTTPS server, and the threads of
  \<open>backend/main.cpp\<close> that run all handlers of the backend. A connection makes its TLS handshake,
  reads one request, writes one answer and is shut down, or becomes a web socket. The shutdown
  in the handler of the completed write is the synchronous one: its thread waits there until
  the client has closed its side.
\<close>

section \<open>State\<close>

datatype http_phase = Handshaking | ReadingRequest | Writing Response | ShuttingDown | ConnDone | Upgraded

record HttpServer =
  hs_backend :: Backend
  hs_conns :: "(nat, http_phase) umap"
  hs_next :: nat
  hs_threads :: nat

definition mk_http_server :: "Backend \<Rightarrow> nat \<Rightarrow> HttpServer" where
  "mk_http_server be hardware_concurrency =
     \<lparr>hs_backend = be, hs_conns = [], hs_next = 0, hs_threads = max 2 hardware_concurrency\<rparr>"

definition waiting_threads :: "HttpServer \<Rightarrow> nat" where
  "waiting_threads hs = length (filter (\<lambda>(k, p). p = ShuttingDown) (hs_conns hs))"

section \<open>Handlers\<close>

definition http_accept :: "bool \<Rightarrow> HttpServer \<Rightarrow> HttpServer" where
  "http_accept ec hs =
     (if ec then hs else hs\<lparr>hs_conns := um_set (hs_next hs) Handshaking (hs_conns hs), hs_next := Suc (hs_next hs)\<rparr>)"

definition http_run :: "nat \<Rightarrow> bool \<Rightarrow> HttpServer \<Rightarrow> HttpServer" where
  "http_run i ec hs =
     (if um_find (hs_conns hs) i \<noteq> Some Handshaking then hs
      else hs\<lparr>hs_conns := um_set i (if ec then ConnDone else ReadingRequest) (hs_conns hs)\<rparr>)"

definition read_request :: "nat \<Rightarrow> (backend_env \<times> http_request) option \<Rightarrow> HttpServer \<Rightarrow> HttpServer" where
  "read_request i r hs =
     (if um_find (hs_conns hs) i \<noteq> Some ReadingRequest then hs
      else case r of
        None \<Rightarrow> hs\<lparr>hs_conns := um_set i ConnDone (hs_conns hs)\<rparr>
      | Some (e, req) \<Rightarrow>
          (case be_request e req (hs_backend hs) of (outs, be) \<Rightarrow>
             hs\<lparr>hs_backend := be,
                hs_conns := um_set i (case outs of [Answer resp] \<Rightarrow> Writing resp | _ \<Rightarrow> Upgraded) (hs_conns hs)\<rparr>))"

text \<open>The answer has been written, or the write has failed: \<open>shutdown\<close> is called either way.\<close>

definition response_written :: "nat \<Rightarrow> HttpServer \<Rightarrow> HttpServer" where
  "response_written i hs =
     (case um_find (hs_conns hs) i of
        Some (Writing resp) \<Rightarrow> hs\<lparr>hs_conns := um_set i ShuttingDown (hs_conns hs)\<rparr>
      | _ \<Rightarrow> hs)"

text \<open>The client has answered the shutdown or dropped the connection: the waiting call returns.\<close>

definition peer_closed :: "nat \<Rightarrow> HttpServer \<Rightarrow> HttpServer" where
  "peer_closed i hs =
     (if um_find (hs_conns hs) i = Some ShuttingDown then hs\<lparr>hs_conns := um_set i ConnDone (hs_conns hs)\<rparr> else hs)"

section \<open>The thread pool\<close>

text \<open>
  A completed operation needs a thread that is not waiting; without one it stays queued. The
  handlers of the web sockets and of the timer run on the same threads. \<open>None\<close> is an exception
  that has escaped.
\<close>

datatype http_event =
    HttpAccepted bool
  | HttpHandshake nat bool
  | HttpRequest nat "(backend_env \<times> http_request) option"
  | HttpWritten nat
  | PeerClosed nat
  | Handler backend_event

fun needs_thread :: "http_event \<Rightarrow> bool" where
  "needs_thread (PeerClosed i) = False"
| "needs_thread ev = True"

definition http_step :: "http_event \<Rightarrow> HttpServer \<Rightarrow> HttpServer option" where
  "http_step ev hs =
     (if needs_thread ev \<and> hs_threads hs \<le> waiting_threads hs then Some hs
      else case ev of
        HttpAccepted ec \<Rightarrow> Some (http_accept ec hs)
      | HttpHandshake i ec \<Rightarrow> Some (http_run i ec hs)
      | HttpRequest i r \<Rightarrow> Some (read_request i r hs)
      | HttpWritten i \<Rightarrow> Some (response_written i hs)
      | PeerClosed i \<Rightarrow> Some (peer_closed i hs)
      | Handler bev \<Rightarrow>
          (case backend_step bev (hs_backend hs) of
             None \<Rightarrow> None
           | Some (outs, be) \<Rightarrow> Some (hs\<lparr>hs_backend := be\<rparr>)))"

fun http_steps :: "http_event list \<Rightarrow> HttpServer \<Rightarrow> HttpServer option" where
  "http_steps [] hs = Some hs"
| "http_steps (ev # evs) hs = (case http_step ev hs of None \<Rightarrow> None | Some hs' \<Rightarrow> http_steps evs hs')"

lemma http_steps_append:
  "http_steps (evs @ evs') hs = (case http_steps evs hs of None \<Rightarrow> None | Some hs' \<Rightarrow> http_steps evs' hs')"
  by (induction evs hs rule: http_steps.induct) (auto split: option.split)

section \<open>Connections that are not closed\<close>

definition conns_below :: "HttpServer \<Rightarrow> bool" where
  "conns_below hs \<longleftrightarrow> (\<forall>k \<ge> hs_next hs. um_find (hs_conns hs) k = None)"

lemma filter_update_new:
  "um_find m k = None \<Longrightarrow> length (filter (\<lambda>(k, p). P p) (um_set k v m)) = length (filter (\<lambda>(k, p). P p) m) + (if P v then 1 else 0)"
  by (induction m) auto

text \<open>What one client does: it connects, sends a request and reads the answer.\<close>

fun request_events :: "nat \<Rightarrow> backend_env \<times> http_request \<Rightarrow> http_event list" where
  "request_events i r = [HttpAccepted False, HttpHandshake i False, HttpRequest i (Some r), HttpWritten i]"

lemma be_request_answers:
  assumes "\<not> hr_upgrade req"
  obtains resp be' where "be_request e req be = ([Answer resp], be')"
proof -
  have "\<exists>resp svc. handle_request (be_routes be) (api_env.truncate e) req (be_auth be) = (Respond resp, svc)"
    using assms by (auto simp: handle_request_def Let_def split: option.split prod.split sum.split)
  then show ?thesis using that by (auto simp: be_request_def)
qed

lemma waiting_new:
  assumes "conns_below hs"
  shows "waiting_threads (hs\<lparr>hs_backend := be, hs_conns := um_set (hs_next hs) p (hs_conns hs), hs_next := n\<rparr>)
     = waiting_threads hs + (if p = ShuttingDown then 1 else 0)"
  using filter_update_new [of "hs_conns hs" "hs_next hs" "\<lambda>p. p = ShuttingDown" p] assms
  by (simp add: waiting_threads_def conns_below_def)

lemma request_blocks_thread:
  assumes "waiting_threads hs < hs_threads hs" "conns_below hs" "\<not> hr_upgrade (snd r)"
  shows "\<exists>hs'. http_steps (request_events (hs_next hs) r) hs = Some hs' \<and> waiting_threads hs' = Suc (waiting_threads hs)
    \<and> hs_threads hs' = hs_threads hs \<and> hs_next hs' = Suc (hs_next hs) \<and> conns_below hs'"
proof -
  obtain e req where r: "r = (e, req)" by force
  obtain resp be where ans: "be_request e req (hs_backend hs) = ([Answer resp], be)"
    using be_request_answers assms(3) r by (metis snd_conv)
  let ?i = "hs_next hs"
  let ?hs = "\<lambda>be p. hs\<lparr>hs_backend := be, hs_conns := um_set ?i p (hs_conns hs), hs_next := Suc ?i\<rparr>"
  have w: "waiting_threads (?hs be p) = waiting_threads hs + (if p = ShuttingDown then 1 else 0)" for p be
    by (rule waiting_new [OF assms(2)])
  have "http_step (HttpAccepted False) hs = Some (?hs (hs_backend hs) Handshaking)"
    using assms(1) by (simp add: http_step_def http_accept_def)
  moreover have "http_step (HttpHandshake ?i False) (?hs (hs_backend hs) Handshaking) = Some (?hs (hs_backend hs) ReadingRequest)"
    using assms(1) w [of Handshaking "hs_backend hs"] by (simp add: http_step_def http_run_def)
  moreover have "http_step (HttpRequest ?i (Some r)) (?hs (hs_backend hs) ReadingRequest) = Some (?hs be (Writing resp))"
    using assms(1) w [of ReadingRequest "hs_backend hs"] ans r by (simp add: http_step_def read_request_def)
  moreover have "http_step (HttpWritten ?i) (?hs be (Writing resp)) = Some (?hs be ShuttingDown)"
    using assms(1) w [of "Writing resp" be] by (simp add: http_step_def response_written_def)
  ultimately have "http_steps (request_events ?i r) hs = Some (?hs be ShuttingDown)" by simp
  moreover have "conns_below (?hs be ShuttingDown)" using assms(2) by (simp add: conns_below_def)
  ultimately show ?thesis using w [of ShuttingDown be] by auto
qed

text \<open>One client after the other, numbered from \<open>i\<close>.\<close>

fun client_events :: "nat \<Rightarrow> (backend_env \<times> http_request) list \<Rightarrow> http_event list" where
  "client_events i [] = []"
| "client_events i (r # rs) = request_events i r @ client_events (Suc i) rs"

lemma clients_block_threads:
  assumes "waiting_threads hs + length rs \<le> hs_threads hs" "conns_below hs" "list_all (\<lambda>r. \<not> hr_upgrade (snd r)) rs"
  shows "\<exists>hs'. http_steps (client_events (hs_next hs) rs) hs = Some hs' \<and> waiting_threads hs' = waiting_threads hs + length rs
    \<and> hs_threads hs' = hs_threads hs"
  using assms
proof (induction rs arbitrary: hs)
  case (Cons r rs)
  then have "waiting_threads hs < hs_threads hs" "\<not> hr_upgrade (snd r)" by simp_all
  from request_blocks_thread [OF this(1) Cons.prems(2) this(2)] obtain hs1 where hs1:
    "http_steps (request_events (hs_next hs) r) hs = Some hs1" "waiting_threads hs1 = Suc (waiting_threads hs)"
    "hs_threads hs1 = hs_threads hs" "hs_next hs1 = Suc (hs_next hs)" "conns_below hs1" by blast
  with Cons.IH [of hs1] Cons.prems show ?case by (auto simp: http_steps_append simp del: request_events.simps)
qed simp

lemma blocked_stays:
  "hs_threads hs \<le> waiting_threads hs \<Longrightarrow> list_all needs_thread evs \<Longrightarrow> http_steps evs hs = Some hs"
  by (induction evs) (simp_all add: http_step_def)

section \<open>Properties\<close>

text \<open>
  C25. As many clients as the backend has threads stop it: each connects, sends one request,
  which may be any request, valid or not and without a token, reads the answer and leaves the
  connection open. After that no handler of the backend runs any more, neither of the HTTP
  interface nor of the signalling, until one of these clients closes.
\<close>

theorem idle_clients_stop_backend:
  assumes "length rs = max 2 cores" "list_all (\<lambda>r. \<not> hr_upgrade (snd r)) rs" "list_all needs_thread evs"
  shows "\<exists>hs. http_steps (client_events 0 rs) (mk_http_server be cores) = Some hs \<and> http_steps evs hs = Some hs"
proof -
  have "waiting_threads (mk_http_server be cores) = 0" "conns_below (mk_http_server be cores)"
    "hs_threads (mk_http_server be cores) = length rs" "hs_next (mk_http_server be cores) = 0"
    using assms(1) by (simp_all add: mk_http_server_def waiting_threads_def conns_below_def)
  with clients_block_threads [of "mk_http_server be cores" rs] assms(2) obtain hs where
    "http_steps (client_events 0 rs) (mk_http_server be cores) = Some hs" "hs_threads hs \<le> waiting_threads hs" by auto
  with blocked_stays [OF _ assms(3)] show ?thesis by blast
qed

definition demo_request :: "backend_env \<times> http_request" where
  "demo_request = (demo_backend_env, \<lparr>hr_method = ''GET'', hr_target = ''/'', hr_body = [], hr_fields = [], hr_upgrade = False\<rparr>)"

theorem idle_clients_stop_backend_witness:
  "\<exists>hs. http_steps (client_events 0 [demo_request, demo_request]) (mk_http_server (mk_backend Map.empty []) 1) = Some hs
     \<and> http_steps [HttpAccepted False, Handler (Timer demo_backend_env)] hs = Some hs"
  using idle_clients_stop_backend [of "[demo_request, demo_request]" 1 "[HttpAccepted False, Handler (Timer demo_backend_env)]"]
  by (simp add: demo_request_def)

end
