(* ===== verification/Registration.thy ===== *)
theory Registration
  imports Backend_Auth
begin

text \<open>
  \<open>backend/auth/user_store.cpp\<close> when several threads of the pool use it: the handlers of two
  registration requests share one database connection, and \<open>addUser\<close> is two statements, a
  SELECT and an INSERT. SQLite executes each statement at once (a connection is serialised),
  but statements of another thread may come between the two. Also the construction of the
  store.
\<close>

section \<open>Opening the store\<close>

text \<open>
  What \<open>sqlite3_open\<close> and the CREATE TABLE statement report, and the table the file holds, if
  it has one.
\<close>

record db_open_env =
  open_error :: "string option"
  schema_error :: "string option"
  stored_users :: "user_db option"

text \<open>\<open>IF NOT EXISTS\<close>: a table that is there already keeps its rows.\<close>

definition initSchema :: "db_open_env \<Rightarrow> api_error + user_db" where
  "initSchema e =
     (case schema_error e of
        Some err \<Rightarrow> Inl (UserStoreError (''initSchema failed: '' @ err))
      | None \<Rightarrow> Inr (case stored_users e of None \<Rightarrow> [] | Some db \<Rightarrow> db))"

definition open_store :: "db_open_env \<Rightarrow> api_error + user_db" where
  "open_store e =
     (case open_error e of
        Some err \<Rightarrow> Inl (UserStoreError (''cannot open database: '' @ err))
      | None \<Rightarrow> initSchema e)"

text \<open>Accounts survive a restart: the store that is opened again has the rows it was left with.\<close>

lemma reopened_store:
  "open_error e = None \<Longrightarrow> schema_error e = None \<Longrightarrow> open_store (e\<lparr>stored_users := Some db\<rparr>) = Inr db"
  by (simp add: open_store_def initSchema_def)

section \<open>addUser as two statements\<close>

definition user_check :: "auth_env \<Rightarrow> string \<Rightarrow> user_db \<Rightarrow> api_error + unit" where
  "user_check e uid db =
     (case findUser e uid db of
        Inl err \<Rightarrow> Inl err
      | Inr (Some u) \<Rightarrow> Inl (UserStoreError (''user already exists: '' @ uid))
      | Inr None \<Rightarrow> Inr ())"

definition user_insert :: "auth_env \<Rightarrow> string \<Rightarrow> string \<Rightarrow> user_db \<Rightarrow> (api_error + unit) \<times> user_db" where
  "user_insert e uid password db =
     (if \<not> sql_prepare e then (Inl (UserStoreError ''addUser prepare failed''), db)
      else if \<not> sql_insert e \<or> um_find db (c_str uid) \<noteq> None
      then (Inl (UserStoreError (''addUser failed: '' @ sql_errmsg e)), db)
      else (Inr (), um_set (c_str uid) (hashPassword e password) db))"

text \<open>Without another thread in between they are \<open>addUser\<close>.\<close>

lemma addUser_statements:
  "addUser e uid pw db = (case user_check e uid db of Inl err \<Rightarrow> (Inl err, db) | Inr _ \<Rightarrow> user_insert e uid pw db)"
  by (simp add: addUser_def user_check_def user_insert_def split: sum.split option.split)

section \<open>Registrations at the same time\<close>

record registration =
  rg_env :: auth_env
  rg_user :: string
  rg_password :: string

datatype reg_pc = Starting | Checked | Finished "api_error + unit"

record RegState =
  rs_db :: user_db
  rs_pcs :: "reg_pc list"

definition reg_start :: "registration list \<Rightarrow> user_db \<Rightarrow> RegState" where
  "reg_start regs db = \<lparr>rs_db = db, rs_pcs = replicate (length regs) Starting\<rparr>"

text \<open>The thread of registration \<open>i\<close> executes its next statement.\<close>

definition reg_next :: "registration list \<Rightarrow> nat \<Rightarrow> RegState \<Rightarrow> RegState" where
  "reg_next regs i st =
     (if length regs \<le> i \<or> length (rs_pcs st) \<le> i then st
      else let r = regs ! i in
        case rs_pcs st ! i of
          Starting \<Rightarrow>
            st\<lparr>rs_pcs := (rs_pcs st)[i := (case user_check (rg_env r) (rg_user r) (rs_db st) of
                                              Inl err \<Rightarrow> Finished (Inl err) | Inr _ \<Rightarrow> Checked)]\<rparr>
        | Checked \<Rightarrow>
            (case user_insert (rg_env r) (rg_user r) (rg_password r) (rs_db st) of
               (result, db) \<Rightarrow> st\<lparr>rs_db := db, rs_pcs := (rs_pcs st)[i := Finished result]\<rparr>)
        | Finished result \<Rightarrow> st)"

abbreviation reg_key :: "registration list \<Rightarrow> nat \<Rightarrow> string" where
  "reg_key regs i \<equiv> c_str (rg_user (regs ! i))"

abbreviation reg_hash :: "registration list \<Rightarrow> nat \<Rightarrow> string" where
  "reg_hash regs i \<equiv> hashPassword (rg_env (regs ! i)) (rg_password (regs ! i))"

definition succeeded :: "registration list \<Rightarrow> RegState \<Rightarrow> nat \<Rightarrow> bool" where
  "succeeded regs st i \<longleftrightarrow> i < length regs \<and> rs_pcs st ! i = Finished (Inr ())"

text \<open>
  Every row was there before or is the row of a registration that succeeded; there is one
  such registration per user; a registration that failed found a row.
\<close>

definition reg_inv :: "registration list \<Rightarrow> user_db \<Rightarrow> RegState \<Rightarrow> bool" where
  "reg_inv regs db0 st \<longleftrightarrow>
     length (rs_pcs st) = length regs
   \<and> (\<forall>k h. um_find db0 k = Some h \<longrightarrow> um_find (rs_db st) k = Some h)
   \<and> (\<forall>k h. um_find (rs_db st) k = Some h \<longrightarrow>
        um_find db0 k = Some h \<or> (\<exists>i. succeeded regs st i \<and> reg_key regs i = k))
   \<and> (\<forall>i. succeeded regs st i \<longrightarrow> um_find db0 (reg_key regs i) = None \<and> um_find (rs_db st) (reg_key regs i) = Some (reg_hash regs i))
   \<and> (\<forall>i j. succeeded regs st i \<longrightarrow> succeeded regs st j \<longrightarrow> reg_key regs i = reg_key regs j \<longrightarrow> i = j)
   \<and> (\<forall>i err. i < length regs \<longrightarrow> rs_pcs st ! i = Finished (Inl err) \<longrightarrow> db_up (rg_env (regs ! i)) \<longrightarrow>
        um_find (rs_db st) (reg_key regs i) \<noteq> None)"

lemma reg_start_inv: "reg_inv regs db (reg_start regs db)"
  by (auto simp: reg_inv_def reg_start_def succeeded_def)

lemma user_check_error: "user_check e uid db = Inl err \<Longrightarrow> db_up e \<Longrightarrow> um_find db (c_str uid) \<noteq> None"
  by (auto simp: user_check_def findUser_def split: option.splits)

lemma user_insert_cases:
  obtains (failed) err where "user_insert e uid pw db = (Inl err, db)" "db_up e \<Longrightarrow> um_find db (c_str uid) \<noteq> None"
  | (inserted) "user_insert e uid pw db = (Inr (), um_set (c_str uid) (hashPassword e pw) db)" "um_find db (c_str uid) = None"
proof (cases "\<not> sql_prepare e \<or> \<not> sql_insert e \<or> um_find db (c_str uid) \<noteq> None")
  case True
  then have "\<exists>err. user_insert e uid pw db = (Inl err, db)" by (auto simp: user_insert_def)
  then obtain err where "user_insert e uid pw db = (Inl err, db)" by blast
  with True show ?thesis by (intro failed) auto
next
  case False
  then show ?thesis by (intro inserted) (simp_all add: user_insert_def)
qed

text \<open>A statement that changes no row: only a new failure has to be accounted for.\<close>

lemma reg_inv_pc:
  assumes inv: "reg_inv regs db0 st" and i: "i < length regs" "rs_pcs st ! i \<noteq> Finished (Inr ())" "pc \<noteq> Finished (Inr ())"
    and fail: "\<And>err. pc = Finished (Inl err) \<Longrightarrow> db_up (rg_env (regs ! i)) \<Longrightarrow> um_find (rs_db st) (reg_key regs i) \<noteq> None"
  shows "reg_inv regs db0 (st\<lparr>rs_pcs := (rs_pcs st)[i := pc]\<rparr>)"
proof -
  have len: "length (rs_pcs st) = length regs" using inv by (simp add: reg_inv_def)
  have su: "succeeded regs (st\<lparr>rs_pcs := (rs_pcs st)[i := pc]\<rparr>) = succeeded regs st"
    using i len by (auto simp: succeeded_def fun_eq_iff nth_list_update)
  have "\<forall>j err. j < length regs \<longrightarrow> (rs_pcs st)[i := pc] ! j = Finished (Inl err) \<longrightarrow> db_up (rg_env (regs ! j)) \<longrightarrow>
      um_find (rs_db st) (reg_key regs j) \<noteq> None"
  proof (intro allI impI)
    fix j err assume j: "j < length regs" "(rs_pcs st)[i := pc] ! j = Finished (Inl err)" "db_up (rg_env (regs ! j))"
    show "um_find (rs_db st) (reg_key regs j) \<noteq> None"
    proof (cases "j = i")
      case True
      with j i(1) len show ?thesis using fail by simp
    next
      case False
      with j inv show ?thesis by (simp add: reg_inv_def)
    qed
  qed
  with inv show ?thesis unfolding reg_inv_def su by simp
qed

lemma reg_next_inv:
  assumes inv: "reg_inv regs db0 st"
  shows "reg_inv regs db0 (reg_next regs i st)"
proof (cases "i < length regs")
  case i: True
  have len: "length (rs_pcs st) = length regs" using inv by (simp add: reg_inv_def)
  let ?r = "regs ! i"
  show ?thesis
  proof (cases "rs_pcs st ! i")
    case Starting
    let ?pc = "case user_check (rg_env ?r) (rg_user ?r) (rs_db st) of Inl err \<Rightarrow> Finished (Inl err) | Inr _ \<Rightarrow> Checked"
    have "reg_inv regs db0 (st\<lparr>rs_pcs := (rs_pcs st)[i := ?pc]\<rparr>)"
      by (rule reg_inv_pc [OF inv i])
        (use Starting user_check_error [of "rg_env ?r" "rg_user ?r" "rs_db st"] in \<open>auto split: sum.splits\<close>)
    then show ?thesis using i len Starting by (simp add: reg_next_def Let_def)
  next
    case Checked
    show ?thesis
    proof (cases rule: user_insert_cases [of "rg_env ?r" "rg_user ?r" "rg_password ?r" "rs_db st"])
      case (failed err)
      have "reg_inv regs db0 (st\<lparr>rs_pcs := (rs_pcs st)[i := Finished (Inl err)]\<rparr>)"
        by (rule reg_inv_pc [OF inv i]) (use Checked failed in auto)
      then show ?thesis using i len Checked failed by (simp add: reg_next_def Let_def)
    next
      case inserted
      let ?st = "reg_next regs i st"
      have st: "?st = st\<lparr>rs_db := um_set (reg_key regs i) (reg_hash regs i) (rs_db st), rs_pcs := (rs_pcs st)[i := Finished (Inr ())]\<rparr>"
        using inserted i len Checked by (simp add: reg_next_def Let_def)
      have db: "rs_db ?st = um_set (reg_key regs i) (reg_hash regs i) (rs_db st)" by (simp add: st)
      have su: "succeeded regs ?st j \<longleftrightarrow> j = i \<or> succeeded regs st j" for j
        using i len by (auto simp: st succeeded_def nth_list_update)
      have no: "\<not> succeeded regs st i" using Checked by (simp add: succeeded_def)
      have fresh: "um_find db0 (reg_key regs i) = None" using inv inserted(2) unfolding reg_inv_def by (metis not_None_eq)
      have other: "reg_key regs j \<noteq> reg_key regs i" if "succeeded regs st j" for j
        using inv that inserted(2) unfolding reg_inv_def by (metis option.distinct(1))
      have "length (rs_pcs ?st) = length regs" using len by (simp add: st)
      moreover have "\<forall>k h. um_find db0 k = Some h \<longrightarrow> um_find (rs_db ?st) k = Some h"
        using inv fresh by (auto simp: db reg_inv_def)
      moreover have "\<forall>k h. um_find (rs_db ?st) k = Some h \<longrightarrow> um_find db0 k = Some h \<or> (\<exists>j. succeeded regs ?st j \<and> reg_key regs j = k)"
        using inv unfolding su db reg_inv_def um_find_set by (metis fun_upd_apply)
      moreover have "\<forall>j. succeeded regs ?st j \<longrightarrow> um_find db0 (reg_key regs j) = None \<and> um_find (rs_db ?st) (reg_key regs j) = Some (reg_hash regs j)"
        using inv fresh other by (auto simp: su db reg_inv_def)
      moreover have "\<forall>j j'. succeeded regs ?st j \<longrightarrow> succeeded regs ?st j' \<longrightarrow> reg_key regs j = reg_key regs j' \<longrightarrow> j = j'"
        using inv other unfolding su reg_inv_def by metis
      moreover have "\<forall>j err. j < length regs \<longrightarrow> rs_pcs ?st ! j = Finished (Inl err) \<longrightarrow> db_up (rg_env (regs ! j)) \<longrightarrow>
          um_find (rs_db ?st) (reg_key regs j) \<noteq> None"
        using inv i len by (auto simp: st reg_inv_def nth_list_update)
      ultimately show ?thesis unfolding reg_inv_def by blast
    qed
  next
    case (Finished r)
    with inv i len show ?thesis by (simp add: reg_next_def)
  qed
qed (use inv in \<open>simp add: reg_next_def\<close>)

interpretation registrations: invariant_machine "reg_next regs" "\<lambda>i. True" "reg_inv regs db0" for regs db0
  by unfold_locales (rule reg_next_inv)

text \<open>A thread that is scheduled twice is done.\<close>

fun statements_left :: "reg_pc \<Rightarrow> nat" where
  "statements_left Starting = 2"
| "statements_left Checked = 1"
| "statements_left (Finished r) = 0"

lemma reg_next_pcs:
  assumes "length (rs_pcs st) = length regs" "i < length regs"
  shows "length (rs_pcs (reg_next regs j st)) = length regs
    \<and> statements_left (rs_pcs (reg_next regs j st) ! i) \<le> statements_left (rs_pcs st ! i) - (if j = i then 1 else 0)"
  using assms by (auto simp: reg_next_def Let_def nth_list_update split: reg_pc.split sum.split prod.split)

lemma reg_run_pcs:
  assumes "length (rs_pcs st) = length regs" "i < length regs"
  shows "statements_left (rs_pcs (fold (reg_next regs) js st) ! i) \<le> statements_left (rs_pcs st ! i) - count_list js i"
  using assms
proof (induction js arbitrary: st)
  case (Cons j js)
  from reg_next_pcs [OF Cons.prems, of j] Cons.IH [of "reg_next regs j st"] Cons.prems(2) show ?case by auto
qed simp

lemma reg_run_finished:
  assumes "i < length regs" "2 \<le> count_list js i"
  obtains r where "rs_pcs (fold (reg_next regs) js (reg_start regs db)) ! i = Finished r"
proof -
  have "statements_left (rs_pcs (fold (reg_next regs) js (reg_start regs db)) ! i) = 0"
    using reg_run_pcs [of "reg_start regs db" regs i js] assms by (simp add: reg_start_def)
  then show ?thesis using that by (cases "rs_pcs (fold (reg_next regs) js (reg_start regs db)) ! i") auto
qed

section \<open>Properties\<close>

text \<open>
  C19. Registrations at the same time: whatever the order in which the statements of any
  number of registrations reach the database, no account that exists is changed, a
  registration that is reported as successful has stored its password, and every account
  goes to one registration: when the database works and all requests have been processed,
  of the requests for a new user exactly one has succeeded.
\<close>

theorem registrations_race_safe:
  fixes regs js db
  defines "st \<equiv> fold (reg_next regs) js (reg_start regs db)"
  assumes "list_all (\<lambda>r. db_up (rg_env r)) regs" "list_all (\<lambda>i. 2 \<le> count_list js i) [0..<length regs]"
  shows "(\<forall>k h. um_find db k = Some h \<longrightarrow> um_find (rs_db st) k = Some h)
     \<and> (\<forall>i. succeeded regs st i \<longrightarrow> um_find (rs_db st) (reg_key regs i) = Some (reg_hash regs i))
     \<and> (\<forall>i < length regs. um_find db (reg_key regs i) = None \<longrightarrow>
          (\<exists>!j. succeeded regs st j \<and> reg_key regs j = reg_key regs i))
     \<and> (\<forall>i < length regs. um_find db (reg_key regs i) \<noteq> None \<longrightarrow> \<not> succeeded regs st i)"
proof -
  have inv: "reg_inv regs db st"
    unfolding st_def by (rule registrations.run_inv [OF reg_start_inv]) (simp add: list_all_iff)
  have one: "\<exists>!j. succeeded regs st j \<and> reg_key regs j = reg_key regs i" if i: "i < length regs" "um_find db (reg_key regs i) = None" for i
  proof -
    obtain r where r: "rs_pcs st ! i = Finished r"
      using reg_run_finished [of i regs js db] assms(3) i(1) by (auto simp: st_def list_all_iff)
    have "um_find (rs_db st) (reg_key regs i) \<noteq> None"
    proof (cases r)
      case (Inl err)
      with r i(1) inv assms(2) show ?thesis by (simp add: reg_inv_def list_all_iff)
    next
      case (Inr u)
      with r i(1) inv show ?thesis by (simp add: reg_inv_def succeeded_def)
    qed
    then obtain h where h: "um_find (rs_db st) (reg_key regs i) = Some h" by blast
    have "um_find db (reg_key regs i) = Some h \<or> (\<exists>j. succeeded regs st j \<and> reg_key regs j = reg_key regs i)"
      using inv h unfolding reg_inv_def by blast
    then obtain j where j: "succeeded regs st j" "reg_key regs j = reg_key regs i" using i(2) by auto
    have "\<And>j'. succeeded regs st j' \<Longrightarrow> reg_key regs j' = reg_key regs j \<Longrightarrow> j' = j"
      using inv j(1) unfolding reg_inv_def by blast
    with j show ?thesis by auto
  qed
  have kept: "\<forall>k h. um_find db k = Some h \<longrightarrow> um_find (rs_db st) k = Some h"
    and new: "\<And>i. succeeded regs st i \<Longrightarrow> um_find db (reg_key regs i) = None \<and> um_find (rs_db st) (reg_key regs i) = Some (reg_hash regs i)"
    using inv by (simp_all add: reg_inv_def)
  show ?thesis using kept new one by (intro conjI allI impI) auto
qed

text \<open>Two threads register the same user: both find no such user before either inserts.\<close>

abbreviation demo_race :: "registration list" where
  "demo_race \<equiv> [\<lparr>rg_env = demo_auth_env, rg_user = ''ann'', rg_password = ''x''\<rparr>, \<lparr>rg_env = demo_auth_env, rg_user = ''ann'', rg_password = ''y''\<rparr>]"

theorem registrations_race_safe_witness:
  "\<exists>!j. succeeded demo_race (fold (reg_next demo_race) [0, 1, 1, 0] (reg_start demo_race [])) j \<and> reg_key demo_race j = reg_key demo_race 0"
proof -
  have up: "list_all (\<lambda>r. db_up (rg_env r)) demo_race" by (simp add: demo_auth_env_def)
  have twice: "list_all (\<lambda>i. 2 \<le> count_list [0, 1, 1, 0] i) [0..<length demo_race]" by (simp add: upt_rec)
  from registrations_race_safe [OF up twice, of "[]", THEN conjunct2, THEN conjunct2, THEN conjunct1, rule_format, of 0]
  show ?thesis by (simp del: fold.simps)
qed

end
