(* ===== verification/Logger.thy ===== *)
theory Logger
  imports Prelude
begin

text \<open>
  \<open>shared/log/logger.hpp\<close> with the threads that use it and the signal handlers of
  \<open>turn_server/src/main.cpp\<close> and \<open>backend/main.cpp\<close>. A call of \<open>log\<close> or \<open>err\<close> is taken apart into
  the lock of the mutex, the insertions into the streams and the unlock, so that calls of
  several threads interleave. A signal interrupts a thread wherever it is and runs the
  handler on its stack; the handler calls \<open>LOG\<close> itself. What it does to lock a \<open>std::mutex\<close> that
  the thread owns already the C++ standard leaves undefined: the model records that it
  happened and goes no further. The text of the clock is given with each call.
\<close>

section \<open>State\<close>

datatype log_kind = ToOut | ToErr

text \<open>
  The actions of a thread: \<open>std::lock_guard\<close>, an insertion into the console stream, one into
  the file if it is open, the end of the guard, and \<open>stop()\<close> of the event loop.
\<close>

datatype log_action = Lock log_kind string string | Put log_kind string | PutFile string | Unlock | StopLoop

text \<open>
  \<open>lg_file\<close> is the content of the log file, \<open>None\<close> while it is not open; \<open>lg_bad\<close> its failure
  flag, with which insertions do nothing. \<open>lg_stack t\<close> are the activations of thread \<open>t\<close>, the
  running one first, each with the actions it still has to do. \<open>lg_relocked\<close>: some thread has
  locked the mutex while it owned it.
\<close>

record Logger =
  lg_cout :: string
  lg_cerr :: string
  lg_file :: "string option"
  lg_bad :: bool
  lg_owner :: "nat option"
  lg_stack :: "nat \<Rightarrow> log_action list list"
  lg_stopped :: bool
  lg_relocked :: bool

definition mk_logger :: Logger where
  "mk_logger = \<lparr>lg_cout = [], lg_cerr = [], lg_file = None, lg_bad = False, lg_owner = None, lg_stack = (\<lambda>t. []), lg_stopped = False,
     lg_relocked = False\<rparr>"

text \<open>
  \<open>setFile\<close>, which the programs call before they start a thread. \<open>content\<close> is what the file
  holds, \<open>None\<close> if it cannot be opened; opening an open stream fails and leaves the file open.
\<close>

definition setFile :: "string option \<Rightarrow> Logger \<Rightarrow> Logger" where
  "setFile content lg =
     (case lg_file lg of
        Some f \<Rightarrow> lg\<lparr>lg_bad := True\<rparr>
      | None \<Rightarrow> (case content of None \<Rightarrow> lg\<lparr>lg_bad := True\<rparr> | Some f \<Rightarrow> lg\<lparr>lg_file := Some f, lg_bad := False\<rparr>))"

section \<open>Calls and signals\<close>

text \<open>\<open>log\<close> and \<open>err\<close>.\<close>

definition log_call :: "log_kind \<Rightarrow> string \<Rightarrow> string \<Rightarrow> log_action list" where
  "log_call k now msg =
     [Lock k now msg, Put k now, Put k '' '', Put k msg, Put k [CHR 0x0A],
      PutFile now, PutFile '' '', PutFile msg, PutFile [CHR 0x0A], Unlock]"

text \<open>\<open>signal_handler\<close>; \<open>name\<close> is the prefix of its message.\<close>

definition signal_call :: "string \<Rightarrow> string \<Rightarrow> log_action list" where
  "signal_call name now = log_call ToOut now (name @ '' shutting down...'') @ [StopLoop]"

fun put :: "log_action \<Rightarrow> Logger \<Rightarrow> Logger" where
  "put (Put ToOut s) lg = lg\<lparr>lg_cout := lg_cout lg @ s\<rparr>"
| "put (Put ToErr s) lg = lg\<lparr>lg_cerr := lg_cerr lg @ s\<rparr>"
| "put (PutFile s) lg = (if lg_bad lg then lg else lg\<lparr>lg_file := map_option (\<lambda>f. f @ s) (lg_file lg)\<rparr>)"
| "put _ lg = lg"

datatype log_event = Call nat log_kind string string | Step nat | Interrupt nat string string

definition pop_action :: "nat \<Rightarrow> Logger \<Rightarrow> Logger" where
  "pop_action t lg =
     (case lg_stack lg t of
        (a # acts) # frames \<Rightarrow>
          lg\<lparr>lg_stack := (lg_stack lg)(t := if acts = [] then frames else acts # frames)\<rparr>
      | _ \<Rightarrow> lg)"

text \<open>
  One action of a thread. A thread that waits for another one's mutex does nothing. The
  output lists the calls that got the mutex.
\<close>

fun log_step :: "log_event \<Rightarrow> Logger \<Rightarrow> (log_kind \<times> string \<times> string) list \<times> Logger" where
  "log_step (Call t k now msg) lg =
     ([], if lg_stack lg t = [] then lg\<lparr>lg_stack := (lg_stack lg)(t := [log_call k now msg])\<rparr> else lg)"
| "log_step (Interrupt t name now) lg =
     ([], lg\<lparr>lg_stack := (lg_stack lg)(t := signal_call name now # lg_stack lg t)\<rparr>)"
| "log_step (Step t) lg =
     (case lg_stack lg t of
        (Lock k now msg # acts) # frames \<Rightarrow>
          (case lg_owner lg of
             None \<Rightarrow> ([(k, now, msg)], pop_action t (lg\<lparr>lg_owner := Some t\<rparr>))
           | Some u \<Rightarrow> ([], if u = t then lg\<lparr>lg_relocked := True\<rparr> else lg))
      | (Unlock # acts) # frames \<Rightarrow> ([], pop_action t (lg\<lparr>lg_owner := None\<rparr>))
      | (StopLoop # acts) # frames \<Rightarrow> ([], pop_action t (lg\<lparr>lg_stopped := True\<rparr>))
      | (a # acts) # frames \<Rightarrow> ([], pop_action t (put a lg))
      | _ \<Rightarrow> ([], lg))"

text \<open>A run goes on as long as its behaviour is defined.\<close>

fun log_run :: "log_event list \<Rightarrow> Logger \<Rightarrow> (log_kind \<times> string \<times> string) list \<times> Logger" where
  "log_run [] lg = ([], lg)"
| "log_run (ev # evs) lg =
     (if lg_relocked lg then ([], lg)
      else case log_step ev lg of (calls, lg1) \<Rightarrow> (case log_run evs lg1 of (calls1, lg2) \<Rightarrow> (calls @ calls1, lg2)))"

section \<open>Whole lines\<close>

definition log_line :: "log_kind \<times> string \<times> string \<Rightarrow> string" where
  "log_line c = (case c of (k, now, msg) \<Rightarrow> now @ '' '' @ msg @ [CHR 0x0A])"

definition lines_to :: "log_kind \<Rightarrow> (log_kind \<times> string \<times> string) list \<Rightarrow> string" where
  "lines_to k calls = concat (map log_line (filter (\<lambda>c. fst c = k) calls))"

text \<open>The streams hold what they held at first and the lines of the calls, in order.\<close>

definition wrote :: "Logger \<Rightarrow> (log_kind \<times> string \<times> string) list \<Rightarrow> Logger \<Rightarrow> bool" where
  "wrote lg0 calls lg \<longleftrightarrow>
     lg_cout lg = lg_cout lg0 @ lines_to ToOut calls \<and> lg_cerr lg = lg_cerr lg0 @ lines_to ToErr calls
   \<and> lg_bad lg = lg_bad lg0
   \<and> lg_file lg = (if lg_bad lg0 then lg_file lg0 else map_option (\<lambda>f. f @ concat (map log_line calls)) (lg_file lg0))"

fun is_put :: "log_action \<Rightarrow> bool" where
  "is_put (Put k s) = True"
| "is_put (PutFile s) = True"
| "is_put _ = False"

text \<open>An activation that has not entered its critical section, or has left it.\<close>

definition outside :: "log_action list \<Rightarrow> bool" where
  "outside f \<longleftrightarrow> (\<exists>k now msg rest. f = log_call k now msg @ rest \<and> (rest = [] \<or> rest = [StopLoop])) \<or> f = [StopLoop]"

text \<open>
  At most one activation is inside the critical section, in the thread that owns the mutex;
  when it has done the insertions that are left, the streams hold whole lines.
\<close>

definition log_inv :: "Logger \<Rightarrow> (log_kind \<times> string \<times> string) list \<Rightarrow> Logger \<Rightarrow> bool" where
  "log_inv lg0 calls lg \<longleftrightarrow>
     (case lg_owner lg of
        None \<Rightarrow> (\<forall>t. list_all outside (lg_stack lg t)) \<and> wrote lg0 calls lg
      | Some t \<Rightarrow>
          (\<forall>u. u \<noteq> t \<longrightarrow> list_all outside (lg_stack lg u))
        \<and> (\<exists>pre puts rest post. lg_stack lg t = pre @ (puts @ Unlock # rest) # post \<and> list_all outside pre \<and> list_all outside post
             \<and> list_all is_put puts \<and> (rest = [] \<or> rest = [StopLoop]) \<and> wrote lg0 calls (fold put puts lg)))"

lemma put_fields [simp]:
  "lg_owner (put a lg) = lg_owner lg" "lg_stack (put a lg) = lg_stack lg" "lg_stopped (put a lg) = lg_stopped lg"
  "lg_relocked (put a lg) = lg_relocked lg" "lg_bad (put a lg) = lg_bad lg"
  by (cases a; cases "case a of Put k s \<Rightarrow> k | _ \<Rightarrow> ToOut"; simp)+

lemma put_upd:
  "put a (lg\<lparr>lg_owner := x\<rparr>) = (put a lg)\<lparr>lg_owner := x\<rparr>" "put a (lg\<lparr>lg_stack := y\<rparr>) = (put a lg)\<lparr>lg_stack := y\<rparr>"
  "put a (lg\<lparr>lg_stopped := z\<rparr>) = (put a lg)\<lparr>lg_stopped := z\<rparr>" "put a (lg\<lparr>lg_relocked := z\<rparr>) = (put a lg)\<lparr>lg_relocked := z\<rparr>"
  by (cases a; cases "case a of Put k s \<Rightarrow> k | _ \<Rightarrow> ToOut"; simp)+

lemma fold_put_upd [simp]:
  "fold put puts (lg\<lparr>lg_owner := x\<rparr>) = (fold put puts lg)\<lparr>lg_owner := x\<rparr>"
  "fold put puts (lg\<lparr>lg_stack := y\<rparr>) = (fold put puts lg)\<lparr>lg_stack := y\<rparr>"
  "fold put puts (lg\<lparr>lg_stopped := z\<rparr>) = (fold put puts lg)\<lparr>lg_stopped := z\<rparr>"
  "fold put puts (lg\<lparr>lg_relocked := z\<rparr>) = (fold put puts lg)\<lparr>lg_relocked := z\<rparr>"
  by (induction puts arbitrary: lg) (simp_all add: put_upd)

lemma wrote_upd [simp]:
  "wrote lg0 calls (lg\<lparr>lg_owner := x\<rparr>) = wrote lg0 calls lg" "wrote lg0 calls (lg\<lparr>lg_stack := y\<rparr>) = wrote lg0 calls lg"
  "wrote lg0 calls (lg\<lparr>lg_stopped := z\<rparr>) = wrote lg0 calls lg" "wrote lg0 calls (lg\<lparr>lg_relocked := z\<rparr>) = wrote lg0 calls lg"
  by (simp_all add: wrote_def)

lemma log_inv_relocked [simp]: "log_inv lg0 calls (lg\<lparr>lg_relocked := z\<rparr>) = log_inv lg0 calls lg"
  by (simp add: log_inv_def cong: option.case_cong)

text \<open>The insertions of a call.\<close>

definition call_puts :: "log_kind \<Rightarrow> string \<Rightarrow> string \<Rightarrow> log_action list" where
  "call_puts k now msg =
     [Put k now, Put k '' '', Put k msg, Put k [CHR 0x0A], PutFile now, PutFile '' '', PutFile msg, PutFile [CHR 0x0A]]"

lemma log_call_shape: "log_call k now msg = Lock k now msg # call_puts k now msg @ [Unlock]"
  by (simp add: log_call_def call_puts_def)

lemma call_puts_puts [simp]: "list_all is_put (call_puts k now msg)"
  by (simp add: call_puts_def)

lemma wrote_call: "wrote lg0 calls lg \<Longrightarrow> wrote lg0 (calls @ [(k, now, msg)]) (fold put (call_puts k now msg) lg)"
  by (cases k; cases "lg_file lg0") (simp_all add: wrote_def call_puts_def lines_to_def log_line_def)

lemma outside_cases:
  assumes "outside f"
  obtains (lock) k now msg rest where "f = Lock k now msg # call_puts k now msg @ Unlock # rest" "rest = [] \<or> rest = [StopLoop]"
  | (stop) "f = [StopLoop]"
  using assms by (auto simp: outside_def log_call_shape)

lemma outside_calls [simp]: "outside (log_call k now msg)" "outside (signal_call name now)" "outside [StopLoop]"
  unfolding outside_def signal_call_def by (blast intro: append_Nil2 [symmetric])+

text \<open>A step of a thread whose running activation is outside.\<close>

lemma step_outside:
  assumes "lg_stack lg t = f # frames" "outside f"
  obtains (enter) k now msg rest where "lg_owner lg = None" "rest = [] \<or> rest = [StopLoop]"
      "log_step (Step t) lg = ([(k, now, msg)],
         lg\<lparr>lg_owner := Some t, lg_stack := (lg_stack lg)(t := (call_puts k now msg @ Unlock # rest) # frames)\<rparr>)"
  | (blocked) "lg_owner lg \<noteq> None" "lg_owner lg \<noteq> Some t" "log_step (Step t) lg = ([], lg)"
  | (relock) "lg_owner lg = Some t" "log_step (Step t) lg = ([], lg\<lparr>lg_relocked := True\<rparr>)"
  | (stop) "f = [StopLoop]" "log_step (Step t) lg = ([], lg\<lparr>lg_stopped := True, lg_stack := (lg_stack lg)(t := frames)\<rparr>)"
  using assms(2)
proof (cases rule: outside_cases)
  case (lock k now msg rest)
  show ?thesis
  proof (cases "lg_owner lg")
    case None
    with lock assms(1) show ?thesis by (intro enter [of rest k now msg]) (simp_all add: pop_action_def)
  next
    case (Some u)
    with lock assms(1) show ?thesis by (cases "u = t") (simp_all add: blocked relock)
  qed
next
  case s: stop
  with assms(1) show ?thesis by (intro stop) (simp_all add: pop_action_def)
qed

text \<open>A step of the activation that is inside.\<close>

lemma step_inside:
  assumes "lg_stack lg t = (puts @ Unlock # rest) # frames" "list_all is_put puts"
  shows "log_step (Step t) lg = ([], case puts of
      [] \<Rightarrow> lg\<lparr>lg_owner := None, lg_stack := (lg_stack lg)(t := if rest = [] then frames else rest # frames)\<rparr>
    | a # ps \<Rightarrow> (put a lg)\<lparr>lg_stack := (lg_stack lg)(t := (ps @ Unlock # rest) # frames)\<rparr>)"
  using assms by (cases puts; cases "hd puts") (simp_all add: pop_action_def)

lemma log_inv_None: "lg_owner lg = None \<Longrightarrow> log_inv lg0 calls lg \<longleftrightarrow> (\<forall>t. list_all outside (lg_stack lg t)) \<and> wrote lg0 calls lg"
  by (simp add: log_inv_def)

lemma log_inv_owner:
  assumes "log_inv lg0 calls lg" "lg_owner lg = Some t"
  obtains pre puts rest post where "lg_stack lg t = pre @ (puts @ Unlock # rest) # post" "list_all outside pre" "list_all outside post"
    "list_all is_put puts" "rest = [] \<or> rest = [StopLoop]" "wrote lg0 calls (fold put puts lg)"
    "\<And>u. u \<noteq> t \<Longrightarrow> list_all outside (lg_stack lg u)"
  using assms by (auto simp: log_inv_def)

lemma log_inv_ownerI:
  assumes "lg_owner lg = Some t" "lg_stack lg t = pre @ (puts @ Unlock # rest) # post" "list_all outside pre" "list_all outside post"
    "list_all is_put puts" "rest = [] \<or> rest = [StopLoop]" "wrote lg0 calls (fold put puts lg)"
    "\<And>u. u \<noteq> t \<Longrightarrow> list_all outside (lg_stack lg u)"
  shows "log_inv lg0 calls lg"
  using assms by (auto simp: log_inv_def)

lemma inside_not_outside: "list_all is_put puts \<Longrightarrow> \<not> outside (puts @ Unlock # rest)"
  by (cases puts) (auto elim!: outside_cases)

text \<open>An activation outside the critical section comes to or leaves the top of a stack.\<close>

lemma log_inv_push:
  assumes "log_inv lg0 calls lg" "outside f"
  shows "log_inv lg0 calls (lg\<lparr>lg_stack := (lg_stack lg)(t := f # lg_stack lg t)\<rparr>)"
proof (cases "lg_owner lg")
  case None
  with assms show ?thesis by (simp add: log_inv_None)
next
  case (Some o')
  obtain pre puts rest post where "lg_stack lg o' = pre @ (puts @ Unlock # rest) # post" "list_all outside pre"
    "list_all outside post" "list_all is_put puts" "rest = [] \<or> rest = [StopLoop]" "wrote lg0 calls (fold put puts lg)"
    "\<And>u. u \<noteq> o' \<Longrightarrow> list_all outside (lg_stack lg u)" by (rule log_inv_owner [OF assms(1) Some]) blast
  with Some assms(2) show ?thesis
    by (intro log_inv_ownerI [of _ o' "if t = o' then f # pre else pre" puts rest post]) auto
qed

lemma log_inv_pop:
  assumes inv: "log_inv lg0 calls lg" and f: "lg_stack lg t = f # frames" "outside f"
  shows "log_inv lg0 calls (lg\<lparr>lg_stopped := b, lg_stack := (lg_stack lg)(t := frames)\<rparr>)"
proof (cases "lg_owner lg")
  case None
  then have all: "list_all outside (lg_stack lg u)" and w: "wrote lg0 calls lg" for u using inv by (simp_all add: log_inv_None)
  from all [of t] f(1) have "list_all outside frames" by simp
  with all w None show ?thesis by (simp add: log_inv_None)
next
  case (Some o')
  obtain pre puts rest post where p: "lg_stack lg o' = pre @ (puts @ Unlock # rest) # post" "list_all outside pre"
    "list_all outside post" "list_all is_put puts" "rest = [] \<or> rest = [StopLoop]" "wrote lg0 calls (fold put puts lg)"
    "\<And>u. u \<noteq> o' \<Longrightarrow> list_all outside (lg_stack lg u)" by (rule log_inv_owner [OF inv Some]) blast
  have w: "wrote lg0 calls (fold put puts (lg\<lparr>lg_stopped := b, lg_stack := (lg_stack lg)(t := frames)\<rparr>))" using p(6) by simp
  show ?thesis
  proof (cases "t = o'")
    case True
    then obtain pre' where "pre = f # pre'"
      using p(1,4) f inside_not_outside [of puts rest] by (cases pre) auto
    with True p f(1) Some w show ?thesis by (intro log_inv_ownerI [of _ o' pre' puts rest post]) auto
  next
    case False
    then have "list_all outside frames" using p(7) [of t] f(1) by simp
    with False p f(1) Some w show ?thesis by (intro log_inv_ownerI [of _ o' pre puts rest post]) auto
  qed
qed

lemma step_inv_outside:
  assumes inv: "log_inv lg0 calls lg" and f: "lg_stack lg t = f # frames" "outside f"
  shows "case log_step (Step t) lg of (new, lg') \<Rightarrow> log_inv lg0 (calls @ new) lg'"
  using f
proof (cases rule: step_outside)
  case (enter k now msg rest)
  have all: "list_all outside (lg_stack lg u)" for u using inv enter(1) by (simp add: log_inv_None)
  have w: "wrote lg0 (calls @ [(k, now, msg)]) (fold put (call_puts k now msg) lg)"
    using inv enter(1) by (simp add: log_inv_None wrote_call)
  have "log_inv lg0 (calls @ [(k, now, msg)])
      (lg\<lparr>lg_owner := Some t, lg_stack := (lg_stack lg)(t := (call_puts k now msg @ Unlock # rest) # frames)\<rparr>)"
    using all [of t] f(1) enter(2) w all
    by (intro log_inv_ownerI [of _ t "[]" "call_puts k now msg" rest frames]) simp_all
  with enter(3) show ?thesis by simp
next
  case blocked
  with inv show ?thesis by simp
next
  case relock
  with inv show ?thesis by simp
next
  case stop
  with log_inv_pop [OF inv f, of True] show ?thesis by simp
qed

lemma step_inv_inside:
  assumes inv: "log_inv lg0 calls lg" and o: "lg_owner lg = Some t"
    and f: "lg_stack lg t = (puts @ Unlock # rest) # post" "list_all is_put puts"
  shows "case log_step (Step t) lg of (new, lg') \<Rightarrow> log_inv lg0 (calls @ new) lg'"
proof -
  obtain pre puts' rest' post' where p: "lg_stack lg t = pre @ (puts' @ Unlock # rest') # post'" "list_all outside pre"
    "list_all outside post'" "list_all is_put puts'" "rest' = [] \<or> rest' = [StopLoop]" "wrote lg0 calls (fold put puts' lg)"
    "\<And>u. u \<noteq> t \<Longrightarrow> list_all outside (lg_stack lg u)" by (rule log_inv_owner [OF inv o]) blast
  have pre: "pre = []" using p(1,2) f inside_not_outside [OF f(2), of rest] by (cases pre) auto
  have st: "lg_stack lg t = (puts' @ Unlock # rest') # post'" using p(1) pre by simp
  show ?thesis
  proof (cases puts')
    case Nil
    then have "log_inv lg0 calls (lg\<lparr>lg_owner := None, lg_stack := (lg_stack lg)(t := if rest' = [] then post' else rest' # post')\<rparr>)"
      using p(3,5,6,7) by (auto simp: log_inv_None)
    with step_inside [OF st p(4)] Nil show ?thesis by simp
  next
    case (Cons a ps)
    then have "log_inv lg0 calls ((put a lg)\<lparr>lg_stack := (lg_stack lg)(t := (ps @ Unlock # rest') # post')\<rparr>)"
      using p(3-7) o by (intro log_inv_ownerI [of _ t "[]" ps rest' post']) simp_all
    with step_inside [OF st p(4)] Cons show ?thesis by simp
  qed
qed

lemma log_step_inv:
  assumes inv: "log_inv lg0 calls lg" and s: "log_step ev lg = (new, lg')"
  shows "log_inv lg0 (calls @ new) lg'"
proof (cases ev)
  case (Call t k now msg)
  have "log_inv lg0 calls (lg\<lparr>lg_stack := (lg_stack lg)(t := [log_call k now msg])\<rparr>)" if "lg_stack lg t = []"
    using log_inv_push [OF inv, of "log_call k now msg" t] that by simp
  with Call s inv show ?thesis by (auto split: if_splits)
next
  case (Interrupt t name now)
  with s inv log_inv_push [OF inv, of "signal_call name now" t] show ?thesis by auto
next
  case (Step t)
  show ?thesis
  proof (cases "lg_stack lg t")
    case Nil
    with Step s inv show ?thesis by simp
  next
    case (Cons f frames)
    show ?thesis
    proof (cases "outside f")
      case True
      with step_inv_outside [OF inv Cons] Step s show ?thesis by (simp del: log_step.simps)
    next
      case False
      obtain o' where o: "lg_owner lg = Some o'" using inv Cons False by (cases "lg_owner lg") (auto simp: log_inv_def dest!: spec [of _ t])
      obtain pre puts rest post where p: "lg_stack lg o' = pre @ (puts @ Unlock # rest) # post" "list_all outside pre"
        "list_all is_put puts" "\<And>u. u \<noteq> o' \<Longrightarrow> list_all outside (lg_stack lg u)"
        by (rule log_inv_owner [OF inv o]) blast
      have t: "t = o'" using p(4) [of t] Cons False by auto
      have "lg_stack lg t = (puts @ Unlock # rest) # post" using p(1,2) t Cons False by (cases pre) auto
      from step_inv_inside [OF inv o [folded t] this p(3)] Step s show ?thesis by (simp del: log_step.simps)
    qed
  qed
qed

lemma log_run_inv: "log_inv lg0 calls lg \<Longrightarrow> log_run evs lg = (new, lg') \<Longrightarrow> log_inv lg0 (calls @ new) lg'"
proof (induction evs arbitrary: calls lg new)
  case (Cons ev evs)
  show ?case
  proof (cases "lg_relocked lg")
    case True
    with Cons.prems show ?thesis by simp
  next
    case False
    then obtain n1 lg1 n2 where s: "log_step ev lg = (n1, lg1)" "log_run evs lg1 = (n2, lg')" "new = n1 @ n2"
      using Cons.prems(2) by (auto split: prod.splits)
    from Cons.IH [OF log_step_inv [OF Cons.prems(1) s(1)] s(2)] s(3) show ?thesis by simp
  qed
qed simp

lemma log_inv_start: "log_inv (setFile content mk_logger) [] (setFile content mk_logger)"
  by (cases content) (simp_all add: log_inv_def setFile_def mk_logger_def wrote_def lines_to_def)

lemma log_run_from_start:
  assumes "log_run evs (setFile content mk_logger) = (calls, lg)"
  shows "log_inv (setFile content mk_logger) calls lg"
  using log_run_inv [OF log_inv_start assms] by simp

text \<open>A call that is not disturbed writes its line and gives the mutex back.\<close>

lemma log_call_completes:
  assumes "lg_owner lg = None" "lg_stack lg t = []" "\<not> lg_relocked lg"
  shows "\<exists>lg'. log_run (Call t k now msg # replicate 10 (Step t)) lg = ([(k, now, msg)], lg') \<and> lg_owner lg' = None
     \<and> lg_stack lg' t = [] \<and> lg_stopped lg' = lg_stopped lg"
  using assms by (cases k) (simp_all add: numeral_eq_Suc log_call_def pop_action_def)

section \<open>Signals that reach the owner of the mutex\<close>

text \<open>The event is a signal to the thread that is inside \<open>log\<close> or \<open>err\<close>.\<close>

fun hits_owner :: "Logger \<Rightarrow> log_event \<Rightarrow> bool" where
  "hits_owner lg (Interrupt t name now) = (lg_owner lg = Some t)"
| "hits_owner lg _ = False"

text \<open>No event of a run is such a signal.\<close>

fun undisturbed :: "log_event list \<Rightarrow> Logger \<Rightarrow> bool" where
  "undisturbed [] lg = True"
| "undisturbed (ev # evs) lg = (\<not> hits_owner lg ev \<and> undisturbed evs (snd (log_step ev lg)))"

text \<open>The owner of the mutex is running its critical section.\<close>

definition owner_inside :: "Logger \<Rightarrow> bool" where
  "owner_inside lg \<longleftrightarrow> \<not> lg_relocked lg
   \<and> (\<forall>t. lg_owner lg = Some t \<longrightarrow>
        (\<exists>puts rest frames. lg_stack lg t = (puts @ Unlock # rest) # frames \<and> list_all is_put puts))"

lemma owner_inside_step:
  assumes inv: "log_inv lg0 calls lg" "owner_inside lg"
  shows "owner_inside (snd (log_step (Step t) lg))"
proof (cases "lg_owner lg = Some t")
  case True
  then obtain puts rest frames where p: "lg_stack lg t = (puts @ Unlock # rest) # frames" "list_all is_put puts"
    using inv(2) by (auto simp: owner_inside_def)
  have "\<not> lg_relocked lg" using inv(2) by (simp add: owner_inside_def)
  with step_inside [OF p] True p(2) show ?thesis by (cases puts) (auto simp: owner_inside_def)
next
  case other: False
  then have out: "list_all outside (lg_stack lg t)"
    using inv(1) by (auto simp: log_inv_def split: option.splits)
  show ?thesis
  proof (cases "lg_stack lg t")
    case Nil
    with inv(2) show ?thesis by simp
  next
    case (Cons f frames)
    moreover have "outside f" using out Cons by simp
    ultimately show ?thesis
    proof (cases rule: step_outside)
      case (enter k now msg rest)
      let ?lg = "lg\<lparr>lg_owner := Some t, lg_stack := (lg_stack lg)(t := (call_puts k now msg @ Unlock # rest) # frames)\<rparr>"
      have "owner_inside ?lg" using inv(2) call_puts_puts [of k now msg] by (auto simp: owner_inside_def simp del: call_puts_puts)
      with enter(3) show ?thesis by simp
    qed (use inv(2) other in \<open>auto simp: owner_inside_def\<close>)
  qed
qed

lemma undisturbed_run:
  "log_inv lg0 calls lg \<Longrightarrow> owner_inside lg \<Longrightarrow> undisturbed evs lg \<Longrightarrow> log_run evs lg = (new, lg') \<Longrightarrow> \<not> lg_relocked lg'"
proof (induction evs arbitrary: calls lg new)
  case Nil
  then show ?case by (simp add: owner_inside_def)
next
  case (Cons ev evs)
  then have "\<not> lg_relocked lg" by (simp add: owner_inside_def)
  then obtain n1 lg1 n2 where s: "log_step ev lg = (n1, lg1)" "log_run evs lg1 = (n2, lg')" "new = n1 @ n2"
    using Cons.prems(4) by (auto split: prod.splits)
  have "owner_inside lg1"
  proof (cases ev)
    case (Step t)
    with owner_inside_step [OF Cons.prems(1,2), of t] s(1) show ?thesis by (simp del: log_step.simps)
  qed (use s(1) Cons.prems(2,3) in \<open>auto simp: owner_inside_def split: if_splits\<close>)
  with Cons.IH [OF log_step_inv [OF Cons.prems(1) s(1)] _ _ s(2)] Cons.prems(3) s(1) show ?case by simp
qed

lemma owner_inside_start: "owner_inside (setFile content mk_logger)"
  by (cases content) (simp_all add: owner_inside_def setFile_def mk_logger_def)

section \<open>Properties\<close>

text \<open>
  C38. Lines are never torn: whatever calls of \<open>log\<close> and \<open>err\<close> any number of threads make and
  however their actions interleave, also with signal handlers that log, when no call is
  under way the console streams hold exactly the lines of the calls, in the order in which
  the calls got the mutex, and the log file, if it could be opened, holds its old content
  and all these lines. (A run ends where a thread locks the mutex while it owns it.)
\<close>

theorem log_lines_whole:
  assumes "log_run evs (setFile content mk_logger) = (calls, lg)" "lg_owner lg = None"
  shows "lg_cout lg = lines_to ToOut calls \<and> lg_cerr lg = lines_to ToErr calls
     \<and> lg_file lg = map_option (\<lambda>f. f @ concat (map log_line calls)) content"
  using log_run_from_start [OF assms(1)] assms(2)
  by (cases content) (auto simp: log_inv_None wrote_def setFile_def mk_logger_def)

text \<open>
  C39. Logging is not safe in a signal handler: however calls and signals interleave, the
  logger locks its mutex in the thread that owns it, which is undefined behaviour, only after
  a signal that reached a thread inside \<open>log\<close> or \<open>err\<close>; and after every such signal it does so
  with the next action of that thread.
\<close>

theorem signal_inside_log_relocks:
  assumes "log_run evs (setFile content mk_logger) = (calls, lg)"
  shows "(undisturbed evs (setFile content mk_logger) \<longrightarrow> \<not> lg_relocked lg)
    \<and> (\<not> lg_relocked lg \<and> lg_owner lg = Some t \<longrightarrow> lg_relocked (snd (log_run (Interrupt t name now # Step t # after) lg)))"
proof (intro conjI impI)
  assume "undisturbed evs (setFile content mk_logger)"
  then show "\<not> lg_relocked lg" by (rule undisturbed_run [OF log_inv_start owner_inside_start _ assms])
next
  assume "\<not> lg_relocked lg \<and> lg_owner lg = Some t"
  moreover have "log_run after lg' = ([], lg')" if "lg_relocked lg'" for lg' using that by (cases after) simp_all
  ultimately show "lg_relocked (snd (log_run (Interrupt t name now # Step t # after) lg))"
    by (simp add: signal_call_def log_call_def)
qed

theorem log_lines_whole_witness:
  "\<exists>calls lg. log_run [Call 0 ToOut ''n'' ''a'', Call 1 ToErr ''n'' ''b'', Step 0, Step 1, Step 0, Step 0, Step 0, Step 0, Step 0, Step 0, Step 0, Step 0, Step 0]
       (setFile (Some ''x'') mk_logger) = (calls, lg) \<and> lg_file lg = Some (''x'' @ concat (map log_line calls)) \<and> calls = [(ToOut, ''n'', ''a'')]"
proof -
  have "\<exists>lg. log_run [Call 0 ToOut ''n'' ''a'', Call 1 ToErr ''n'' ''b'', Step 0, Step 1, Step 0, Step 0, Step 0, Step 0, Step 0, Step 0, Step 0, Step 0, Step 0]
       (setFile (Some ''x'') mk_logger) = ([(ToOut, ''n'', ''a'')], lg) \<and> lg_owner lg = None"
    by (simp add: setFile_def mk_logger_def log_call_def pop_action_def)
  then show ?thesis using log_lines_whole [of _ "Some ''x''"] by (metis option.simps(9))
qed

theorem signal_inside_log_relocks_witness:
  "\<exists>lg. log_run [Call 0 ToOut ''n'' ''a'', Step 0] (setFile None mk_logger) = ([(ToOut, ''n'', ''a'')], lg)
     \<and> \<not> lg_relocked lg \<and> lg_relocked (snd (log_run [Interrupt 0 ''[turn]'' ''n'', Step 0, Step 0] lg))"
proof -
  let ?evs = "[Call 0 ToOut ''n'' ''a'', Step 0]"
  have "\<exists>lg. log_run ?evs (setFile None mk_logger) = ([(ToOut, ''n'', ''a'')], lg) \<and> lg_owner lg = Some 0"
    by (simp add: setFile_def mk_logger_def log_call_def pop_action_def)
  then obtain lg where r: "log_run ?evs (setFile None mk_logger) = ([(ToOut, ''n'', ''a'')], lg)" "lg_owner lg = Some 0" by blast
  have "undisturbed ?evs (setFile None mk_logger)" by simp
  with signal_inside_log_relocks [OF r(1), of 0 "''[turn]''" "''n''" "[Step 0]"] r show ?thesis by blast
qed

end
