(* ===== verification/Startup.thy ===== *)
theory Startup
  imports Turn_System Http_Server Tls_Contexts Registration Logger
begin

text \<open>
  How the two servers start and stop: \<open>main\<close> of \<open>turn_server/src/main.cpp\<close> and of
  \<open>backend/main.cpp\<close>, with the constructors that bind a socket. What the machine offers is a
  parameter: files, ports, the database file, OpenSSL, the number of cores. An exception
  that leaves \<open>main\<close> ends the process by \<open>std::terminate\<close>.
\<close>

section \<open>The machine\<close>

datatype bind_kind = BindTcp | BindUdp

text \<open>\<open>host_bind\<close> is the text of the exception for a port that cannot be bound.\<close>

record host =
  host_config :: "string \<Rightarrow> string option"
  host_logfile :: "string \<Rightarrow> string option"
  host_bind :: "bind_kind \<Rightarrow> string \<Rightarrow> u16 \<Rightarrow> string option"
  host_ssl :: ssl_lib
  host_db :: "string \<Rightarrow> db_open_env"
  host_cores :: nat

datatype 's process = Exited int "string list" | Aborted string | Serving 's

text \<open>The rest of \<open>main\<close> after a step that may throw.\<close>

definition or_abort :: "string + 'a \<Rightarrow> ('a \<Rightarrow> 's process) \<Rightarrow> 's process" where
  "or_abort r k = (case r of Inl err \<Rightarrow> Aborted err | Inr x \<Rightarrow> k x)"

text \<open>The file of the first argument or the default; without it the defaults of every key hold.\<close>

definition load_config :: "host \<Rightarrow> string \<Rightarrow> string list \<Rightarrow> config" where
  "load_config h default_file args =
     (let path = (case args of [] \<Rightarrow> default_file | a # _ \<Rightarrow> a)
      in case load path (host_config h path) Map.empty of Inl err \<Rightarrow> Map.empty | Inr cfg \<Rightarrow> cfg)"

definition start_logger :: "host \<Rightarrow> config \<Rightarrow> Logger" where
  "start_logger h cfg =
     (let log_file = cfg_get ''LOG_FILE'' [] cfg
      in if log_file \<noteq> [] then setFile (host_logfile h log_file) mk_logger else mk_logger)"

section \<open>Transports\<close>

definition bound :: "host \<Rightarrow> bind_kind \<Rightarrow> string \<Rightarrow> u16 \<Rightarrow> 'a \<Rightarrow> string + 'a" where
  "bound h kind address port x = (case host_bind h kind address port of Some err \<Rightarrow> Inl err | None \<Rightarrow> Inr x)"

definition mk_udp_transport :: "host \<Rightarrow> string \<Rightarrow> u16 \<Rightarrow> string + UdpTransport" where
  "mk_udp_transport h address port = bound h BindUdp address port mk_udp"

definition mk_tcp_transport :: "host \<Rightarrow> string \<Rightarrow> u16 \<Rightarrow> string + StreamTransport" where
  "mk_tcp_transport h address port = bound h BindTcp address port \<lparr>st_sessions = [], st_conns = []\<rparr>"

definition mk_tls_transport :: "host \<Rightarrow> SslContext \<Rightarrow> string \<Rightarrow> u16 \<Rightarrow> string + StreamTransport" where
  "mk_tls_transport h ctx address port = bound h BindTcp address port \<lparr>st_sessions = [], st_conns = []\<rparr>"

definition mk_dtls_transport :: "host \<Rightarrow> SslContext \<Rightarrow> string \<Rightarrow> u16 \<Rightarrow> string + 'ssl DtlsTransport" where
  "mk_dtls_transport h ctx address port = bound h BindUdp address port \<lparr>dtls_sessions = [], dtls_receiving = True\<rparr>"

section \<open>main of the TURN server\<close>

definition turn_main :: "host \<Rightarrow> string list \<Rightarrow> 'ssl TurnServer process" where
  "turn_main h args =
     (let cfg = load_config h ''../turn.env'' args;
          cert_file = cfg_get ''CERT_FILE'' ''../backend/certs/cert.pem'' cfg;
          key_file = cfg_get ''KEY_FILE'' ''../backend/certs/key.pem'' cfg;
          dispatcher = mk_turn_server cfg
      in or_abort (mk_udp_transport h ''0.0.0.0'' 3478) (\<lambda>udp.
         or_abort (mk_tcp_transport h ''0.0.0.0'' 3478) (\<lambda>tcp.
         or_abort (makeTlsContext (host_ssl h) cert_file key_file) (\<lambda>tls_ctx.
         or_abort (fst (makeDtlsContext (host_ssl h) cert_file key_file)) (\<lambda>dtls_ctx.
         or_abort (mk_tls_transport h tls_ctx ''0.0.0.0'' 5349) (\<lambda>tls.
         or_abort (mk_dtls_transport h dtls_ctx ''0.0.0.0'' 5349) (\<lambda>dtls.
           Serving \<lparr>ts_td = dispatcher, ts_udp = udp, ts_tcp = tcp, ts_tls = tls, ts_dtls = dtls,
                    tcp_out = (\<lambda>_. Idle []), tls_out = (\<lambda>_. Idle [])\<rparr>)))))))"

section \<open>main of the backend\<close>

definition store_error :: "api_error + 'a \<Rightarrow> string + 'a" where
  "store_error r =
     (case r of
        Inr x \<Rightarrow> Inr x
      | Inl (UserStoreError err) \<Rightarrow> Inl err
      | Inl (LoginError err) \<Rightarrow> Inl err
      | Inl (JwtExpired err) \<Rightarrow> Inl err
      | Inl (JwtInvalid err) \<Rightarrow> Inl err
      | Inl (OtherException err) \<Rightarrow> Inl err)"

definition backend_main :: "host \<Rightarrow> string list \<Rightarrow> HttpServer process" where
  "backend_main h args =
     (let cfg = load_config h ''../backend.env'' args;
          address = cfg_get ''HOST'' ''0.0.0.0'' cfg;
          port = word_of_int (getInt ''PORT'' 8080 cfg);
          db_path = cfg_get ''DB_PATH'' ''../data/chat.db'' cfg;
          cert_file = cfg_get ''CERT_FILE'' ''../backend/certs/cert.pem'' cfg;
          key_file = cfg_get ''KEY_FILE'' ''../backend/certs/key.pem'' cfg
      in case backend_tls (host_ssl h) cert_file key_file of
           Inl log_lines \<Rightarrow> Exited 1 log_lines
         | Inr ssl_ctx \<Rightarrow>
             or_abort (store_error (open_store (host_db h (c_str db_path)))) (\<lambda>db.
             or_abort (bound h BindTcp address port ()) (\<lambda>_.
               Serving (mk_http_server (mk_backend cfg db) (host_cores h)))))"

text \<open>
  After \<open>ioc.stop()\<close>: \<open>main\<close> returns when \<open>run\<close> has returned in every thread of the pool, so when
  no handler is still waiting in the shutdown of a connection.
\<close>

definition backend_exits :: "HttpServer \<Rightarrow> bool" where
  "backend_exits hs \<longleftrightarrow> waiting_threads hs = 0"

section \<open>Starting\<close>

definition certificates_load :: "host \<Rightarrow> config \<Rightarrow> bool" where
  "certificates_load h cfg \<longleftrightarrow>
     (let cert_file = cfg_get ''CERT_FILE'' ''../backend/certs/cert.pem'' cfg;
          key_file = cfg_get ''KEY_FILE'' ''../backend/certs/key.pem'' cfg
      in ctx_new (host_ssl h) \<and> cert_loads (host_ssl h) cert_file \<and> key_loads (host_ssl h) cert_file key_file
         \<and> c_str cert_file = cert_file \<and> c_str key_file = key_file)"

lemma or_abort_Inr [simp]: "or_abort (Inr x) k = k x"
  by (simp add: or_abort_def)

lemma or_abort_Serving: "or_abort r k = Serving s \<longleftrightarrow> (\<exists>x. r = Inr x \<and> k x = Serving s)"
  by (simp add: or_abort_def split: sum.split)

lemma bound_Inr: "bound h kind address port x = Inr y \<longleftrightarrow> host_bind h kind address port = None \<and> y = x"
  by (auto simp: bound_def split: option.split)

text \<open>The TURN server comes up with the state the reachability theorems start from.\<close>

lemma turn_main_serves:
  assumes "certificates_load h (load_config h ''../turn.env'' args)"
    and "\<And>kind port. port \<in> {3478, 5349} \<Longrightarrow> host_bind h kind ''0.0.0.0'' port = None"
  shows "turn_main h args = Serving (start_server (load_config h ''../turn.env'' args))"
proof -
  have "host_bind h kind ''0.0.0.0'' 3478 = None" "host_bind h kind ''0.0.0.0'' 5349 = None" for kind
    by (rule assms(2); simp)+
  then show ?thesis
    using assms(1)
    by (simp add: turn_main_def bound_def start_server_def certificates_load_def mk_udp_transport_def mk_tcp_transport_def
        mk_tls_transport_def mk_dtls_transport_def makeTlsContext_def makeDtlsContext_def Let_def)
qed

lemma turn_main_started:
  assumes "turn_main h args = Serving ts"
  shows "ts = start_server (load_config h ''../turn.env'' args) \<and> host_bind h BindUdp ''0.0.0.0'' 3478 = None"
  using assms
  by (auto simp: turn_main_def start_server_def or_abort_Serving bound_Inr mk_udp_transport_def mk_tcp_transport_def
      mk_tls_transport_def mk_dtls_transport_def Let_def)

lemma backend_main_serves:
  fixes h args defines "cfg \<equiv> load_config h ''../backend.env'' args"
  defines "db_env \<equiv> host_db h (c_str (cfg_get ''DB_PATH'' ''../data/chat.db'' cfg))"
  assumes "certificates_load h cfg" "open_error db_env = None" "schema_error db_env = None"
    and "\<And>address port. host_bind h BindTcp address port = None"
  shows "backend_main h args = Serving (mk_http_server
      (mk_backend cfg (case stored_users db_env of None \<Rightarrow> [] | Some db \<Rightarrow> db)) (host_cores h))"
proof -
  have db: "store_error (open_store db_env) = Inr (case stored_users db_env of None \<Rightarrow> [] | Some db \<Rightarrow> db)"
    using assms(4,5) by (simp add: open_store_def initSchema_def store_error_def)
  obtain ctx where "backend_tls (host_ssl h) (cfg_get ''CERT_FILE'' ''../backend/certs/cert.pem'' cfg)
      (cfg_get ''KEY_FILE'' ''../backend/certs/key.pem'' cfg) = Inr ctx"
    using assms(3) by (simp add: certificates_load_def backend_tls_def Let_def)
  with db assms(6) show ?thesis by (simp add: backend_main_def bound_def cfg_def db_env_def Let_def)
qed

text \<open>Without certificates the backend says so and exits with status 1; the TURN server is terminated by an exception.\<close>

lemma no_certificates:
  assumes "\<And>path. \<not> cert_loads (host_ssl h) path"
  shows "\<exists>lines. backend_main h args = Exited 1 lines" "\<exists>err. turn_main h args = Aborted err"
  using assms
  by (simp_all add: backend_main_def turn_main_def backend_tls_def makeTlsContext_def or_abort_def Let_def split: sum.split)

section \<open>Stopping\<close>

text \<open>
  One client that leaves its connection open after an answered request keeps the backend
  from ending: the join of the pool waits for the thread that waits for this client.
\<close>

lemma idle_client_prevents_exit:
  assumes "\<not> hr_upgrade (snd r)"
  shows "\<exists>hs. http_steps (request_events 0 r) (mk_http_server be cores) = Some hs \<and> \<not> backend_exits hs"
proof -
  have "waiting_threads (mk_http_server be cores) = 0" "conns_below (mk_http_server be cores)" "hs_next (mk_http_server be cores) = 0"
    "0 < hs_threads (mk_http_server be cores)"
    by (simp_all add: mk_http_server_def waiting_threads_def conns_below_def)
  with request_blocks_thread [of "mk_http_server be cores" r] assms show ?thesis by (auto simp: backend_exits_def)
qed

text \<open>
  The sockets of the transports: \<open>run\<close> starts an operation, its completion handler starts the
  next one. On a closed socket an operation completes at once with an error. The acceptors
  of TCP, TLS and HTTPS start again after every completion, the UDP and DTLS sockets only
  after one without an error.
\<close>

record Socket =
  so_open :: bool
  so_armed :: bool

definition so_run :: "Socket \<Rightarrow> Socket" where
  "so_run so = so\<lparr>so_armed := True\<rparr>"

definition so_stop :: "Socket \<Rightarrow> Socket" where
  "so_stop so = so\<lparr>so_open := False\<rparr>"

text \<open>Whether a completion handler is due, with \<open>arrived\<close> telling whether a peer has done something.\<close>

definition so_due :: "bool \<Rightarrow> Socket \<Rightarrow> bool" where
  "so_due arrived so \<longleftrightarrow> so_armed so \<and> (arrived \<or> \<not> so_open so)"

definition accept_done :: "bool \<Rightarrow> Socket \<Rightarrow> Socket" where
  "accept_done ec so = so_run (so\<lparr>so_armed := False\<rparr>)"

definition receive_done :: "bool \<Rightarrow> Socket \<Rightarrow> Socket" where
  "receive_done ec so = (if ec then so\<lparr>so_armed := False\<rparr> else so_run (so\<lparr>so_armed := False\<rparr>))"

text \<open>
  \<open>stop()\<close> ends the reception of datagrams after one more completion, but it turns an acceptor
  into a loop: however many completions have been handled, the next one is due.
\<close>

lemma stop_ends_reception: "\<not> so_due arrived (receive_done True (so_stop so))"
  by (simp add: so_due_def receive_done_def so_stop_def)

lemma stop_spins: "so_armed so \<Longrightarrow> so_due False ((accept_done True ^^ n) (so_stop so))"
proof -
  assume "so_armed so"
  then have "so_armed ((accept_done True ^^ n) (so_stop so)) \<and> \<not> so_open ((accept_done True ^^ n) (so_stop so))"
    by (induction n) (simp_all add: accept_done_def so_run_def so_stop_def)
  then show ?thesis by (simp add: so_due_def)
qed

end
