(* ===== verification/Spec2Isabelle.thy ===== *)
theory Spec2Isabelle
  imports Voice_Call Login Ws_Client Ws_Threads Exchange Call_Ids Turn_System Sound_Device Crossed_Calls Client_Main Startup
begin

text \<open>
  Verification development of a voice-chat system in C++: a TURN server
  (\<open>src/turn_server\<close>), a signalling backend (\<open>src/backend\<close>), a command line client
  (\<open>src/client_cli\<close>) and the code they share (\<open>src/shared\<close>).

  \<^bold>\<open>The program.\<close> Users register and log in at the backend over HTTPS and get a token; the
  token opens a web socket, over which calls are created, accepted, rejected and ended and
  the WebRTC offers, answers and candidates are relayed. On accepting a call the backend
  hands both parties credentials for the TURN server, computed from a secret the two servers
  share. The clients then exchange audio, through the TURN server if need be: it authenticates
  requests, keeps one allocation per client and relays data between clients and peers.

  \<^bold>\<open>How it is modelled.\<close> Structures are records, enumerations datatypes, hash tables
  association lists with distinct keys (\<open>umap\<close>), fixed-width integers words. An operation takes
  the state and returns the new one; an exception is \<open>Inl\<close> of an error or \<open>None\<close>, a read outside a
  buffer is \<open>None\<close>. Where the language or a library leaves the behaviour undefined, the model
  records it and concludes nothing of what follows: a thread that locks a \<open>std::mutex\<close> it owns
  (\<open>Relocked\<close>, \<open>lg_relocked\<close>), a write started while another is under way on the stream
  (\<open>Overlapped\<close>), calls of \<open>start\<close> and \<open>stop\<close> of an audio thread that overlap (\<open>dev_overlap\<close>). Time, random draws and the answers of the operating system are arguments or
  parts of events. Libraries are parameters with the documented behaviour the code relies on
  as named hypotheses (\<open>openssl_ok\<close>, \<open>asio_ok\<close>, \<open>world_ok\<close>, \<open>json_ok\<close>, \<open>gen_ok\<close>), each shown to be
  satisfiable by a concrete instance (\<open>demo_openssl\<close>, \<open>demo_asio\<close>, \<open>demo_json\<close> and others).

  \<^bold>\<open>The shared library.\<close> \<open>Prelude\<close> holds the types, the collections of simplification rules, the
  lemmas on words, byte buffers and tables, and the interfaces: \<open>registry\<close> (a table of
  sessions), \<open>invariant_machine\<close> (operations that keep an invariant, run in any order) and
  \<open>refining_machine\<close> (a machine whose steps are steps of an abstract one). \<open>Jitter_Buffer\<close> adds
  \<open>bounded_fifo\<close>. Each is interpreted on the code's own operations.

  \<^bold>\<open>TURN server.\<close>
  \<^item> \<open>Stun_Message\<close>: \<open>message/parser.cpp\<close>, \<open>builder.cpp\<close>, \<open>xor_codec.hpp\<close>, byte by byte. The parser
    stays inside the packet, whatever the packet is, and parsing inverts building.
  \<^item> \<open>Crypto\<close>: the wrappers of \<open>shared/crypto\<close>.
  \<^item> \<open>Allocation\<close>, \<open>Allocation_Manager\<close>: \<open>allocation/*\<close>, every handler, with a store for the shared
    allocation objects. The invariant ties the two tables, the port set and the quota together.
  \<^item> \<open>Turn_Auth\<close>: \<open>auth/*\<close>: nonces, time-limited credentials, message integrity; soundness, and
    that issued credentials are accepted until they expire.
  \<^item> \<open>Turn_Dispatcher\<close>: \<open>core/turn_dispatcher.cpp\<close>, \<open>onPacket\<close> and all it calls. In every reachable
    state any packet is processed without undefined behaviour; only authenticated requests
    change allocations; traffic goes only to permitted peers; responses verify.
  \<^item> \<open>Stream_Transport\<close>, \<open>Stream_Writes\<close>, \<open>Dtls_Transport\<close>: \<open>transport/*\<close>: framing of the streams,
    the session objects and the tables that name them, which an object outlives, accepting,
    composed writes, the DTLS sessions with their mutexes.
  \<^item> \<open>Turn_Server\<close>, \<open>Turn_System\<close>: \<open>main.cpp\<close>: the dispatcher behind its four transports, one event
    at a time. The theorems list exactly what can stop the server, and show what a TCP client
    receives from another one, and when the server breaks Asio's rule for writes.
  \<^item> \<open>Tls_Contexts\<close>: \<open>transport/ssl_context_factory.hpp\<close> and the contexts of the other programs:
    errors, leaks, versions, certificates and cookies.

  \<^bold>\<open>Backend.\<close>
  \<^item> \<open>Call_Manager\<close>, \<open>Exchange\<close>, \<open>Call_Ids\<close>: \<open>calls/call_manager.cpp\<close>; the call table refines a
    telephone exchange with one line per user; the identifiers are version 4 UUIDs.
  \<^item> \<open>Json\<close>, \<open>Backend_Auth\<close>, \<open>Http_Api\<close>: \<open>auth/*\<close>, \<open>api/routes.cpp\<close>, request dispatch of
    \<open>api/http_server.cpp\<close>: accounts, tokens, routes.
  \<^item> \<open>Router\<close>, \<open>Ws_Server\<close>: \<open>signaling/*\<close>: the messages and to whom they go, the session table.
  \<^item> \<open>Backend\<close>, \<open>Http_Server\<close>: \<open>main.cpp\<close> and the connections: all handlers as one machine, its
    invariant, and the pool of threads that runs them.
  \<^item> \<open>Backend_Threads\<close>: the same handlers taken apart where they release a mutex, in any
    interleaving: accounts, calls, sessions and messages are those of a serial run.
  \<^item> \<open>Registration\<close>: opening \<open>auth/user_store.cpp\<close>, and registrations of several threads,
    statement by statement: of those for a new user exactly one succeeds.

  \<^bold>\<open>Client.\<close>
  \<^item> \<open>Client_Session\<close>, \<open>Client_App\<close>: \<open>cli/*\<close>, \<open>session/*\<close>, \<open>signaling/message_handler.cpp\<close>, \<open>rtc/*\<close> and
    every callback of \<open>main.cpp\<close>.
  \<^item> \<open>Ws_Client\<close>, \<open>Ws_Threads\<close>: \<open>signaling/ws_client.cpp\<close>: the reconnect schedule, and the
    interleaving of the caller, the reader and the reconnect thread.
  \<^item> \<open>Jitter_Buffer\<close>, \<open>Sound_Device\<close>, \<open>Wav\<close>: \<open>audio/*\<close>: ring buffer, audio threads with their device,
    WAV files. \<open>Config\<close>: \<open>shared/config/config.hpp\<close>. \<open>Http_Client\<close>: the requests and calls of
    \<open>http/http_client.cpp\<close>.
  \<^item> \<open>Client_Main\<close>: \<open>cli/repl.cpp\<close>, the loop that reads the terminal, and signals while it waits.

  \<^bold>\<open>Across components.\<close> \<open>Voice_Call\<close> composes two clients and the backend and runs a whole
  call; \<open>Crossed_Calls\<close> does so with concurrent handlers when a hang-up crosses the acceptance;
  \<open>Login\<close> takes a login from the command line to the registered web socket; \<open>Logger\<close> is
  \<open>shared/log/logger.hpp\<close> under several threads and signals: lines stay whole, and a signal inside
  a call is what makes it lock its mutex twice; \<open>Startup\<close> is \<open>main\<close> of the two servers, from
  the configuration to the state the other theories start from, with every way to fail, and
  their end; this theory shows that the two servers agree on credentials.

  \<^bold>\<open>Bounds and fuel.\<close> No function runs on fuel. Loops are recursive functions with a
  termination proof; the one that may not end, the search for an unused nonce, is a value of
  \<open>option\<close> and shown to return when some draw is unused. The allocation of a port makes the
  1000 attempts of the code. The streams of a TURN session are taken byte by byte, which
  covers every segmentation (\<open>feed_append\<close>).

  \<^bold>\<open>Not modelled.\<close> Console output apart from the logger, and the mutex that orders the
  client's; the destructors at the end of the client's \<open>main\<close> except \<open>disconnect\<close>; data races on
  members that several threads of the client use without a mutex. OpenSSL, Asio, Beast,
  SQLite, jwt-cpp, nlohmann/json, libdatachannel and the sound device are outside the
  repository and enter as parameters or as events.
\<close>

section \<open>Properties that span components\<close>

text \<open>
  C23. The two servers agree on credentials: when the backend's TURN configuration holds the
  secret of the TURN server, a request that a client signs with the user name and password
  the backend handed it, and that carries a valid nonce, is authenticated by the TURN server
  (\<open>LongTermCred::authenticate\<close>) at every time up to the expiry, and refused as expired at
  every later time.
\<close>

theorem backend_credentials_authenticate:
  assumes "openssl_ok ssl" "tc_shared_secret cfg = shared_secret hv" "0 \<le> wall0 + tc_ttl cfg" "wall0 + tc_ttl cfg < 2 ^ 63"
    and "length tid = 12" "plain_body attrs" "nonce_isValid nm nonce now"
    and "length (attrs_bytes (attrs @ credential_attrs (turn_username wall0 user cfg) realm nonce)) + 24 < 65536"
    and "m = Allocate \<or> allocated = [] \<or> turn_username wall0 user cfg = allocated"
  shows "\<exists>password raw msg. turn_password ssl (turn_username wall0 user cfg) cfg = Inr password
    \<and> sign_md5 ssl realm (turn_username wall0 user cfg) password
        (build (add_attrs (attrs @ credential_attrs (turn_username wall0 user cfg) realm nonce) (mk_builder m Request tid))) = Some raw
    \<and> parse raw (length raw) default_message = Some (Ok, msg) \<and> method msg = m \<and> msg_class msg = Request
    \<and> (\<forall>wall. authenticate ssl realm nm hv now wall msg raw (length raw) allocated =
         Some (if wall \<le> wall0 + tc_ttl cfg then AuthOk else CredentialsExpired))"
proof -
  let ?u = "turn_username wall0 user cfg"
  obtain password where p: "turn_password ssl ?u cfg = Inr password"
    "hv_generate ssl hv wall0 user (tc_ttl cfg) = Some \<lparr>cred_username = ?u, cred_password = password\<rparr>"
    using backend_issues_turn_credentials [OF assms(1,2)] by metis
  then have c: "computeHmac ssl hv ?u = Some password" "parseExpiry ?u = Some (wall0 + tc_ttl cfg)"
    using parseExpiry_username [OF assms(3,4), of user] by (auto simp: hv_generate_def Let_def bind_eq_Some_conv)
  obtain raw where raw: "sign_md5 ssl realm ?u password
      (build (add_attrs (attrs @ credential_attrs ?u realm nonce) (mk_builder m Request tid))) = Some raw"
    using sign_md5_total [OF assms(1)] by blast
  from signed_request_any_time [where out = default_message, OF assms(1,5,6,8,7) c(2,1) raw assms(9)] p(1) raw show ?thesis by blast
qed

theorem backend_credentials_authenticate_witness:
  "\<exists>raw msg. parse raw (length raw) default_message = Some (Ok, msg) \<and> method msg = Allocate
     \<and> authenticate demo_openssl ''r'' demo_nm demo_hv 5 99 msg raw (length raw) [] = Some AuthOk
     \<and> authenticate demo_openssl ''r'' demo_nm demo_hv 5 100 msg raw (length raw) [] = Some CredentialsExpired"
proof -
  let ?cfg = "\<lparr>tc_host = ''h'', tc_port_plain = 3478, tc_port_tls = 5349, tc_shared_secret = ''s'', tc_ttl = 9\<rparr>"
  have u: "turn_username 90 ''u'' ?cfg = ''99:u''" by code_simp
  have "\<exists>password raw msg. turn_password demo_openssl (turn_username 90 ''u'' ?cfg) ?cfg = Inr password
    \<and> sign_md5 demo_openssl ''r'' (turn_username 90 ''u'' ?cfg) password
        (build (add_attrs (demo_body @ credential_attrs (turn_username 90 ''u'' ?cfg) ''r'' ''n1'') (mk_builder Allocate Request (replicate 12 1)))) = Some raw
    \<and> parse raw (length raw) default_message = Some (Ok, msg) \<and> method msg = Allocate \<and> msg_class msg = Request
    \<and> (\<forall>wall. authenticate demo_openssl ''r'' demo_nm demo_hv 5 wall msg raw (length raw) [] =
         Some (if wall \<le> 90 + tc_ttl ?cfg then AuthOk else CredentialsExpired))"
    by (rule backend_credentials_authenticate [OF demo_openssl_ok])
      (use demo_fits in \<open>simp_all add: u demo_hv_def plain_body_def demo_body_def nonce_isValid_def demo_nm_def\<close>)
  then obtain raw msg where r: "parse raw (length raw) default_message = Some (Ok, msg)" "method msg = Allocate"
    "\<forall>wall. authenticate demo_openssl ''r'' demo_nm demo_hv 5 wall msg raw (length raw) [] =
         Some (if wall \<le> 90 + tc_ttl ?cfg then AuthOk else CredentialsExpired)" by blast
  from r(3) [THEN spec, of 99] r(3) [THEN spec, of 100] r(1,2) show ?thesis by (intro exI [of _ raw] exI [of _ msg]) simp
qed

end
